theory Spec2Isabelle
  imports Main "HOL-Library.Word"
begin

section \<open>Status values\<close>

text \<open>
  A \<open>StatusOr<T>\<close> of the source is \<open>error + T\<close>. \<open>Status c m\<close> is a typed failure value
  handed back to the caller (\<open>errors::InvalidArgument(m)\<close> is \<open>Status INVALID_ARGUMENT m\<close>).
  \<open>Abort m\<close> is the end of the process: a failed \<open>assert\<close>, a null dereference, an index
  out of range or the read of an uninitialised pointer.
\<close>

datatype error_code = INVALID_ARGUMENT | INTERNAL | UNIMPLEMENTED | OTHER_CODE nat

datatype error = Status error_code string | Abort string

definition InvalidArgument :: "string \<Rightarrow> error" where
  "InvalidArgument m = Status INVALID_ARGUMENT m"

section \<open>Meshes and layouts\<close>

text \<open>
  Modelled from the spec: the classes Mesh and Layout (tensor_layout.h is not part of the
  sources at hand). A mesh has a total device count, the ids and the names of its local
  devices and a backend kind; a layout has its mesh and a canonical string form.
\<close>

record mesh =
  num_devices :: nat
  local_device_ids :: "int list"
  local_devices :: "string list"
  device_type :: string

definition is_tpu_mesh :: "mesh \<Rightarrow> bool" where
  "is_tpu_mesh m = (device_type m = ''TPU'')"

definition is_cpu_mesh :: "mesh \<Rightarrow> bool" where
  "is_cpu_mesh m = (device_type m = ''CPU'')"

record layout =
  layout_mesh :: mesh
  ToString :: string

section \<open>The program graph\<close>

type_synonym op_id = nat

datatype elem_type = IntegerType nat | StringType | FloatType nat

datatype tensor_type = RankedTensorType (getShape: "nat list") (getElementType: elem_type)

definition isInteger :: "elem_type \<Rightarrow> nat \<Rightarrow> bool" where
  "isInteger t w = (t = IntegerType w)"

text \<open>A value is a result of an operation, an argument of a function's entry block, or null.\<close>

datatype val = OpResult op_id nat | BlockArgument op_id nat | NullValue

fun getDefiningOp :: "val \<Rightarrow> op_id option" where
  "getDefiningOp (OpResult i k) = Some i"
| "getDefiningOp v = None"

datatype attr =
    StringAttr string
  | IntegerAttr int
  | BoolAttr bool
  | SymbolRefAttr string
  | ArrayAttr "attr list"
  | DenseIntAttr "32 word list"
  | ShapeAttr "nat list"
  | FunctionType "tensor_type list" "tensor_type list"
  | LayoutAttr layout
  | VisibilityAttr bool

datatype op_kind =
    ModuleOp | FuncOp | ClusterOp | ReturnOp
  | DTensorSend | DTensorRecv
  | HostSendOp | HostRecvOp
  | XlaSendFromHostV2Op | XlaSendToHostOp | XlaRecvAtHostV2Op | XlaRecvFromHostOp
  | PlaceholderProgramKeyOp
  | CaseOp | CastOp | SliceOp | ConstOp | ReshapeOp
  | OtherOp string

text \<open>
  An operation: its kind, operands, result types and attributes, the attributes set on its
  arguments (functions only), the operation that holds it (\<open>parent\<close>) and the operations of
  its own single block, in order (\<open>body\<close>).
\<close>

record operation =
  kind :: op_kind
  operands :: "val list"
  result_types :: "tensor_type list"
  attrs :: "(string \<times> attr) list"
  arg_attrs :: "(nat \<times> string \<times> attr) list"
  parent :: "op_id option"
  body :: "op_id list"

definition mk_op :: "op_kind \<Rightarrow> val list \<Rightarrow> tensor_type list \<Rightarrow> (string \<times> attr) list \<Rightarrow> operation" where
  "mk_op k xs ts as =
     \<lparr>kind = k, operands = xs, result_types = ts, attrs = as, arg_attrs = [],
      parent = None, body = []\<rparr>"

text \<open>
  The graph is an arena: operation \<open>i\<close> is entry \<open>i\<close> of the list, an erased operation leaves
  \<open>None\<close> behind, a new operation is appended, so its index is fresh.
\<close>

type_synonym ir = "operation option list"

definition get_op :: "ir \<Rightarrow> op_id \<Rightarrow> operation option" where
  "get_op s i = (if i < length s then s ! i else None)"

definition getAttr :: "operation \<Rightarrow> string \<Rightarrow> attr option" where
  "getAttr opn n = map_of (attrs opn) n"

definition update_op :: "op_id \<Rightarrow> (operation \<Rightarrow> operation) \<Rightarrow> ir \<Rightarrow> ir" where
  "update_op i f s = (if i < length s then s[i := map_option f (s ! i)] else s)"

subsection \<open>Builders\<close>

text \<open>
  An insertion point is a block (named by the operation that owns it; none for a detached
  position) and the operation before which new operations go (none: the end of the block).
\<close>

datatype ins_point = InsertionPoint (ip_block: "op_id option") (ip_before: "op_id option")

fun insert_before :: "op_id option \<Rightarrow> op_id \<Rightarrow> op_id list \<Rightarrow> op_id list" where
  "insert_before None i xs = xs @ [i]"
| "insert_before (Some y) i xs = takeWhile (\<lambda>x. x \<noteq> y) xs @ i # dropWhile (\<lambda>x. x \<noteq> y) xs"

definition create :: "ir \<Rightarrow> ins_point \<Rightarrow> operation \<Rightarrow> op_id \<times> ir" where
  "create s ip opn =
     (let i = length s;
          s1 = s @ [Some (opn\<lparr>parent := ip_block ip\<rparr>)]
      in (i, case ip_block ip of
               None \<Rightarrow> s1
             | Some b \<Rightarrow> update_op b (\<lambda>p. p\<lparr>body := insert_before (ip_before ip) i (body p)\<rparr>) s1))"

text \<open>\<open>OpBuilder(op)\<close>: insert before \<open>op\<close>.\<close>

definition OpBuilder :: "ir \<Rightarrow> op_id \<Rightarrow> ins_point" where
  "OpBuilder s i =
     InsertionPoint (case get_op s i of None \<Rightarrow> None | Some opn \<Rightarrow> parent opn) (Some i)"

fun next_in :: "op_id \<Rightarrow> op_id list \<Rightarrow> op_id option" where
  "next_in i [] = None"
| "next_in i [x] = None"
| "next_in i (x # y # xs) = (if x = i then Some y else next_in i (y # xs))"

text \<open>\<open>setInsertionPointAfter(op)\<close>: insert before the successor of \<open>op\<close> in its block.\<close>

definition setInsertionPointAfter :: "ir \<Rightarrow> op_id \<Rightarrow> ins_point" where
  "setInsertionPointAfter s i =
     (case get_op s i of
        None \<Rightarrow> InsertionPoint None None
      | Some opn \<Rightarrow>
          (case parent opn of
             None \<Rightarrow> InsertionPoint None None
           | Some b \<Rightarrow>
               InsertionPoint (Some b)
                 (case get_op s b of None \<Rightarrow> None | Some p \<Rightarrow> next_in i (body p))))"

text \<open>\<open>OpBuilder(&block.front())\<close> on the body of \<open>b\<close>: insert before its first operation.\<close>

definition atBlockFront :: "ir \<Rightarrow> op_id \<Rightarrow> error + ins_point" where
  "atBlockFront s b =
     (case get_op s b of
        None \<Rightarrow> Inl (Abort ''null block owner'')
      | Some p \<Rightarrow>
          (case body p of
             [] \<Rightarrow> Inl (Abort ''front of an empty block'')
           | x # _ \<Rightarrow> Inr (InsertionPoint (Some b) (Some x))))"

subsection \<open>Erasing and rewiring\<close>

definition erase :: "op_id \<Rightarrow> ir \<Rightarrow> ir" where
  "erase i s =
     (case get_op s i of
        None \<Rightarrow> s
      | Some opn \<Rightarrow>
          (let s1 = s[i := None]
           in case parent opn of
                None \<Rightarrow> s1
              | Some b \<Rightarrow> update_op b (\<lambda>p. p\<lparr>body := removeAll i (body p)\<rparr>) s1))"

definition replace_val :: "val \<Rightarrow> val \<Rightarrow> val \<Rightarrow> val" where
  "replace_val old new v = (if v = old then new else v)"

text \<open>\<open>Value::replaceAllUsesWith\<close>: every operand equal to \<open>old\<close> becomes \<open>new\<close>.\<close>

definition replaceAllUsesWith :: "val \<Rightarrow> val \<Rightarrow> ir \<Rightarrow> ir" where
  "replaceAllUsesWith old new s =
     map (map_option (\<lambda>opn. opn\<lparr>operands := map (replace_val old new) (operands opn)\<rparr>)) s"

text \<open>
  \<open>Operation::replaceAllUsesWith(Operation*)\<close>: result \<open>k\<close> of the old operation becomes
  result \<open>k\<close> of the new one.
\<close>

fun replace_op_val :: "op_id \<Rightarrow> op_id \<Rightarrow> val \<Rightarrow> val" where
  "replace_op_val old new (OpResult i k) = (if i = old then OpResult new k else OpResult i k)"
| "replace_op_val old new v = v"

definition replaceAllUsesWithOp :: "op_id \<Rightarrow> op_id \<Rightarrow> ir \<Rightarrow> ir" where
  "replaceAllUsesWithOp old new s =
     map (map_option (\<lambda>opn. opn\<lparr>operands := map (replace_op_val old new) (operands opn)\<rparr>)) s"

text \<open>The uses of a value: the pairs (operation, operand position) that read it.\<close>

definition uses :: "ir \<Rightarrow> val \<Rightarrow> (op_id \<times> nat) list" where
  "uses s v =
     concat (map (\<lambda>i. case get_op s i of
                        None \<Rightarrow> []
                      | Some opn \<Rightarrow>
                          map (\<lambda>k. (i, k)) (filter (\<lambda>k. operands opn ! k = v) [0..<length (operands opn)]))
                 [0..<length s])"

definition operand_at :: "ir \<Rightarrow> op_id \<times> nat \<Rightarrow> val option" where
  "operand_at s u =
     (case get_op s (fst u) of
        None \<Rightarrow> None
      | Some opn \<Rightarrow> if snd u < length (operands opn) then Some (operands opn ! snd u) else None)"

subsection \<open>Enclosing operations\<close>

text \<open>
  \<open>op->getParentOfType<T>()\<close> follows the parent links to the nearest enclosing operation of
  kind \<open>T\<close>. A chain of parents in a graph of \<open>n\<close> operations without a cycle has at most
  \<open>n\<close> links, which is the bound of the search.
\<close>

primrec parent_search :: "nat \<Rightarrow> ir \<Rightarrow> op_kind \<Rightarrow> op_id \<Rightarrow> op_id option" where
  "parent_search 0 s k i = None"
| "parent_search (Suc n) s k i =
     (case get_op s i of
        None \<Rightarrow> None
      | Some opn \<Rightarrow>
          (case parent opn of
             None \<Rightarrow> None
           | Some p \<Rightarrow>
               (case get_op s p of
                  None \<Rightarrow> None
                | Some po \<Rightarrow> if kind po = k then Some p else parent_search n s k p)))"

definition getParentOfType :: "ir \<Rightarrow> op_kind \<Rightarrow> op_id \<Rightarrow> op_id option" where
  "getParentOfType s k i = parent_search (length s) s k i"

subsection \<open>The abstract Send and Recv operations\<close>

text \<open>
  A handle of type \<open>mlir::TF::DTensorSend\<close> names an operation with one operand (the input),
  a key and a target layout; a \<open>mlir::TF::DTensorRecv\<close> has a key, a layout and one result.
\<close>

record dtensor_send =
  send_input :: val
  send_key :: string
  target_layout :: layout

record dtensor_recv =
  recv_key :: string
  recv_layout :: layout
  recv_type :: tensor_type

definition as_DTensorSend :: "ir \<Rightarrow> op_id \<Rightarrow> dtensor_send option" where
  "as_DTensorSend s i =
     (case get_op s i of
        None \<Rightarrow> None
      | Some opn \<Rightarrow>
          if kind opn = DTensorSend \<and> length (operands opn) = 1
          then (case getAttr opn ''key'' of
                  Some (StringAttr k) \<Rightarrow>
                    (case getAttr opn ''target_layout'' of
                       Some (LayoutAttr l) \<Rightarrow>
                         Some \<lparr>send_input = hd (operands opn), send_key = k, target_layout = l\<rparr>
                     | _ \<Rightarrow> None)
                | _ \<Rightarrow> None)
          else None)"

definition as_DTensorRecv :: "ir \<Rightarrow> op_id \<Rightarrow> dtensor_recv option" where
  "as_DTensorRecv s i =
     (case get_op s i of
        None \<Rightarrow> None
      | Some opn \<Rightarrow>
          if kind opn = DTensorRecv \<and> length (result_types opn) = 1
          then (case getAttr opn ''key'' of
                  Some (StringAttr k) \<Rightarrow>
                    (case getAttr opn ''layout'' of
                       Some (LayoutAttr l) \<Rightarrow>
                         Some \<lparr>recv_key = k, recv_layout = l, recv_type = hd (result_types opn)\<rparr>
                     | _ \<Rightarrow> None)
                | _ \<Rightarrow> None)
          else None)"

definition getType :: "ir \<Rightarrow> val \<Rightarrow> tensor_type option" where
  "getType s v =
     (case v of
        OpResult i k \<Rightarrow>
          (case get_op s i of
             None \<Rightarrow> None
           | Some opn \<Rightarrow> if k < length (result_types opn) then Some (result_types opn ! k) else None)
      | BlockArgument f k \<Rightarrow>
          (case get_op s f of
             None \<Rightarrow> None
           | Some fo \<Rightarrow>
               (case getAttr fo ''function_type'' of
                  Some (FunctionType ins outs) \<Rightarrow> if k < length ins then Some (ins ! k) else None
                | _ \<Rightarrow> None))
      | NullValue \<Rightarrow> None)"

subsection \<open>Walking nested operations\<close>

text \<open>
  \<open>op.walk(callback)\<close> visits every operation nested under \<open>op\<close> and \<open>op\<close> itself, the
  nested ones first (post-order). The nesting depth of a graph of \<open>n\<close> operations without
  a cycle is at most \<open>n\<close>, which is the bound of the descent.
\<close>

primrec walk_ops :: "nat \<Rightarrow> ir \<Rightarrow> op_id \<Rightarrow> op_id list" where
  "walk_ops 0 s i = []"
| "walk_ops (Suc n) s i =
     (case get_op s i of
        None \<Rightarrow> []
      | Some opn \<Rightarrow> concat (map (walk_ops n s) (body opn)) @ [i])"

definition walk :: "ir \<Rightarrow> op_id \<Rightarrow> op_id list" where
  "walk s i = walk_ops (length s) s i"

definition has_kind :: "ir \<Rightarrow> op_kind \<Rightarrow> op_id \<Rightarrow> bool" where
  "has_kind s k i = (case get_op s i of None \<Rightarrow> False | Some opn \<Rightarrow> kind opn = k)"

section \<open>Collaborators outside the sources at hand\<close>

text \<open>
  \<open>DeviceId\<close>, \<open>ExtractDeviceMeshFromOp\<close>, \<open>LocalTypeFromGlobalType\<close>, \<open>OpName\<close>, \<open>OpHash\<close>
  and the constant \<open>kCustomDeviceAttr\<close> are declared in headers only; the lowering takes them
  as parameters. The first three return a \<open>StatusOr\<close>.
\<close>

record externals =
  DeviceId :: "op_id option \<Rightarrow> error + val"
  ExtractDeviceMeshFromOp :: "op_id option \<Rightarrow> error + mesh option"
  LocalTypeFromGlobalType :: "layout \<Rightarrow> tensor_type \<Rightarrow> error + tensor_type"
  OpName :: "op_id \<Rightarrow> string"
  OpHash :: "op_id \<Rightarrow> nat"
  kCustomDeviceAttr :: string
  IntScalarConstType :: tensor_type

section \<open>The compilation key of a cluster\<close>

definition PlaceholderProgramKey :: operation where
  "PlaceholderProgramKey = mk_op PlaceholderProgramKeyOp [] [RankedTensorType [3] StringType] []"

definition GetOrCreateCompilationKey :: "op_id \<Rightarrow> ir \<Rightarrow> error + (val \<times> ir)" where
  "GetOrCreateCompilationKey opr s =
     (case getParentOfType s ClusterOp opr of
        None \<Rightarrow> Inl (Abort ''assert(cluster)'')
      | Some cluster \<Rightarrow>
          (case filter (has_kind s PlaceholderProgramKeyOp) (walk s cluster) of
             x # xs \<Rightarrow> Inr (OpResult (last (x # xs)) 0, s)
           | [] \<Rightarrow>
               (case atBlockFront s cluster of
                  Inl e \<Rightarrow> Inl e
                | Inr builder \<Rightarrow>
                    (let (new_compilation_key, s1) = create s builder PlaceholderProgramKey
                     in Inr (OpResult new_compilation_key 0, s1)))))"

section \<open>The ordinal of the running device\<close>

text \<open>
  The loop that fills the table: entry \<open>local_device_ids[i]\<close> becomes \<open>i\<close>. The table holds
  32-bit integers; an index outside the table ends the process.
\<close>

fun fill_ordinals :: "int list \<Rightarrow> nat \<Rightarrow> 32 word list \<Rightarrow> error + 32 word list" where
  "fill_ordinals [] i tbl = Inr tbl"
| "fill_ordinals (d # ds) i tbl =
     (if 0 \<le> d \<and> nat d < length tbl
      then fill_ordinals ds (Suc i) (tbl[nat d := of_nat i])
      else Inl (Abort ''device_id_to_ordinal: index out of range''))"

definition device_id_to_ordinal :: "mesh \<Rightarrow> error + 32 word list" where
  "device_id_to_ordinal m = fill_ordinals (local_device_ids m) 0 (replicate (num_devices m) 0)"

text \<open>
  Modelled from the spec: the helpers of value_utils.h and collection_ops_util.h that build
  constants and reshapes (a constant 1-D table of 32-bit integers; a reshape of a scalar
  to one element; a reshape of one element down to a scalar).
\<close>

definition EffectivelyScalarR1Type :: "elem_type \<Rightarrow> tensor_type" where
  "EffectivelyScalarR1Type t = RankedTensorType [1] t"

definition IntConst :: "ir \<Rightarrow> ins_point \<Rightarrow> 32 word list \<Rightarrow> val \<times> ir" where
  "IntConst s b values =
     (let (c, s1) = create s b (mk_op ConstOp [] [RankedTensorType [length values] (IntegerType 32)]
                                  [(''value'', DenseIntAttr values)])
      in (OpResult c 0, s1))"

definition CreateIntScalarConst :: "externals \<Rightarrow> int \<Rightarrow> ir \<Rightarrow> ins_point \<Rightarrow> val \<times> ir" where
  "CreateIntScalarConst ext n s b =
     (let (c, s1) = create s b (mk_op ConstOp [] [IntScalarConstType ext] [(''value'', IntegerAttr n)])
      in (OpResult c 0, s1))"

definition ReshapeScalarToSizeType :: "ir \<Rightarrow> ins_point \<Rightarrow> val \<Rightarrow> val \<times> ir" where
  "ReshapeScalarToSizeType s b scalar =
     (let (shape, s1) = IntConst s b [1];
          (r, s2) = create s1 b (mk_op ReshapeOp [scalar, shape] [RankedTensorType [1] (IntegerType 32)] [])
      in (OpResult r 0, s2))"

definition ReshapeSizeTypeToScalar :: "ir \<Rightarrow> ins_point \<Rightarrow> val \<Rightarrow> val \<times> ir" where
  "ReshapeSizeTypeToScalar s b tensor =
     (let (shape, s1) = IntConst s b [];
          (r, s2) = create s1 b (mk_op ReshapeOp [tensor, shape] [RankedTensorType [] (IntegerType 32)] [])
      in (OpResult r 0, s2))"

definition GetDeviceOrdinal ::
  "externals \<Rightarrow> mesh \<Rightarrow> op_id option \<Rightarrow> ins_point \<Rightarrow> bool \<Rightarrow> ir \<Rightarrow> error + (val \<times> ir)" where
  "GetDeviceOrdinal ext m function builder return_int64_type s =
     (case device_id_to_ordinal m of
        Inl e \<Rightarrow> Inl e
      | Inr tbl \<Rightarrow>
          (case DeviceId ext function of
             Inl e \<Rightarrow> Inl e
           | Inr device_id \<Rightarrow>
               (let (input, s1) = IntConst s builder tbl;
                    (begin, s2) = ReshapeScalarToSizeType s1 builder device_id;
                    (size, s3) = IntConst s2 builder [1];
                    (device_ordinal, s4) =
                      create s3 builder
                        (mk_op SliceOp [input, begin, size] [EffectivelyScalarR1Type (IntegerType 32)] []);
                    (device_ordinal_scalar, s5) =
                      ReshapeSizeTypeToScalar s4 builder (OpResult device_ordinal 0)
                in if return_int64_type
                   then (let (c, s6) =
                               create s5 builder
                                 (mk_op CastOp [device_ordinal_scalar] [RankedTensorType [] (IntegerType 64)] [])
                         in Inr (OpResult c 0, s6))
                   else Inr (device_ordinal_scalar, s5))))"

section \<open>Host to host: one send, one receive\<close>

definition HostSend :: "val \<Rightarrow> string \<Rightarrow> string \<Rightarrow> int \<Rightarrow> string \<Rightarrow> bool \<Rightarrow> operation" where
  "HostSend input tensor_name send_device send_device_incarnation recv_device client_terminated =
     mk_op HostSendOp [input] []
       [(''tensor_name'', StringAttr tensor_name),
        (''send_device'', StringAttr send_device),
        (''send_device_incarnation'', IntegerAttr send_device_incarnation),
        (''recv_device'', StringAttr recv_device),
        (''client_terminated'', BoolAttr client_terminated)]"

definition HostRecv :: "tensor_type \<Rightarrow> string \<Rightarrow> string \<Rightarrow> int \<Rightarrow> string \<Rightarrow> bool \<Rightarrow> operation" where
  "HostRecv tensor_type tensor_name send_device send_device_incarnation recv_device client_terminated =
     mk_op HostRecvOp [] [tensor_type]
       [(''tensor_name'', StringAttr tensor_name),
        (''send_device'', StringAttr send_device),
        (''send_device_incarnation'', IntegerAttr send_device_incarnation),
        (''recv_device'', StringAttr recv_device),
        (''client_terminated'', BoolAttr client_terminated)]"

definition LowerDTensorSendToTFOp ::
  "layout \<Rightarrow> val \<Rightarrow> op_id \<Rightarrow> ir \<Rightarrow> error + (op_id \<times> ir)" where
  "LowerDTensorSendToTFOp send_input_layout input dtensor_send s =
     (case as_DTensorSend s dtensor_send of
        None \<Rightarrow> Inl (Abort ''not a DTensorSend'')
      | Some snd_op \<Rightarrow>
          (case getDefiningOp input of
             None \<Rightarrow> Inl (Abort ''setInsertionPointAfter(nullptr)'')
           | Some d \<Rightarrow>
               (let builder = setInsertionPointAfter s d;
                    tensor_name = send_key snd_op;
                    sending_devices = local_devices (layout_mesh send_input_layout);
                    receiving_devices = local_devices (layout_mesh (target_layout snd_op))
                in case (sending_devices, receiving_devices) of
                     (sd # _, rd # _) \<Rightarrow>
                       (let (lowered_send_op, s1) =
                              create s builder (HostSend input tensor_name sd 0 rd False)
                        in Inr (lowered_send_op, erase dtensor_send s1))
                   | _ \<Rightarrow> Inl (Abort ''index 0 of an empty device list''))))"

definition LowerDTensorRecvToTFOp ::
  "mesh \<Rightarrow> op_id \<Rightarrow> tensor_type \<Rightarrow> ir \<Rightarrow> error + (op_id \<times> ir)" where
  "LowerDTensorRecvToTFOp send_mesh dtensor_recv output_type s =
     (case as_DTensorRecv s dtensor_recv of
        None \<Rightarrow> Inl (Abort ''not a DTensorRecv'')
      | Some rcv_op \<Rightarrow>
          (case getParentOfType s ClusterOp dtensor_recv of
             None \<Rightarrow> Inl (Abort ''null recv_cluster'')
           | Some recv_cluster \<Rightarrow>
               (case atBlockFront s recv_cluster of
                  Inl e \<Rightarrow> Inl e
                | Inr _ \<Rightarrow>
                    (let builder = OpBuilder s dtensor_recv;
                         tensor_name = recv_key rcv_op;
                         sending_devices = local_devices send_mesh;
                         receiving_devices = local_devices (layout_mesh (recv_layout rcv_op))
                     in case (sending_devices, receiving_devices) of
                          (sd # _, rd # _) \<Rightarrow>
                            Inr (create s builder (HostRecv output_type tensor_name sd 0 rd False))
                        | _ \<Rightarrow> Inl (Abort ''index 0 of an empty device list'')))))"

section \<open>Across the host and accelerator boundary\<close>

text \<open>
  The two lowerings of this section call GetDeviceOrdinal without its last argument: the
  declaration's default applies, a 64-bit ordinal (\<open>return_int64_type = true\<close>), the width
  the host-side transfer primitives take. The branching lowerings pass \<open>false\<close> themselves.
\<close>

definition XlaSendFromHostV2 :: "val list \<Rightarrow> val \<Rightarrow> val \<Rightarrow> string \<Rightarrow> operation" where
  "XlaSendFromHostV2 inputs dynamic_key device_ordinal key =
     mk_op XlaSendFromHostV2Op (inputs @ [dynamic_key, device_ordinal]) [] [(''key'', StringAttr key)]"

definition XlaSendToHost :: "val \<Rightarrow> string \<Rightarrow> operation" where
  "XlaSendToHost input key = mk_op XlaSendToHostOp [input] [] [(''key'', StringAttr key)]"

definition XlaRecvAtHostV2 :: "tensor_type list \<Rightarrow> val \<Rightarrow> val \<Rightarrow> string \<Rightarrow> operation" where
  "XlaRecvAtHostV2 output_types dynamic_key device_ordinal key =
     mk_op XlaRecvAtHostV2Op [dynamic_key, device_ordinal] output_types [(''key'', StringAttr key)]"

definition XlaRecvFromHost :: "tensor_type \<Rightarrow> nat list \<Rightarrow> string \<Rightarrow> operation" where
  "XlaRecvFromHost output_type shape key =
     mk_op XlaRecvFromHostOp [] [output_type] [(''shape'', ShapeAttr shape), (''key'', StringAttr key)]"

definition LowerDTensorSendToXlaOp ::
  "externals \<Rightarrow> layout \<Rightarrow> val \<Rightarrow> op_id \<Rightarrow> bool \<Rightarrow> ir \<Rightarrow> error + (op_id \<times> ir)" where
  "LowerDTensorSendToXlaOp ext send_input_layout input dtensor_send send_from_device_zero s =
     (case as_DTensorSend s dtensor_send of
        None \<Rightarrow> Inl (Abort ''not a DTensorSend'')
      | Some snd_op \<Rightarrow>
          (let send_from_cpu = \<not> is_tpu_mesh (layout_mesh send_input_layout);
               builder = OpBuilder s dtensor_send
           in if send_from_cpu
              then (case GetOrCreateCompilationKey dtensor_send s of
                      Inl e \<Rightarrow> Inl e
                    | Inr (program_key, s1) \<Rightarrow>
                        (case (if send_from_device_zero
                               then Inr (CreateIntScalarConst ext 0 s1 builder)
                               else (case getParentOfType s1 ClusterOp dtensor_send of
                                       None \<Rightarrow> Inl (InvalidArgument ''DTensorSend is not inside a ClusterOp'')
                                     | Some send_cluster \<Rightarrow>
                                         (case getParentOfType s1 FuncOp send_cluster of
                                            None \<Rightarrow> Inl (InvalidArgument ''DTensorSend is not inside a FuncOp'')
                                          | Some send_func \<Rightarrow>
                                              GetDeviceOrdinal ext (layout_mesh send_input_layout)
                                                (Some send_func) builder True s1))) of
                           Inl e \<Rightarrow> Inl e
                         | Inr (device_ordinal, s2) \<Rightarrow>
                             (let (lowered_send_op, s3) =
                                    create s2 builder
                                      (XlaSendFromHostV2 [input] program_key device_ordinal (send_key snd_op))
                              in Inr (lowered_send_op, erase dtensor_send s3))))
              else (let (lowered_send_op, s1) = create s builder (XlaSendToHost input (send_key snd_op))
                    in Inr (lowered_send_op, erase dtensor_send s1))))"

definition LowerDTensorRecvToXlaOp ::
  "externals \<Rightarrow> op_id \<Rightarrow> tensor_type \<Rightarrow> ir \<Rightarrow> error + (op_id \<times> ir)" where
  "LowerDTensorRecvToXlaOp ext dtensor_recv output_type s =
     (case as_DTensorRecv s dtensor_recv of
        None \<Rightarrow> Inl (Abort ''not a DTensorRecv'')
      | Some rcv_op \<Rightarrow>
          (let recv_at_cpu = is_cpu_mesh (layout_mesh (recv_layout rcv_op));
               builder = OpBuilder s dtensor_recv
           in if recv_at_cpu
              then (let recv_cluster = getParentOfType s ClusterOp dtensor_recv
                    in case ExtractDeviceMeshFromOp ext recv_cluster of
                         Inl e \<Rightarrow> Inl e
                       | Inr None \<Rightarrow>
                           Inl (InvalidArgument
                                  ''failed to get device ordinal as mesh for operation is not specified.'')
                       | Inr (Some m) \<Rightarrow>
                           (case recv_cluster of
                              None \<Rightarrow> Inl (Abort ''null recv_cluster'')
                            | Some c \<Rightarrow>
                                (case atBlockFront s c of
                                   Inl e \<Rightarrow> Inl e
                                 | Inr builder2 \<Rightarrow>
                                     (case GetDeviceOrdinal ext m (getParentOfType s FuncOp c) builder2 True s of
                                        Inl e \<Rightarrow> Inl e
                                      | Inr (device_ordinal, s1) \<Rightarrow>
                                          (case GetOrCreateCompilationKey dtensor_recv s1 of
                                             Inl e \<Rightarrow> Inl e
                                           | Inr (program_key, s2) \<Rightarrow>
                                               Inr (create s2 (OpBuilder s2 dtensor_recv)
                                                      (XlaRecvAtHostV2 [output_type] program_key device_ordinal
                                                         (recv_key rcv_op))))))))
              else Inr (create s builder
                          (XlaRecvFromHost output_type (getShape (recv_type rcv_op)) (recv_key rcv_op)))))"

text \<open>The two overloads that forward to the one above.\<close>

definition LowerDTensorRecvToXlaOp_default :: "externals \<Rightarrow> op_id \<Rightarrow> ir \<Rightarrow> error + (op_id \<times> ir)" where
  "LowerDTensorRecvToXlaOp_default ext dtensor_recv s =
     (case as_DTensorRecv s dtensor_recv of
        None \<Rightarrow> Inl (Abort ''not a DTensorRecv'')
      | Some rcv_op \<Rightarrow> LowerDTensorRecvToXlaOp ext dtensor_recv (recv_type rcv_op) s)"

definition LowerDTensorRecvToXlaOp_mesh ::
  "externals \<Rightarrow> mesh \<Rightarrow> op_id \<Rightarrow> tensor_type \<Rightarrow> ir \<Rightarrow> error + (op_id \<times> ir)" where
  "LowerDTensorRecvToXlaOp_mesh ext m dtensor_recv output_type s =
     LowerDTensorRecvToXlaOp ext dtensor_recv output_type s"

section \<open>Fan-out from a host\<close>

text \<open>
  The loops over the receiving devices. \<open>lowered\<close> is the pointer the loop assigns: not
  initialised before the first round.
\<close>

fun send_loop ::
  "ins_point \<Rightarrow> val \<Rightarrow> string \<Rightarrow> string list \<Rightarrow> string list \<Rightarrow> op_id option \<Rightarrow> ir \<Rightarrow>
   error + (op_id option \<times> ir)" where
  "send_loop builder input tensor_name sending_devices [] lowered s = Inr (lowered, s)"
| "send_loop builder input tensor_name sending_devices (rd # rds) lowered s =
     (case sending_devices of
        [] \<Rightarrow> Inl (Abort ''index 0 of an empty device list'')
      | sd # _ \<Rightarrow>
          (let (l, s1) = create s builder (HostSend input tensor_name sd 0 rd False)
           in send_loop builder input tensor_name sending_devices rds (Some l) s1))"

fun recv_loop ::
  "ins_point \<Rightarrow> tensor_type \<Rightarrow> string \<Rightarrow> string list \<Rightarrow> string list \<Rightarrow> op_id option \<Rightarrow> ir \<Rightarrow>
   error + (op_id option \<times> ir)" where
  "recv_loop builder ty tensor_name sending_devices [] lowered s = Inr (lowered, s)"
| "recv_loop builder ty tensor_name sending_devices (rd # rds) lowered s =
     (case sending_devices of
        [] \<Rightarrow> Inl (Abort ''index 0 of an empty device list'')
      | sd # _ \<Rightarrow>
          (let (l, s1) = create s builder (HostRecv ty tensor_name sd 0 rd False)
           in recv_loop builder ty tensor_name sending_devices rds (Some l) s1))"

definition LowerDTensorSendFromCPUToTFOp ::
  "layout \<Rightarrow> val \<Rightarrow> op_id \<Rightarrow> ir \<Rightarrow> error + (op_id \<times> ir)" where
  "LowerDTensorSendFromCPUToTFOp send_input_layout input dtensor_send s =
     (case as_DTensorSend s dtensor_send of
        None \<Rightarrow> Inl (Abort ''not a DTensorSend'')
      | Some snd_op \<Rightarrow>
          (case getDefiningOp input of
             None \<Rightarrow> Inl (Abort ''setInsertionPointAfter(nullptr)'')
           | Some d \<Rightarrow>
               (let builder = setInsertionPointAfter s d;
                    sending_devices = local_devices (layout_mesh send_input_layout);
                    receiving_devices = local_devices (layout_mesh (target_layout snd_op));
                    tensor_name = send_key snd_op
                in case send_loop builder (send_input snd_op) tensor_name sending_devices
                          receiving_devices None s of
                     Inl e \<Rightarrow> Inl e
                   | Inr (lowered_send_op, s1) \<Rightarrow>
                       (let s2 = erase dtensor_send s1
                        in case lowered_send_op of
                             None \<Rightarrow> Inl (Abort ''lowered_send_op is not initialised'')
                           | Some l \<Rightarrow> Inr (l, s2)))))"

definition LowerDTensorRecvFromCPUToTFOp ::
  "mesh \<Rightarrow> op_id \<Rightarrow> ir \<Rightarrow> error + (op_id \<times> ir)" where
  "LowerDTensorRecvFromCPUToTFOp send_mesh dtensor_recv s =
     (case as_DTensorRecv s dtensor_recv of
        None \<Rightarrow> Inl (Abort ''not a DTensorRecv'')
      | Some rcv_op \<Rightarrow>
          (case getParentOfType s ClusterOp dtensor_recv of
             None \<Rightarrow> Inl (Abort ''null recv_cluster'')
           | Some recv_cluster \<Rightarrow>
               (case atBlockFront s recv_cluster of
                  Inl e \<Rightarrow> Inl e
                | Inr _ \<Rightarrow>
                    (let builder = OpBuilder s dtensor_recv;
                         tensor_name = recv_key rcv_op;
                         sending_devices = local_devices send_mesh;
                         receiving_devices = local_devices (layout_mesh (recv_layout rcv_op))
                     in case recv_loop builder (recv_type rcv_op) tensor_name sending_devices
                               receiving_devices None s of
                          Inl e \<Rightarrow> Inl e
                        | Inr (None, s1) \<Rightarrow> Inl (Abort ''assert(lowered_recv_op)'')
                        | Inr (Some lowered_recv_op, s1) \<Rightarrow>
                            Inr (lowered_recv_op,
                                 erase dtensor_recv (replaceAllUsesWithOp dtensor_recv lowered_recv_op s1))))))"

section \<open>One subprogram per device pair\<close>

subsection \<open>Names\<close>

text \<open>Decimal digits, as \<open>llvm::formatv\<close> and \<open>std::to_string\<close> print an unsigned integer.\<close>

definition digit :: "nat \<Rightarrow> char" where
  "digit n = char_of (48 + n)"

fun dec :: "nat \<Rightarrow> string" where
  "dec n = (if n < 10 then [digit n] else dec (n div 10) @ [digit (n mod 10)])"

declare dec.simps [simp del]

text \<open>
  \<open>llvm::formatv("{0}_send_{1}_{2}", name, hash, index)\<close> and its \<open>receive\<close> twin; \<open>tag\<close> is
  the word between the first two underscores.
\<close>

definition formatv :: "string \<Rightarrow> string \<Rightarrow> nat \<Rightarrow> nat \<Rightarrow> string" where
  "formatv tag nm hash idx = nm @ ''_'' @ tag @ ''_'' @ dec hash @ ''_'' @ dec idx"

subsection \<open>The symbol table of the module\<close>

definition getSymbolName :: "operation \<Rightarrow> string option" where
  "getSymbolName opn = (case getAttr opn ''sym_name'' of Some (StringAttr n) \<Rightarrow> Some n | _ \<Rightarrow> None)"

definition setAttr :: "string \<Rightarrow> attr \<Rightarrow> operation \<Rightarrow> operation" where
  "setAttr n a opn = opn\<lparr>attrs := (n, a) # filter (\<lambda>kv. fst kv \<noteq> n) (attrs opn)\<rparr>"

text \<open>
  \<open>mlir::SymbolTable\<close>: the operation whose block holds the symbols, the names in use and
  the counter from which fresh suffixes are drawn.
\<close>

record symbol_table =
  symbolTableOp :: op_id
  symbolNames :: "string list"
  uniquingCounter :: nat

definition module_symbols :: "ir \<Rightarrow> op_id \<Rightarrow> string list" where
  "module_symbols s m =
     (case get_op s m of
        None \<Rightarrow> []
      | Some mo \<Rightarrow>
          List.map_filter (\<lambda>i. case get_op s i of None \<Rightarrow> None | Some opn \<Rightarrow> getSymbolName opn) (body mo))"

definition SymbolTable :: "ir \<Rightarrow> op_id \<Rightarrow> symbol_table" where
  "SymbolTable s m = \<lparr>symbolTableOp = m, symbolNames = module_symbols s m, uniquingCounter = 0\<rparr>"

text \<open>
  The renaming loop of \<open>SymbolTable::insert\<close>: try \<open>name_c\<close>, \<open>name_(c+1)\<close>, ... until one is
  not in use. Among \<open>length names + 1\<close> different candidates one is free, which bounds the loop.
\<close>

primrec generateSymbolName :: "nat \<Rightarrow> string \<Rightarrow> string list \<Rightarrow> nat \<Rightarrow> (string \<times> nat) option" where
  "generateSymbolName 0 nm names c = None"
| "generateSymbolName (Suc fuel) nm names c =
     (let candidate = nm @ ''_'' @ dec c
      in if candidate \<in> set names then generateSymbolName fuel nm names (Suc c)
         else Some (candidate, Suc c))"

text \<open>
  \<open>symbol_table.insert(op)\<close>: a detached operation goes to the end of the table's block;
  a name already in use is replaced by a fresh one. Returns the name under which the
  symbol is known.
\<close>

definition SymbolTable_insert ::
  "symbol_table \<Rightarrow> op_id \<Rightarrow> ir \<Rightarrow> error + (string \<times> symbol_table \<times> ir)" where
  "SymbolTable_insert st f s =
     (case get_op s f of
        None \<Rightarrow> Inl (Abort ''null symbol'')
      | Some fo \<Rightarrow>
          (case getSymbolName fo of
             None \<Rightarrow> Inl (Abort ''symbol without a name'')
           | Some nm \<Rightarrow>
               (let s1 = (if parent fo = None
                          then update_op (symbolTableOp st) (\<lambda>p. p\<lparr>body := body p @ [f]\<rparr>)
                                 (update_op f (\<lambda>opn. opn\<lparr>parent := Some (symbolTableOp st)\<rparr>) s)
                          else s)
                in if nm \<notin> set (symbolNames st)
                   then Inr (nm, st\<lparr>symbolNames := symbolNames st @ [nm]\<rparr>, s1)
                   else (case generateSymbolName (Suc (length (symbolNames st))) nm (symbolNames st)
                                (uniquingCounter st) of
                           None \<Rightarrow> Inl (Abort ''no fresh name'')
                         | Some (nm', c') \<Rightarrow>
                             Inr (nm',
                                  st\<lparr>symbolNames := symbolNames st @ [nm'], uniquingCounter := c'\<rparr>,
                                  update_op f (setAttr ''sym_name'' (StringAttr nm')) s1)))))"

subsection \<open>GenerateBranches\<close>

definition FuncOp_create :: "string \<Rightarrow> tensor_type list \<Rightarrow> tensor_type list \<Rightarrow> operation" where
  "FuncOp_create nm ins outs =
     mk_op FuncOp [] [] [(''sym_name'', StringAttr nm), (''function_type'', FunctionType ins outs)]"

definition setVisibilityPrivate :: "operation \<Rightarrow> operation" where
  "setVisibilityPrivate opn = setAttr ''sym_visibility'' (StringAttr ''private'') opn"

definition getOperandTypes :: "ir \<Rightarrow> op_id \<Rightarrow> tensor_type list option" where
  "getOperandTypes s i =
     (case get_op s i of None \<Rightarrow> None | Some opn \<Rightarrow> those (map (getType s) (operands opn)))"

definition getOperands :: "ir \<Rightarrow> op_id \<Rightarrow> val list" where
  "getOperands s i = (case get_op s i of None \<Rightarrow> [] | Some opn \<Rightarrow> operands opn)"

definition getResults :: "ir \<Rightarrow> op_id \<Rightarrow> val list" where
  "getResults s i =
     (case get_op s i of None \<Rightarrow> [] | Some opn \<Rightarrow> map (OpResult i) [0..<length (result_types opn)])"

type_synonym 'a branch_fn = "ins_point \<Rightarrow> val \<Rightarrow> 'a \<Rightarrow> ir \<Rightarrow> error + (op_id \<times> ir)"

text \<open>
  The loop of GenerateBranches over \<open>llvm::enumerate(values)\<close>; \<open>idx\<close> is the index of the
  next value, \<open>branches\<close> the references pushed so far.
\<close>

fun GenerateBranches_loop ::
  "externals \<Rightarrow> op_id \<Rightarrow> tensor_type list \<Rightarrow> string \<Rightarrow> 'a branch_fn \<Rightarrow> nat \<Rightarrow> 'a list \<Rightarrow>
   symbol_table \<Rightarrow> attr list \<Rightarrow> ir \<Rightarrow> error + (attr list \<times> symbol_table \<times> ir)" where
  "GenerateBranches_loop ext opr result_tys tag fn idx [] st branches s = Inr (branches, st, s)"
| "GenerateBranches_loop ext opr result_tys tag fn idx (v # vs) st branches s =
     (case getOperandTypes s opr of
        None \<Rightarrow> Inl (Abort ''operand without a type'')
      | Some operand_tys \<Rightarrow>
          (let (func_op, s1) =
                 create s (InsertionPoint None None)
                   (setVisibilityPrivate
                      (FuncOp_create (formatv tag (OpName ext opr) (OpHash ext opr) idx)
                         operand_tys result_tys))
           in case SymbolTable_insert st func_op s1 of
                Inl e \<Rightarrow> Inl e
              | Inr (nm, st1, s2) \<Rightarrow>
                  (let fn_builder = InsertionPoint (Some func_op) None;
                       arg = (if length operand_tys > 0 then BlockArgument func_op 0 else NullValue)
                   in case fn fn_builder arg v s2 of
                        Inl e \<Rightarrow> Inl e
                      | Inr (branch_op, s3) \<Rightarrow>
                          (let (ret, s4) =
                                 create s3 fn_builder (mk_op ReturnOp (getResults s3 branch_op) [] [])
                           in GenerateBranches_loop ext opr result_tys tag fn (Suc idx) vs st1
                                (branches @ [SymbolRefAttr nm]) s4))))"

definition GenerateBranches ::
  "externals \<Rightarrow> op_id \<Rightarrow> symbol_table \<Rightarrow> tensor_type list \<Rightarrow> string \<Rightarrow> 'a list \<Rightarrow> 'a branch_fn \<Rightarrow>
   ir \<Rightarrow> error + (attr list \<times> symbol_table \<times> ir)" where
  "GenerateBranches ext opr symbol_tbl result_tys tag values fn s =
     GenerateBranches_loop ext opr result_tys tag fn 0 values symbol_tbl [] s"

definition Case :: "tensor_type list \<Rightarrow> val \<Rightarrow> val list \<Rightarrow> attr list \<Rightarrow> bool \<Rightarrow> operation" where
  "Case output branch_index input branches is_stateless =
     mk_op CaseOp (branch_index # input) output
       [(''branches'', ArrayAttr branches), (''is_stateless'', BoolAttr is_stateless)]"

subsection \<open>The branching send\<close>

definition setArgAttr :: "nat \<Rightarrow> string \<Rightarrow> attr \<Rightarrow> operation \<Rightarrow> operation" where
  "setArgAttr n k a opn = opn\<lparr>arg_attrs := (n, k, a) # arg_attrs opn\<rparr>"

text \<open>The body of the lambda that LowerOneToOneDTensorSendToTFHostSend gives to GenerateBranches.\<close>

definition send_branch ::
  "externals \<Rightarrow> layout \<Rightarrow> bool \<Rightarrow> string \<Rightarrow> (string \<times> string) branch_fn" where
  "send_branch ext send_layout i32_copy tensor_name op_builder arg device_pair s =
     (case arg of
        BlockArgument f n \<Rightarrow>
          (if has_kind s FuncOp f
           then (let s1 = update_op f (setArgAttr n (kCustomDeviceAttr ext) (StringAttr (ToString send_layout))) s
                 in case (if i32_copy
                          then (case getType s1 arg of
                                  None \<Rightarrow> Inl (Abort ''value without a tensor type'')
                                | Some val_type \<Rightarrow>
                                    (let (c, s2) =
                                           create s1 op_builder
                                             (mk_op CastOp [arg]
                                                [RankedTensorType (getShape val_type) (IntegerType 64)] [])
                                     in Inr (OpResult c 0, s2)))
                          else Inr (arg, s1)) of
                      Inl e \<Rightarrow> Inl e
                    | Inr (v, s2) \<Rightarrow>
                        Inr (create s2 op_builder
                               (HostSend v tensor_name (fst device_pair) 0 (snd device_pair) False)))
           else Inl (Abort ''null func_op''))
      | _ \<Rightarrow> Inl (Abort ''null block argument''))"

definition LowerOneToOneDTensorSendToTFHostSend ::
  "externals \<Rightarrow> layout \<Rightarrow> mesh \<Rightarrow> op_id \<Rightarrow> ir \<Rightarrow> error + (op_id \<times> ir)" where
  "LowerOneToOneDTensorSendToTFHostSend ext send_layout recv_mesh dtensor_send s =
     (case as_DTensorSend s dtensor_send of
        None \<Rightarrow> Inl (Abort ''not a DTensorSend'')
      | Some snd_op \<Rightarrow>
          (case getType s (send_input snd_op) of
             None \<Rightarrow> Inl (Abort ''input without a tensor type'')
           | Some input_type \<Rightarrow>
               (let send_mesh = layout_mesh send_layout;
                    i32_copy = isInteger (getElementType input_type) 32
                in case getParentOfType s ModuleOp dtensor_send of
                     None \<Rightarrow> Inl (Abort ''null module'')
                   | Some module \<Rightarrow>
                       (let symbol_tbl = SymbolTable s module;
                            device_pairs = zip (local_devices send_mesh) (local_devices recv_mesh);
                            builder = OpBuilder s dtensor_send
                        in case getParentOfType s ClusterOp dtensor_send of
                             None \<Rightarrow> Inl (Abort ''null send_cluster'')
                           | Some send_cluster \<Rightarrow>
                               (let send_fn = getParentOfType s FuncOp send_cluster
                                in case ExtractDeviceMeshFromOp ext (Some send_cluster) of
                                     Inl e \<Rightarrow> Inl e
                                   | Inr None \<Rightarrow> Inl (Abort ''value of an empty optional'')
                                   | Inr (Some m) \<Rightarrow>
                                       (case GetDeviceOrdinal ext m send_fn builder False s of
                                          Inl e \<Rightarrow> Inl e
                                        | Inr (device_ordinal, s1) \<Rightarrow>
                                            (case GenerateBranches ext dtensor_send symbol_tbl [] ''send''
                                                    device_pairs
                                                    (send_branch ext send_layout i32_copy (send_key snd_op)) s1 of
                                               Inl e \<Rightarrow> Inl e
                                             | Inr (branches, st, s2) \<Rightarrow>
                                                 (let (case_op, s3) =
                                                        create s2 builder
                                                          (Case [] device_ordinal (getOperands s2 dtensor_send) branches False)
                                                  in Inr (case_op,
                                                          if device_type recv_mesh = ''GPU''
                                                          then erase dtensor_send s3 else s3)))))))))"

subsection \<open>The branching receive\<close>

text \<open>
  Modelled from the spec: SetSingleLayoutOnOp of layout_parsing.h, which records the
  canonical string form of a layout as an attribute of a lowered operation.
\<close>

definition SetSingleLayoutOnOp :: "op_id \<Rightarrow> layout \<Rightarrow> ir \<Rightarrow> ir" where
  "SetSingleLayoutOnOp i l s = update_op i (setAttr ''_layout'' (ArrayAttr [StringAttr (ToString l)])) s"

definition recv_branch :: "layout \<Rightarrow> tensor_type \<Rightarrow> string \<Rightarrow> (string \<times> string) branch_fn" where
  "recv_branch recv_lyt local_output_type tensor_name op_builder arg device_pair s =
     (let (recv_op, s1) =
            create s op_builder
              (HostRecv local_output_type tensor_name (fst device_pair) 0 (snd device_pair) False)
      in Inr (recv_op, SetSingleLayoutOnOp recv_op recv_lyt s1))"


section \<open>What an operation carries\<close>

text \<open>
  The kind, operands, result types and attributes of an operation: what it is, apart from
  where it stands. \<open>contents\<close> lists them for the whole graph.
\<close>

definition payload :: "operation \<Rightarrow> op_kind \<times> val list \<times> tensor_type list \<times> (string \<times> attr) list" where
  "payload opn = (kind opn, operands opn, result_types opn, attrs opn)"

definition contents :: "ir \<Rightarrow> (op_kind \<times> val list \<times> tensor_type list \<times> (string \<times> attr) list) option list" where
  "contents s = map (map_option payload) s"


section \<open>A small program\<close>

text \<open>
  A module with one function, one cluster, a producer \<open>tf.A\<close>, an abstract Send of its
  result, an abstract Recv and a consumer \<open>tf.B\<close> of the received value.
\<close>

definition src_mesh :: mesh where
  "src_mesh = \<lparr>num_devices = 2, local_device_ids = [0, 1],
     local_devices = [''/job:localhost/task:0/device:CPU:0'', ''/job:localhost/task:0/device:CPU:1''],
     device_type = ''CPU''\<rparr>"

definition dst_mesh :: mesh where
  "dst_mesh = \<lparr>num_devices = 2, local_device_ids = [0, 1],
     local_devices = [''/job:localhost/task:1/device:CPU:0'', ''/job:localhost/task:1/device:CPU:1''],
     device_type = ''CPU''\<rparr>"

definition src_layout :: layout where
  "src_layout = \<lparr>layout_mesh = src_mesh, ToString = ''sharding_specs:unsharded, mesh:src''\<rparr>"

definition dst_layout :: layout where
  "dst_layout = \<lparr>layout_mesh = dst_mesh, ToString = ''sharding_specs:unsharded, mesh:dst''\<rparr>"

definition i32x4 :: tensor_type where
  "i32x4 = RankedTensorType [4] (IntegerType 32)"

definition example_ir :: ir where
  "example_ir =
     [Some ((mk_op ModuleOp [] [] [])\<lparr>body := [1]\<rparr>),
      Some ((mk_op FuncOp [] []
               [(''sym_name'', StringAttr ''main''),
                (''function_type'', FunctionType [RankedTensorType [] (IntegerType 32)] [])])
             \<lparr>parent := Some 0, body := [2]\<rparr>),
      Some ((mk_op ClusterOp [] [] [])\<lparr>parent := Some 1, body := [3, 4, 5, 6]\<rparr>),
      Some ((mk_op (OtherOp ''tf.A'') [] [i32x4] [])\<lparr>parent := Some 2\<rparr>),
      Some ((mk_op DTensorSend [OpResult 3 0] []
               [(''key'', StringAttr ''t1''), (''target_layout'', LayoutAttr dst_layout)])
             \<lparr>parent := Some 2\<rparr>),
      Some ((mk_op DTensorRecv [] [i32x4]
               [(''key'', StringAttr ''t1''), (''layout'', LayoutAttr dst_layout)])
             \<lparr>parent := Some 2\<rparr>),
      Some ((mk_op (OtherOp ''tf.B'') [OpResult 5 0] [] [])\<lparr>parent := Some 2\<rparr>)]"

text \<open>Rewriting the operands of what an operation carries.\<close>

definition map_operands :: "(val \<Rightarrow> val) \<Rightarrow> op_kind \<times> val list \<times> tensor_type list \<times> (string \<times> attr) list \<Rightarrow>
    op_kind \<times> val list \<times> tensor_type list \<times> (string \<times> attr) list" where
  "map_operands f p = (fst p, map f (fst (snd p)), snd (snd p))"

text \<open>
  The operations GetDeviceOrdinal adds to a graph of \<open>n\<close> operations, in the order of their
  creation: the table, the reshape of the device id to one element (with its shape
  constant), the size constant, the slice, the reshape to a scalar (with its shape
  constant) and, for a 64-bit result, the cast.
\<close>

definition ordinal_ops ::
  "nat \<Rightarrow> 32 word list \<Rightarrow> val \<Rightarrow> bool \<Rightarrow>
   (op_kind \<times> val list \<times> tensor_type list \<times> (string \<times> attr) list) option list" where
  "ordinal_ops n tbl device_id return_int64_type =
     [Some (ConstOp, [], [RankedTensorType [length tbl] (IntegerType 32)], [(''value'', DenseIntAttr tbl)]),
      Some (ConstOp, [], [RankedTensorType [1] (IntegerType 32)], [(''value'', DenseIntAttr [1])]),
      Some (ReshapeOp, [device_id, OpResult (n + 1) 0], [RankedTensorType [1] (IntegerType 32)], []),
      Some (ConstOp, [], [RankedTensorType [1] (IntegerType 32)], [(''value'', DenseIntAttr [1])]),
      Some (SliceOp, [OpResult n 0, OpResult (n + 2) 0, OpResult (n + 3) 0],
            [RankedTensorType [1] (IntegerType 32)], []),
      Some (ConstOp, [], [RankedTensorType [0] (IntegerType 32)], [(''value'', DenseIntAttr [])]),
      Some (ReshapeOp, [OpResult (n + 4) 0, OpResult (n + 5) 0], [RankedTensorType [] (IntegerType 32)], [])]
     @ (if return_int64_type
        then [Some (CastOp, [OpResult (n + 6) 0], [RankedTensorType [] (IntegerType 64)], [])]
        else [])"

text \<open>Collaborators for the small program: the device id is the first argument of the function.\<close>

definition example_ext :: externals where
  "example_ext =
     \<lparr>DeviceId = (\<lambda>f. if f = Some 1 then Inr (BlockArgument 1 0)
                      else Inl (InvalidArgument ''Function must be passed in device id as first argument.'')),
      ExtractDeviceMeshFromOp = (\<lambda>c. Inr (if c = Some 2 then Some src_mesh else None)),
      LocalTypeFromGlobalType = (\<lambda>l t. Inr t),
      OpName = (\<lambda>i. ''tf.DTensorSend''),
      OpHash = (\<lambda>i. 77),
      kCustomDeviceAttr = ''tf._custom_device'',
      IntScalarConstType = RankedTensorType [] (IntegerType 64)\<rparr>"

text \<open>An accelerator mesh, and the small program with its Recv placed on that mesh.\<close>

definition tpu_mesh :: mesh where
  "tpu_mesh = \<lparr>num_devices = 2, local_device_ids = [0, 1],
     local_devices = [''/job:localhost/task:0/device:TPU:0'', ''/job:localhost/task:0/device:TPU:1''],
     device_type = ''TPU''\<rparr>"

definition tpu_layout :: layout where
  "tpu_layout = \<lparr>layout_mesh = tpu_mesh, ToString = ''sharding_specs:unsharded, mesh:tpu''\<rparr>"

definition example_tpu_ir :: ir where
  "example_tpu_ir =
     example_ir[5 := Some ((mk_op DTensorRecv [] [i32x4]
                              [(''key'', StringAttr ''t1''), (''layout'', LayoutAttr tpu_layout)])
                            \<lparr>parent := Some 2\<rparr>)]"

section \<open>What the emitted ordinal computation evaluates to\<close>

text \<open>
  Modelled from the spec: the run-time meaning of the operations the ordinal resolver
  emits (a constant table, a reshape, a slice of given begin and size, a widening cast),
  on tensors of 32-bit and 64-bit integers. A slice outside its input fails at run time.
\<close>

datatype tensor = Tensor32 "nat list" "32 word list" | Tensor64 "nat list" "64 word list"

fun reshape :: "tensor \<Rightarrow> nat list \<Rightarrow> tensor option" where
  "reshape (Tensor32 sh ws) sh' = (if prod_list sh' = length ws then Some (Tensor32 sh' ws) else None)"
| "reshape (Tensor64 sh ws) sh' = (if prod_list sh' = length ws then Some (Tensor64 sh' ws) else None)"

definition is_pure :: "op_kind \<Rightarrow> bool" where
  "is_pure k = (k = ConstOp \<or> k = ReshapeOp \<or> k = SliceOp \<or> k = CastOp)"

definition eval_const :: "tensor_type list \<Rightarrow> (string \<times> attr) list \<Rightarrow> tensor option" where
  "eval_const ts as =
     (case (ts, map_of as ''value'') of
        ([RankedTensorType sh (IntegerType w)], Some (DenseIntAttr ws)) \<Rightarrow>
          if w = 32 then reshape (Tensor32 [length ws] ws) sh else None
      | _ \<Rightarrow> None)"

definition eval_reshape :: "tensor option list \<Rightarrow> tensor option" where
  "eval_reshape xs =
     (case xs of
        [Some x, Some (Tensor32 [r] dims)] \<Rightarrow>
          if list_all (\<lambda>d. 0 \<le> sint d) dims then reshape x (map (\<lambda>d. nat (sint d)) dims) else None
      | _ \<Rightarrow> None)"

definition eval_slice :: "tensor option list \<Rightarrow> tensor option" where
  "eval_slice xs =
     (case xs of
        [Some (Tensor32 [len] ws), Some (Tensor32 [r] [b]), Some (Tensor32 [r'] [k])] \<Rightarrow>
          if 0 \<le> sint b \<and> 0 \<le> sint k \<and> nat (sint b) + nat (sint k) \<le> length ws
          then Some (Tensor32 [nat (sint k)] (take (nat (sint k)) (drop (nat (sint b)) ws)))
          else None
      | _ \<Rightarrow> None)"

definition eval_cast :: "tensor option list \<Rightarrow> tensor_type list \<Rightarrow> tensor option" where
  "eval_cast xs ts =
     (case (xs, ts) of
        ([Some (Tensor32 sh ws)], [RankedTensorType sh' (IntegerType w)]) \<Rightarrow>
          if w = 64 then Some (Tensor64 sh (map scast ws)) else None
      | _ \<Rightarrow> None)"

definition eval_op ::
  "op_kind \<Rightarrow> tensor option list \<Rightarrow> tensor_type list \<Rightarrow> (string \<times> attr) list \<Rightarrow> tensor option" where
  "eval_op k xs ts as =
     (if k = ConstOp then eval_const ts as
      else if k = ReshapeOp then eval_reshape xs
      else if k = SliceOp then eval_slice xs
      else if k = CastOp then eval_cast xs ts
      else None)"

text \<open>
  The value of an SSA value at run time. \<open>rt\<close> gives the values that come from outside the
  emitted computation (the arguments of the function, among them the device id). The
  descent through the operands is bounded by the number of operations.
\<close>

primrec eval_val :: "nat \<Rightarrow> ir \<Rightarrow> (val \<Rightarrow> tensor option) \<Rightarrow> val \<Rightarrow> tensor option" where
  "eval_val 0 s rt v = None"
| "eval_val (Suc n) s rt v =
     (case getDefiningOp v of
        None \<Rightarrow> rt v
      | Some i \<Rightarrow>
          (case get_op s i of
             None \<Rightarrow> None
           | Some opn \<Rightarrow>
               if is_pure (kind opn)
               then eval_op (kind opn) (map (eval_val n s rt) (operands opn)) (result_types opn) (attrs opn)
               else rt v))"

definition eval :: "ir \<Rightarrow> (val \<Rightarrow> tensor option) \<Rightarrow> val \<Rightarrow> tensor option" where
  "eval s rt v = eval_val (length s) s rt v"

fun scalar_value :: "tensor \<Rightarrow> int option" where
  "scalar_value (Tensor32 [] [x]) = Some (sint x)"
| "scalar_value (Tensor64 [] [x]) = Some (sint x)"
| "scalar_value t = None"

fun is_int64 :: "tensor \<Rightarrow> bool" where
  "is_int64 (Tensor64 sh ws) = True"
| "is_int64 (Tensor32 sh ws) = False"

text \<open>At run time of the small program, the device id (the function's first argument) is 1.\<close>

definition example_rt :: "val \<Rightarrow> tensor option" where
  "example_rt v = (if v = BlockArgument 1 0 then Some (Tensor32 [] [1]) else None)"

text \<open>
  \<open>keeps n s s'\<close>: the first \<open>n\<close> operations of \<open>s\<close> are, in \<open>s'\<close>, what and where they were:
  each carries what it carried and has the parent it had, none is erased, and a block that
  held operations still holds some.
\<close>

definition same_node :: "operation option \<Rightarrow> operation option \<Rightarrow> bool" where
  "same_node x y =
     (case x of
        None \<Rightarrow> y = None
      | Some a \<Rightarrow>
          (case y of
             None \<Rightarrow> False
           | Some b \<Rightarrow> payload b = payload a \<and> parent b = parent a \<and> (body a \<noteq> [] \<longrightarrow> body b \<noteq> [])))"

definition keeps :: "nat \<Rightarrow> ir \<Rightarrow> ir \<Rightarrow> bool" where
  "keeps n s s' = (n \<le> length s \<and> length s \<le> length s' \<and> (\<forall>i<n. same_node (s ! i) (s' ! i)))"

text \<open>
  A node: what an operation carries and the operation that holds it. \<open>nodes\<close> lists them for
  the whole graph.
\<close>

type_synonym node = "(op_kind \<times> val list \<times> tensor_type list \<times> (string \<times> attr) list) \<times> op_id option"

definition node_of :: "operation \<Rightarrow> node" where
  "node_of opn = (payload opn, parent opn)"

definition nodes :: "ir \<Rightarrow> node option list" where
  "nodes s = map (map_option node_of) s"

definition node_kind :: "node option \<Rightarrow> op_kind option" where
  "node_kind x = map_option (\<lambda>n. fst (fst n)) x"

definition node_attr :: "node option \<Rightarrow> string \<Rightarrow> attr option" where
  "node_attr x k = (case x of None \<Rightarrow> None | Some n \<Rightarrow> map_of (snd (snd (snd (fst n)))) k)"

definition node_result_types :: "node option \<Rightarrow> tensor_type list" where
  "node_result_types x = (case x of None \<Rightarrow> [] | Some n \<Rightarrow> fst (snd (snd (fst n))))"

definition node_parent :: "node option \<Rightarrow> op_id option" where
  "node_parent x = (case x of None \<Rightarrow> None | Some n \<Rightarrow> snd n)"

text \<open>The subprograms among a list of nodes: the functions, and the names they go by.\<close>

definition is_func_node :: "node option \<Rightarrow> bool" where
  "is_func_node x = (node_kind x = Some FuncOp)"

definition subprograms :: "node option list \<Rightarrow> node option list" where
  "subprograms xs = filter is_func_node xs"

definition subprogram_names :: "node option list \<Rightarrow> attr option list" where
  "subprogram_names xs = map (\<lambda>x. node_attr x ''sym_name'') (subprograms xs)"

definition is_private_in :: "op_id \<Rightarrow> node option \<Rightarrow> bool" where
  "is_private_in m x =
     (node_attr x ''sym_visibility'' = Some (StringAttr ''private'') \<and> node_parent x = Some m)"

text \<open>What the branch of a send and the branch of a receive may add to a subprogram.\<close>

definition send_branch_node :: "string \<Rightarrow> node option \<Rightarrow> bool" where
  "send_branch_node tensor_name x =
     (node_kind x = Some CastOp \<or>
      (node_kind x = Some HostSendOp \<and> node_attr x ''tensor_name'' = Some (StringAttr tensor_name)))"

definition recv_branch_node :: "tensor_type \<Rightarrow> string \<Rightarrow> node option \<Rightarrow> bool" where
  "recv_branch_node ty tensor_name x =
     (node_kind x = Some HostRecvOp \<and> node_result_types x = [ty] \<and>
      node_attr x ''tensor_name'' = Some (StringAttr tensor_name))"

text \<open>Where an operation stands: the operation that holds it, and the block it holds.\<close>

definition parent_of :: "ir \<Rightarrow> op_id \<Rightarrow> op_id option" where
  "parent_of s i = (case get_op s i of None \<Rightarrow> None | Some opn \<Rightarrow> parent opn)"

definition body_of :: "ir \<Rightarrow> op_id \<Rightarrow> op_id list" where
  "body_of s i = (case get_op s i of None \<Rightarrow> [] | Some opn \<Rightarrow> body opn)"

text \<open>The operations of a list inserted one after the other at the same insertion point.\<close>

definition insert_all_before :: "op_id option \<Rightarrow> op_id list \<Rightarrow> op_id list \<Rightarrow> op_id list" where
  "insert_all_before y new xs = foldl (\<lambda>b i. insert_before y i b) xs new"



text \<open>The end of the process, as opposed to a status returned to the caller.\<close>

fun is_abort :: "error \<Rightarrow> bool" where
  "is_abort (Abort m) = True"
| "is_abort (Status c m) = False"


section \<open>Properties\<close>

subsection \<open>Contents of the graph under creation and erasure\<close>

lemma length_contents [simp]: "length (contents s) = length s"
  by (simp add: contents_def)

lemma contents_update_op:
  "(\<And>p. payload (f p) = payload p) \<Longrightarrow> contents (update_op b f s) = contents s"
  by (auto simp: contents_def update_op_def map_update option.map_comp comp_def list_eq_iff_nth_eq nth_list_update
      split: option.splits)

lemma payload_parent [simp]: "payload (opn\<lparr>parent := p\<rparr>) = payload opn"
  and payload_body [simp]: "payload (opn\<lparr>body := b\<rparr>) = payload opn"
  and payload_arg_attrs [simp]: "payload (opn\<lparr>arg_attrs := a\<rparr>) = payload opn"
  by (simp_all add: payload_def)

lemma contents_create:
  "create s b opn = (i, s') \<Longrightarrow> i = length s \<and> contents s' = contents s @ [Some (payload opn)]"
  by (auto simp: create_def Let_def contents_update_op split: option.splits) (simp_all add: contents_def)

lemma length_update_op [simp]: "length (update_op b f s) = length s"
  by (simp add: update_op_def)

lemma length_erase [simp]: "length (erase i s) = length s"
  by (simp add: erase_def Let_def split: option.splits)

lemma length_create: "create s b opn = (i, s') \<Longrightarrow> length s' = Suc (length s)"
  by (auto simp: create_def Let_def split: option.splits)

lemma contents_erase: "contents (erase i s) = (contents s)[i := None]"
proof (cases "get_op s i")
  case None
  then have "(contents s)[i := None] = contents s"
    by (auto simp: contents_def get_op_def list_eq_iff_nth_eq nth_list_update split: if_splits)
  with None show ?thesis by (simp add: erase_def)
next
  case (Some opn)
  then show ?thesis
    by (auto simp: erase_def Let_def contents_update_op split: option.splits)
       (simp_all add: contents_def map_update)
qed

lemma get_op_contents:
  "map_option payload (get_op s i) = (if i < length s then contents s ! i else None)"
  by (auto simp: contents_def get_op_def)

lemma as_DTensorSend_contents:
  "as_DTensorSend s i = Some d \<Longrightarrow> i < length s"
  by (auto simp: as_DTensorSend_def get_op_def split: option.splits if_splits)


lemma as_DTensorRecv_length: "as_DTensorRecv s i = Some d \<Longrightarrow> i < length s"
  by (auto simp: as_DTensorRecv_def get_op_def split: option.splits if_splits)

lemma payload_at_new:
  assumes "create s b opn = (i, s')"
  shows "\<exists>o'. get_op s' i = Some o' \<and> payload o' = payload opn"
proof -
  from contents_create[OF assms] length_create[OF assms] get_op_contents[of s' i]
  show ?thesis by (auto simp: nth_append)
qed

lemma payload_erase_other:
  "i \<noteq> j \<Longrightarrow> map_option payload (get_op (erase j s) i) = map_option payload (get_op s i)"
  by (simp add: get_op_contents contents_erase)

lemma LowerDTensorSendToTFOp_emits:
  assumes "LowerDTensorSendToTFOp send_input_layout input dtensor_send s = Inr (send_op, s')"
  shows "\<exists>d sd sds rd rds opn.
           as_DTensorSend s dtensor_send = Some d \<and>
           local_devices (layout_mesh send_input_layout) = sd # sds \<and>
           local_devices (layout_mesh (target_layout d)) = rd # rds \<and>
           get_op s' send_op = Some opn \<and>
           payload opn = payload (HostSend input (send_key d) sd 0 rd False) \<and>
           send_op = length s \<and> get_op s' dtensor_send = None"
proof -
  from assms obtain d df sd sds rd rds s1 where
    d: "as_DTensorSend s dtensor_send = Some d" and
    sd: "local_devices (layout_mesh send_input_layout) = sd # sds" and
    rd: "local_devices (layout_mesh (target_layout d)) = rd # rds" and
    c: "create s (setInsertionPointAfter s df) (HostSend input (send_key d) sd 0 rd False) = (send_op, s1)" and
    s': "s' = erase dtensor_send s1"
    by (auto simp: LowerDTensorSendToTFOp_def Let_def split: option.splits list.splits prod.splits)
  from contents_create[OF c] as_DTensorSend_contents[OF d] have ne: "send_op \<noteq> dtensor_send" "send_op = length s"
    by auto
  from payload_at_new[OF c] payload_erase_other[OF ne(1), of s1]
  obtain opn where "get_op s' send_op = Some opn" "payload opn = payload (HostSend input (send_key d) sd 0 rd False)"
    by (auto simp: s')
  moreover have "get_op s' dtensor_send = None"
    using get_op_contents[of s' dtensor_send] by (auto simp: s' contents_erase split: if_splits)
  ultimately show ?thesis using d sd rd ne by auto
qed

lemma LowerDTensorRecvToTFOp_emits:
  assumes "LowerDTensorRecvToTFOp send_mesh dtensor_recv output_type s = Inr (recv_op, s')"
  shows "\<exists>d sd sds rd rds opn.
           as_DTensorRecv s dtensor_recv = Some d \<and>
           local_devices send_mesh = sd # sds \<and>
           local_devices (layout_mesh (recv_layout d)) = rd # rds \<and>
           get_op s' recv_op = Some opn \<and>
           payload opn = payload (HostRecv output_type (recv_key d) sd 0 rd False) \<and>
           recv_op = length s \<and> contents s' = contents s @ [Some (payload opn)]"
proof -
  from assms obtain d sd sds rd rds where
    d: "as_DTensorRecv s dtensor_recv = Some d" and
    sd: "local_devices send_mesh = sd # sds" and
    rd: "local_devices (layout_mesh (recv_layout d)) = rd # rds" and
    c: "create s (OpBuilder s dtensor_recv) (HostRecv output_type (recv_key d) sd 0 rd False) = (recv_op, s')"
    by (auto simp: LowerDTensorRecvToTFOp_def Let_def split: option.splits list.splits prod.splits sum.splits)
  from payload_at_new[OF c] contents_create[OF c] d sd rd show ?thesis by auto
qed

lemmas example_defs = example_ir_def get_op_def mk_op_def getAttr_def
    dst_layout_def src_layout_def dst_mesh_def src_mesh_def i32x4_def

subsection \<open>Fan-out\<close>

lemma contents_replaceAllUsesWithOp:
  "contents (replaceAllUsesWithOp old new s) =
     map (map_option (map_operands (replace_op_val old new))) (contents s)"
  by (simp add: contents_def replaceAllUsesWithOp_def option.map_comp comp_def payload_def map_operands_def)

lemma contents_replaceAllUsesWith:
  "contents (replaceAllUsesWith old new s) =
     map (map_option (map_operands (replace_val old new))) (contents s)"
  by (simp add: contents_def replaceAllUsesWith_def option.map_comp comp_def payload_def map_operands_def)

lemma send_loop_contents:
  "send_loop b x k sds rds l s = Inr (l', s') \<Longrightarrow>
     contents s' = contents s @ map (\<lambda>rd. Some (payload (HostSend x k (hd sds) 0 rd False))) rds \<and>
     l' = (if rds = [] then l else Some (length s + length rds - 1)) \<and> (rds \<noteq> [] \<longrightarrow> sds \<noteq> [])"
proof (induction rds arbitrary: l s)
  case Nil
  then show ?case by simp
next
  case (Cons rd rds)
  from Cons.prems obtain sd sds' i s1 where sds: "sds = sd # sds'"
    and c: "create s b (HostSend x k sd 0 rd False) = (i, s1)"
    and r: "send_loop b x k sds rds (Some i) s1 = Inr (l', s')"
    by (auto split: list.splits prod.splits)
  from contents_create[OF c] length_create[OF c] Cons.IH[OF r] sds show ?case
    by auto
qed

lemma recv_loop_contents:
  "recv_loop b ty k sds rds l s = Inr (l', s') \<Longrightarrow>
     contents s' = contents s @ map (\<lambda>rd. Some (payload (HostRecv ty k (hd sds) 0 rd False))) rds \<and>
     l' = (if rds = [] then l else Some (length s + length rds - 1)) \<and> (rds \<noteq> [] \<longrightarrow> sds \<noteq> [])"
proof (induction rds arbitrary: l s)
  case Nil
  then show ?case by simp
next
  case (Cons rd rds)
  from Cons.prems obtain sd sds' i s1 where sds: "sds = sd # sds'"
    and c: "create s b (HostRecv ty k sd 0 rd False) = (i, s1)"
    and r: "recv_loop b ty k sds rds (Some i) s1 = Inr (l', s')"
    by (auto split: list.splits prod.splits)
  from contents_create[OF c] length_create[OF c] Cons.IH[OF r] sds show ?case
    by auto
qed

lemma LowerDTensorSendFromCPUToTFOp_contents:
  assumes "LowerDTensorSendFromCPUToTFOp send_layout input dtensor_send s = Inr (send_op, s')"
  shows "\<exists>d. as_DTensorSend s dtensor_send = Some d \<and>
           local_devices (layout_mesh (target_layout d)) \<noteq> [] \<and>
           local_devices (layout_mesh send_layout) \<noteq> [] \<and>
           contents s' =
             (contents s @
              map (\<lambda>rd. Some (payload (HostSend (send_input d) (send_key d)
                                          (hd (local_devices (layout_mesh send_layout))) 0 rd False)))
                (local_devices (layout_mesh (target_layout d))))[dtensor_send := None] \<and>
           send_op = length s + length (local_devices (layout_mesh (target_layout d))) - 1"
proof -
  from assms obtain d df s1 where
    d: "as_DTensorSend s dtensor_send = Some d" and
    l: "send_loop (setInsertionPointAfter s df) (send_input d) (send_key d)
          (local_devices (layout_mesh send_layout))
          (local_devices (layout_mesh (target_layout d))) None s = Inr (Some send_op, s1)" and
    s': "s' = erase dtensor_send s1"
    by (auto simp: LowerDTensorSendFromCPUToTFOp_def Let_def split: option.splits sum.splits prod.splits)
  from send_loop_contents[OF l] d s' show ?thesis
    by (auto simp: contents_erase split: if_splits)
qed

lemma LowerDTensorRecvFromCPUToTFOp_contents:
  assumes "LowerDTensorRecvFromCPUToTFOp send_mesh dtensor_recv s = Inr (recv_op, s')"
  shows "\<exists>d. as_DTensorRecv s dtensor_recv = Some d \<and>
           local_devices (layout_mesh (recv_layout d)) \<noteq> [] \<and>
           local_devices send_mesh \<noteq> [] \<and>
           contents s' =
             (map (map_option (map_operands (replace_op_val dtensor_recv recv_op)))
               (contents s @
                map (\<lambda>rd. Some (payload (HostRecv (recv_type d) (recv_key d)
                                          (hd (local_devices send_mesh)) 0 rd False)))
                (local_devices (layout_mesh (recv_layout d)))))[dtensor_recv := None] \<and>
           recv_op = length s + length (local_devices (layout_mesh (recv_layout d))) - 1"
proof -
  from assms obtain d s1 where
    d: "as_DTensorRecv s dtensor_recv = Some d" and
    l: "recv_loop (OpBuilder s dtensor_recv) (recv_type d) (recv_key d)
          (local_devices send_mesh)
          (local_devices (layout_mesh (recv_layout d))) None s = Inr (Some recv_op, s1)" and
    s': "s' = erase dtensor_recv (replaceAllUsesWithOp dtensor_recv recv_op s1)"
    by (auto simp: LowerDTensorRecvFromCPUToTFOp_def Let_def split: option.splits sum.splits prod.splits)
  from recv_loop_contents[OF l] d s' show ?thesis
    by (auto simp: contents_erase contents_replaceAllUsesWithOp split: if_splits)
qed

lemma map_operands_HostRecv [simp]:
  "map_operands f (payload (HostRecv ty k sd n rd c)) = payload (HostRecv ty k sd n rd c)"
  by (simp add: map_operands_def payload_def HostRecv_def mk_op_def)

subsection \<open>What the ordinal resolver and the compilation-key provider add\<close>

lemma IntConst_contents:
  "IntConst s b vs = (v, s') \<Longrightarrow>
     v = OpResult (length s) 0 \<and> length s' = Suc (length s) \<and>
     contents s' = contents s @
       [Some (ConstOp, [], [RankedTensorType [length vs] (IntegerType 32)], [(''value'', DenseIntAttr vs)])]"
  by (auto simp: IntConst_def Let_def payload_def mk_op_def split: prod.splits
      dest: contents_create length_create)

lemma GetDeviceOrdinal_contents:
  assumes "GetDeviceOrdinal ext m fn b r64 s = Inr (v, s')"
  shows "\<exists>tbl dv.
           device_id_to_ordinal m = Inr tbl \<and> DeviceId ext fn = Inr dv \<and>
           contents s' = contents s @ ordinal_ops (length s) tbl dv r64 \<and>
           v = OpResult (length s + (if r64 then 7 else 6)) 0"
proof -
  from assms obtain tbl dv where t: "device_id_to_ordinal m = Inr tbl" and dv: "DeviceId ext fn = Inr dv"
    by (auto simp: GetDeviceOrdinal_def split: sum.splits)
  obtain v0 s0 where a0: "IntConst s b tbl = (v0, s0)" by fastforce
  obtain v1 s1 where a1: "IntConst s0 b [1] = (v1, s1)" by fastforce
  obtain i2 s2 where a2: "create s1 b (mk_op ReshapeOp [dv, v1] [RankedTensorType [1] (IntegerType 32)] []) = (i2, s2)"
    by fastforce
  obtain v3 s3 where a3: "IntConst s2 b [1] = (v3, s3)" by fastforce
  obtain i4 s4 where a4: "create s3 b (mk_op SliceOp [v0, OpResult i2 0, v3] [EffectivelyScalarR1Type (IntegerType 32)] []) = (i4, s4)"
    by fastforce
  obtain v5 s5 where a5: "IntConst s4 b [] = (v5, s5)" by fastforce
  obtain i6 s6 where a6: "create s5 b (mk_op ReshapeOp [OpResult i4 0, v5] [RankedTensorType [] (IntegerType 32)] []) = (i6, s6)"
    by fastforce
  obtain i7 s7 where a7: "create s6 b (mk_op CastOp [OpResult i6 0] [RankedTensorType [] (IntegerType 64)] []) = (i7, s7)"
    by fastforce
  note c = IntConst_contents[OF a0] IntConst_contents[OF a1] contents_create[OF a2] length_create[OF a2]
    IntConst_contents[OF a3] contents_create[OF a4] length_create[OF a4]
    IntConst_contents[OF a5] contents_create[OF a6] length_create[OF a6]
    contents_create[OF a7] length_create[OF a7]
  show ?thesis
  proof (cases r64)
    case True
    with assms t dv a0 a1 a2 a3 a4 a5 a6 a7 have r: "v = OpResult i7 0" "s' = s7"
      by (simp_all add: GetDeviceOrdinal_def ReshapeScalarToSizeType_def ReshapeSizeTypeToScalar_def Let_def)
    with True c t dv show ?thesis
      by (simp add: ordinal_ops_def payload_def mk_op_def EffectivelyScalarR1Type_def)
  next
    case False
    with assms t dv a0 a1 a2 a3 a4 a5 a6 have r: "v = OpResult i6 0" "s' = s6"
      by (simp_all add: GetDeviceOrdinal_def ReshapeScalarToSizeType_def ReshapeSizeTypeToScalar_def Let_def)
    with False c t dv show ?thesis
      by (simp add: ordinal_ops_def payload_def mk_op_def EffectivelyScalarR1Type_def)
  qed
qed

lemma length_ordinal_ops [simp]: "length (ordinal_ops n tbl dv r64) = (if r64 then 8 else 7)"
  by (simp add: ordinal_ops_def)

lemma GetOrCreateCompilationKey_contents:
  assumes "GetOrCreateCompilationKey opr s = Inr (k, s')"
  shows "(s' = s \<and> (\<exists>p. k = OpResult p 0 \<and> has_kind s PlaceholderProgramKeyOp p)) \<or>
         (contents s' = contents s @ [Some (payload PlaceholderProgramKey)] \<and> k = OpResult (length s) 0)"
proof -
  from assms obtain cluster where c: "getParentOfType s ClusterOp opr = Some cluster"
    by (auto simp: GetOrCreateCompilationKey_def split: option.splits)
  show ?thesis
  proof (cases "filter (has_kind s PlaceholderProgramKeyOp) (walk s cluster)")
    case Nil
    with assms c obtain b i where "atBlockFront s cluster = Inr b" "create s b PlaceholderProgramKey = (i, s')"
      "k = OpResult i 0"
      by (auto simp: GetOrCreateCompilationKey_def Let_def split: sum.splits prod.splits)
    with contents_create[of s b PlaceholderProgramKey i s'] show ?thesis by simp
  next
    case (Cons x xs)
    with assms c have s: "s' = s" "k = OpResult (last (x # xs)) 0"
      by (auto simp: GetOrCreateCompilationKey_def)
    have "last (x # xs) \<in> set (filter (has_kind s PlaceholderProgramKeyOp) (walk s cluster))"
      unfolding Cons by (rule last_in_set) simp
    then have "has_kind s PlaceholderProgramKeyOp (last (x # xs))" by simp
    with s show ?thesis by blast
  qed
qed

lemma get_op_erase_same [simp]: "get_op (erase i s) i = None"
  using get_op_contents[of "erase i s" i] by (auto simp: contents_erase split: if_splits)

lemma GetDeviceOrdinal_prefix:
  "GetDeviceOrdinal ext m fn b r64 s = Inr (v, s') \<Longrightarrow> take (length s) (contents s') = contents s"
  by (auto dest!: GetDeviceOrdinal_contents)

lemma GetOrCreateCompilationKey_prefix:
  assumes "GetOrCreateCompilationKey opr s = Inr (k, s')"
  shows "take (length s) (contents s') = contents s \<and> length s \<le> length s'"
proof -
  from GetOrCreateCompilationKey_contents[OF assms]
  consider "s' = s" | "contents s' = contents s @ [Some (payload PlaceholderProgramKey)]" by blast
  then show ?thesis
  proof cases
    case 1
    then show ?thesis by simp
  next
    case 2
    from arg_cong[OF 2, of length] have "length s' = Suc (length s)" by simp
    with 2 show ?thesis by simp
  qed
qed

lemma prefix_trans:
  assumes "take (length s) (contents s1) = contents s" "length s \<le> length s1"
    "take (length s1) (contents s2) = contents s1"
  shows "take (length s) (contents s2) = contents s"
proof -
  have "take (length s) (take (length s1) (contents s2)) = contents s"
    using assms(1,3) by simp
  with assms(2) show ?thesis by (simp add: min_def)
qed

subsection \<open>Erasure and rewiring in the single-target lowerings\<close>

lemma GetDeviceOrdinal_length:
  assumes "GetDeviceOrdinal ext m fn b r64 s = Inr (v, s')"
  shows "length s' = length s + (if r64 then 8 else 7)"
proof -
  from GetDeviceOrdinal_contents[OF assms] obtain tbl dv where
    "contents s' = contents s @ ordinal_ops (length s) tbl dv r64" by blast
  from arg_cong[OF this, of length] show ?thesis by simp
qed

lemma LowerDTensorSendToXlaOp_erases:
  "LowerDTensorSendToXlaOp ext l x d z s = Inr (r, s') \<Longrightarrow> get_op s' d = None"
  by (auto simp: LowerDTensorSendToXlaOp_def Let_def split: option.splits sum.splits prod.splits if_splits)

lemma LowerDTensorRecvToXlaOp_keeps:
  assumes "LowerDTensorRecvToXlaOp ext d ty s = Inr (r, s')"
  shows "take (length s) (contents s') = contents s"
proof -
  from assms obtain rv where rv: "as_DTensorRecv s d = Some rv"
    by (auto simp: LowerDTensorRecvToXlaOp_def split: option.splits)
  show ?thesis
  proof (cases "is_cpu_mesh (layout_mesh (recv_layout rv))")
    case False
    with assms rv have "create s (OpBuilder s d) (XlaRecvFromHost ty (getShape (recv_type rv)) (recv_key rv)) = (r, s')"
      by (simp add: LowerDTensorRecvToXlaOp_def Let_def)
    from contents_create[OF this] show ?thesis by simp
  next
    case True
    with assms rv obtain m c b2 dv s1 pk s2 where
      g: "GetDeviceOrdinal ext m (getParentOfType s FuncOp c) b2 True s = Inr (dv, s1)" and
      k: "GetOrCreateCompilationKey d s1 = Inr (pk, s2)" and
      c: "create s2 (OpBuilder s2 d) (XlaRecvAtHostV2 [ty] pk dv (recv_key rv)) = (r, s')"
      by (auto simp: LowerDTensorRecvToXlaOp_def Let_def split: option.splits sum.splits prod.splits)
    from GetDeviceOrdinal_prefix[OF g] GetDeviceOrdinal_length[OF g]
    have 1: "take (length s) (contents s1) = contents s" "length s \<le> length s1"
      by simp_all
    from GetOrCreateCompilationKey_prefix[OF k] have 2: "take (length s1) (contents s2) = contents s1" "length s1 \<le> length s2"
      by simp_all
    from contents_create[OF c] have 3: "take (length s2) (contents s') = contents s2" by simp
    from prefix_trans[OF prefix_trans[OF 1 2(1)] _ 3] 1 2 show ?thesis by simp
  qed
qed

lemma LowerDTensorRecvFromCPUToTFOp_erases:
  "LowerDTensorRecvFromCPUToTFOp m d s = Inr (r, s') \<Longrightarrow> get_op s' d = None"
  by (auto simp: LowerDTensorRecvFromCPUToTFOp_def Let_def split: option.splits sum.splits prod.splits)

lemma LowerDTensorSendFromCPUToTFOp_erases:
  "LowerDTensorSendFromCPUToTFOp l x d s = Inr (r, s') \<Longrightarrow> get_op s' d = None"
  by (auto simp: LowerDTensorSendFromCPUToTFOp_def Let_def split: option.splits sum.splits prod.splits)

subsection \<open>The table of ordinals\<close>

lemma fill_ordinals_other:
  "fill_ordinals ids i tbl = Inr tbl' \<Longrightarrow> 0 \<le> d \<Longrightarrow> d \<notin> set ids \<Longrightarrow>
     length tbl' = length tbl \<and> tbl' ! nat d = tbl ! nat d"
proof (induction ids arbitrary: i tbl)
  case Nil
  then show ?case by simp
next
  case (Cons x xs)
  from Cons.prems(1) have x: "0 \<le> x" "nat x < length tbl"
    and r: "fill_ordinals xs (Suc i) (tbl[nat x := of_nat i]) = Inr tbl'"
    by (auto split: if_splits)
  from Cons.prems have "nat x \<noteq> nat d" "d \<notin> set xs" using x by auto
  with Cons.IH[OF r Cons.prems(2)] show ?case by simp
qed

lemma fill_ordinals_total:
  "\<forall>d\<in>set ids. 0 \<le> d \<and> nat d < length tbl \<Longrightarrow> \<exists>tbl'. fill_ordinals ids i tbl = Inr tbl'"
  by (induction ids arbitrary: i tbl) auto

lemma fill_ordinals_member:
  "fill_ordinals ids i tbl = Inr tbl' \<Longrightarrow> d \<in> set ids \<Longrightarrow>
     \<exists>p. p < length ids \<and> ids ! p = d \<and> (\<forall>j. p < j \<and> j < length ids \<longrightarrow> ids ! j \<noteq> d) \<and>
         nat d < length tbl' \<and> tbl' ! nat d = of_nat (i + p)"
proof (induction ids arbitrary: i tbl)
  case Nil
  then show ?case by simp
next
  case (Cons x xs)
  from Cons.prems(1) have x: "0 \<le> x" "nat x < length tbl"
    and r: "fill_ordinals xs (Suc i) (tbl[nat x := of_nat i]) = Inr tbl'"
    by (auto split: if_splits)
  show ?case
  proof (cases "d \<in> set xs")
    case True
    from Cons.IH[OF r True] obtain p where p: "p < length xs" "xs ! p = d"
      "\<forall>j. p < j \<and> j < length xs \<longrightarrow> xs ! j \<noteq> d" "nat d < length tbl'" "tbl' ! nat d = of_nat (Suc i + p)"
      by blast
    have "\<forall>j. Suc p < j \<and> j < length (x # xs) \<longrightarrow> (x # xs) ! j \<noteq> d"
    proof (intro allI impI)
      fix j assume j: "Suc p < j \<and> j < length (x # xs)"
      then obtain j' where "j = Suc j'" by (cases j) auto
      with j p(3) show "(x # xs) ! j \<noteq> d" by auto
    qed
    with p show ?thesis by (intro exI[of _ "Suc p"]) simp
  next
    case False
    with Cons.prems(2) have dx: "d = x" by simp
    from fill_ordinals_other[OF r x(1)] False dx x
    have "length tbl' = length tbl" "tbl' ! nat d = of_nat i" by simp_all
    moreover have "\<forall>j. 0 < j \<and> j < length (x # xs) \<longrightarrow> (x # xs) ! j \<noteq> d"
    proof (intro allI impI)
      fix j assume j: "0 < j \<and> j < length (x # xs)"
      then obtain j' where "j = Suc j'" by (cases j) auto
      with j False show "(x # xs) ! j \<noteq> d" by (auto simp: in_set_conv_nth)
    qed
    ultimately show ?thesis using dx x by (intro exI[of _ 0]) simp
  qed
qed

subsection \<open>Evaluating the emitted operations\<close>

lemma get_op_of_contents:
  assumes "contents s ! i = Some (k, xs, ts, as)" "i < length s"
  shows "\<exists>opn. get_op s i = Some opn \<and> kind opn = k \<and> operands opn = xs \<and>
               result_types opn = ts \<and> attrs opn = as"
  using assms get_op_contents[of s i] by (auto simp: payload_def)

lemma eval_val_op:
  assumes "contents s ! i = Some (k, xs, ts, as)" "i < length s" "is_pure k"
  shows "eval_val (Suc n) s rt (OpResult i r) = eval_op k (map (eval_val n s rt) xs) ts as"
  using get_op_of_contents[OF assms(1,2)] assms(3) by auto

lemma eval_val_arg: "eval_val (Suc n) s rt (BlockArgument f a) = rt (BlockArgument f a)"
  by simp

lemma sint_word_of_nat_32:
  "p < 2 ^ 31 \<Longrightarrow> sint (of_nat p :: 32 word) = int p"
  by (simp add: signed_of_nat signed_take_bit_int_eq_self)

lemma sint_scast_32_64: "sint (scast (x :: 32 word) :: 64 word) = sint x"
  by (rule sint_up_scast) (simp add: is_up)

lemma eval_ordinal_ops:
  assumes c: "contents s' = contents s @ ordinal_ops (length s) tbl (BlockArgument f a) r64"
    and rt: "rt (BlockArgument f a) = Some (Tensor32 [] [w])"
    and w: "0 \<le> sint w" "nat (sint w) < length tbl"
  shows "eval s' rt (OpResult (length s + (if r64 then 7 else 6)) 0) =
           Some (if r64 then Tensor64 [] [scast (tbl ! nat (sint w))] else Tensor32 [] [tbl ! nat (sint w)])"
proof -
  let ?N = "length s"
  have len: "length s' = ?N + (if r64 then 8 else 7)"
    using arg_cong[OF c, of length] by simp
  have nth: "\<And>j. j < length (ordinal_ops ?N tbl (BlockArgument f a) r64) \<Longrightarrow>
               contents s' ! (?N + j) = ordinal_ops ?N tbl (BlockArgument f a) r64 ! j"
    by (simp add: c nth_append)
  have c0: "contents s' ! ?N =
      Some (ConstOp, [], [RankedTensorType [length tbl] (IntegerType 32)], [(''value'', DenseIntAttr tbl)])"
    using nth[of 0] by (simp add: ordinal_ops_def)
  have c1: "contents s' ! (?N + 1) =
      Some (ConstOp, [], [RankedTensorType [1] (IntegerType 32)], [(''value'', DenseIntAttr [1])])"
    using nth[of 1] by (simp add: ordinal_ops_def)
  have c2: "contents s' ! (?N + 2) =
      Some (ReshapeOp, [BlockArgument f a, OpResult (?N + 1) 0], [RankedTensorType [1] (IntegerType 32)], [])"
    using nth[of 2] by (simp add: ordinal_ops_def)
  have c3: "contents s' ! (?N + 3) =
      Some (ConstOp, [], [RankedTensorType [1] (IntegerType 32)], [(''value'', DenseIntAttr [1])])"
    using nth[of 3] by (simp add: ordinal_ops_def)
  have c4: "contents s' ! (?N + 4) =
      Some (SliceOp, [OpResult ?N 0, OpResult (?N + 2) 0, OpResult (?N + 3) 0],
            [RankedTensorType [1] (IntegerType 32)], [])"
    using nth[of 4] by (simp add: ordinal_ops_def)
  have c5: "contents s' ! (?N + 5) =
      Some (ConstOp, [], [RankedTensorType [0] (IntegerType 32)], [(''value'', DenseIntAttr [])])"
    using nth[of 5] by (simp add: ordinal_ops_def)
  have c6: "contents s' ! (?N + 6) =
      Some (ReshapeOp, [OpResult (?N + 4) 0, OpResult (?N + 5) 0], [RankedTensorType [] (IntegerType 32)], [])"
    using nth[of 6] by (simp add: ordinal_ops_def)
  have e0: "\<And>n i. i = ?N \<Longrightarrow> eval_val (Suc n) s' rt (OpResult i 0) = Some (Tensor32 [length tbl] tbl)"
    using len by (hypsubst, subst eval_val_op[OF c0]) (simp_all add: is_pure_def eval_op_def eval_const_def del: eval_val.simps)
  have e1: "\<And>n i. i = ?N + 1 \<Longrightarrow> eval_val (Suc n) s' rt (OpResult i 0) = Some (Tensor32 [1] [1])"
    using len by (hypsubst, subst eval_val_op[OF c1]) (simp_all add: is_pure_def eval_op_def eval_const_def del: eval_val.simps)
  have e3: "\<And>n i. i = ?N + 3 \<Longrightarrow> eval_val (Suc n) s' rt (OpResult i 0) = Some (Tensor32 [1] [1])"
    using len by (hypsubst, subst eval_val_op[OF c3]) (simp_all add: is_pure_def eval_op_def eval_const_def del: eval_val.simps)
  have e5: "\<And>n i. i = ?N + 5 \<Longrightarrow> eval_val (Suc n) s' rt (OpResult i 0) = Some (Tensor32 [0] [])"
    using len by (hypsubst, subst eval_val_op[OF c5]) (simp_all add: is_pure_def eval_op_def eval_const_def del: eval_val.simps)
  have e2: "\<And>n i. i = ?N + 2 \<Longrightarrow> eval_val (Suc (Suc n)) s' rt (OpResult i 0) = Some (Tensor32 [1] [w])"
    using len rt
    by (hypsubst, subst eval_val_op[OF c2]) (simp_all add: is_pure_def eval_op_def eval_reshape_def e1 eval_val_arg
          del: eval_val.simps)
  have e4: "\<And>n i. i = ?N + 4 \<Longrightarrow> eval_val (Suc (Suc (Suc n))) s' rt (OpResult i 0) =
              Some (Tensor32 [1] [tbl ! nat (sint w)])"
    using len w
    by (hypsubst, subst eval_val_op[OF c4]) (simp_all add: is_pure_def eval_op_def eval_slice_def e0 e2 e3
          take_Suc_conv_app_nth del: eval_val.simps)
  have e6: "\<And>n i. i = ?N + 6 \<Longrightarrow> eval_val (Suc (Suc (Suc (Suc n)))) s' rt (OpResult i 0) =
              Some (Tensor32 [] [tbl ! nat (sint w)])"
    using len
    by (hypsubst, subst eval_val_op[OF c6]) (simp_all add: is_pure_def eval_op_def eval_reshape_def e4 e5 del: eval_val.simps)
  show ?thesis
  proof (cases r64)
    case False
    with len have "length s' = Suc (Suc (Suc (Suc (?N + 3))))" by simp
    with e6[of "?N + 6" "?N + 3"] False show ?thesis by (simp add: eval_def del: eval_val.simps)
  next
    case True
    have c7: "contents s' ! (?N + 7) =
      Some (CastOp, [OpResult (?N + 6) 0], [RankedTensorType [] (IntegerType 64)], [])"
      using nth[of 7] True by (simp add: ordinal_ops_def)
    have e7: "\<And>n. eval_val (Suc (Suc (Suc (Suc (Suc n))))) s' rt (OpResult (?N + 7) 0) =
              Some (Tensor64 [] [scast (tbl ! nat (sint w))])"
      using len True
      by (subst eval_val_op[OF c7]) (simp_all add: is_pure_def eval_op_def eval_cast_def e6 del: eval_val.simps)
    from len True have "length s' = Suc (Suc (Suc (Suc (Suc (?N + 3)))))" by simp
    with e7[of "?N + 3"] True show ?thesis by (simp add: eval_def del: eval_val.simps)
  qed
qed

lemma fill_ordinals_length:
  "fill_ordinals ids i tbl = Inr tbl' \<Longrightarrow> length tbl' = length tbl"
  by (induction ids arbitrary: i tbl) (auto split: if_splits)


text \<open>
  C1. For a mesh whose local device ids all lie below its device count (and whose local
  list has at most \<open>2^31\<close> entries, so that a position fits the 32-bit table): a failure
  of the function's device-id accessor is the failure of GetDeviceOrdinal, unchanged (an
  invalid-argument status when that is what the accessor reports); otherwise, when the id
  of the running device is in the local list, GetDeviceOrdinal returns a value whose
  run-time meaning is a scalar equal to the position of that id in the list (the last
  one, should the list repeat an id), 64 bits wide exactly when \<open>return_int64_type\<close> is
  set. The first operation it emits is the constant table: as long as the device count,
  zero wherever no local id points.
\<close>

theorem device_ordinal_is_position:
  assumes ids: "\<forall>d\<in>set (local_device_ids m). 0 \<le> d \<and> d < int (num_devices m)"
    and len: "length (local_device_ids m) \<le> 2 ^ 31"
  shows "(\<forall>e. DeviceId ext fn = Inl e \<longrightarrow> GetDeviceOrdinal ext m fn b return_int64_type s = Inl e) \<and>
         (\<forall>f a w.
            DeviceId ext fn = Inr (BlockArgument f a) \<and>
            rt (BlockArgument f a) = Some (Tensor32 [] [w]) \<and>
            sint w \<in> set (local_device_ids m) \<longrightarrow>
            (\<exists>v s' t p tbl.
               GetDeviceOrdinal ext m fn b return_int64_type s = Inr (v, s') \<and>
               eval s' rt v = Some t \<and> scalar_value t = Some (int p) \<and>
               is_int64 t = return_int64_type \<and>
               p < length (local_device_ids m) \<and> local_device_ids m ! p = sint w \<and>
               (\<forall>j. p < j \<and> j < length (local_device_ids m) \<longrightarrow> local_device_ids m ! j \<noteq> sint w) \<and>
               contents s' ! length s =
                 Some (ConstOp, [], [RankedTensorType [length tbl] (IntegerType 32)],
                       [(''value'', DenseIntAttr tbl)]) \<and>
               length tbl = num_devices m \<and>
               (\<forall>d. d < num_devices m \<and> int d \<notin> set (local_device_ids m) \<longrightarrow> tbl ! d = 0)))"
proof (intro conjI allI impI)
  from ids have "\<forall>d\<in>set (local_device_ids m). 0 \<le> d \<and> nat d < length (replicate (num_devices m) (0 :: 32 word))"
    by auto
  from fill_ordinals_total[OF this] obtain tbl where
    tbl: "device_id_to_ordinal m = Inr tbl"
    unfolding device_id_to_ordinal_def by blast
  {
    fix e assume "DeviceId ext fn = Inl e"
    with tbl show "GetDeviceOrdinal ext m fn b return_int64_type s = Inl e"
      by (simp add: GetDeviceOrdinal_def)
  }
  fix f a w
  assume h: "DeviceId ext fn = Inr (BlockArgument f a) \<and>
            rt (BlockArgument f a) = Some (Tensor32 [] [w]) \<and>
            sint w \<in> set (local_device_ids m)"
  from tbl h have "\<exists>v s'. GetDeviceOrdinal ext m fn b return_int64_type s = Inr (v, s')"
    by (auto simp: GetDeviceOrdinal_def Let_def split: prod.splits)
  then obtain v s' where run: "GetDeviceOrdinal ext m fn b return_int64_type s = Inr (v, s')" by blast
  from GetDeviceOrdinal_contents[OF run] tbl h have
    c: "contents s' = contents s @ ordinal_ops (length s) tbl (BlockArgument f a) return_int64_type"
    and v: "v = OpResult (length s + (if return_int64_type then 7 else 6)) 0"
    by auto
  from tbl have fill: "fill_ordinals (local_device_ids m) 0 (replicate (num_devices m) 0) = Inr tbl"
    by (simp add: device_id_to_ordinal_def)
  from fill_ordinals_member[OF fill] h obtain p where
    p: "p < length (local_device_ids m)" "local_device_ids m ! p = sint w"
       "\<forall>j. p < j \<and> j < length (local_device_ids m) \<longrightarrow> local_device_ids m ! j \<noteq> sint w"
       "nat (sint w) < length tbl" "tbl ! nat (sint w) = of_nat p"
    by auto
  from h ids have w0: "0 \<le> sint w" by auto
  from p(1) len have p31: "p < 2 ^ 31" by simp
  let ?t = "if return_int64_type then Tensor64 [] [scast (tbl ! nat (sint w))]
            else Tensor32 [] [tbl ! nat (sint w)]"
  from eval_ordinal_ops[OF c _ w0 p(4)] h v have ev: "eval s' rt v = Some ?t" by simp
  have sv: "scalar_value ?t = Some (int p)" "is_int64 ?t = return_int64_type"
    using p(5) p31 by (simp_all add: sint_word_of_nat_32 sint_scast_32_64)
  have c0: "contents s' ! length s =
                 Some (ConstOp, [], [RankedTensorType [length tbl] (IntegerType 32)],
                       [(''value'', DenseIntAttr tbl)])"
    by (simp add: c nth_append ordinal_ops_def)
  have lt: "length tbl = num_devices m"
    using fill_ordinals_length[OF fill] by simp
  have z: "\<forall>d. d < num_devices m \<and> int d \<notin> set (local_device_ids m) \<longrightarrow> tbl ! d = 0"
  proof (intro allI impI)
    fix d assume d: "d < num_devices m \<and> int d \<notin> set (local_device_ids m)"
    from fill_ordinals_other[OF fill, of "int d"] d show "tbl ! d = 0" by simp
  qed
  show "\<exists>v s' t p tbl.
               GetDeviceOrdinal ext m fn b return_int64_type s = Inr (v, s') \<and>
               eval s' rt v = Some t \<and> scalar_value t = Some (int p) \<and>
               is_int64 t = return_int64_type \<and>
               p < length (local_device_ids m) \<and> local_device_ids m ! p = sint w \<and>
               (\<forall>j. p < j \<and> j < length (local_device_ids m) \<longrightarrow> local_device_ids m ! j \<noteq> sint w) \<and>
               contents s' ! length s =
                 Some (ConstOp, [], [RankedTensorType [length tbl] (IntegerType 32)],
                       [(''value'', DenseIntAttr tbl)]) \<and>
               length tbl = num_devices m \<and>
               (\<forall>d. d < num_devices m \<and> int d \<notin> set (local_device_ids m) \<longrightarrow> tbl ! d = 0)"
    using run ev sv p(1,2,3) c0 lt z by blast
qed

theorem device_ordinal_is_position_witness:
  "GetDeviceOrdinal example_ext src_mesh None (InsertionPoint (Some 2) (Some 4)) True example_ir =
     Inl (InvalidArgument ''Function must be passed in device id as first argument.'') \<and>
   (\<exists>v s' t. GetDeviceOrdinal example_ext src_mesh (Some 1) (InsertionPoint (Some 2) (Some 4)) True example_ir =
       Inr (v, s') \<and>
     eval s' example_rt v = Some t \<and> scalar_value t = Some 1 \<and> is_int64 t)"
proof -
  have ids: "\<forall>d\<in>set (local_device_ids src_mesh). 0 \<le> d \<and> d < int (num_devices src_mesh)"
    and len: "length (local_device_ids src_mesh) \<le> 2 ^ 31"
    by (simp_all add: src_mesh_def)
  have d0: "DeviceId example_ext None =
     Inl (InvalidArgument ''Function must be passed in device id as first argument.'')"
    and d1: "DeviceId example_ext (Some 1) = Inr (BlockArgument 1 0)"
    by (simp_all add: example_ext_def)
  note t0 = device_ordinal_is_position[OF ids len, of example_ext None
      "InsertionPoint (Some 2) (Some 4)" True example_ir example_rt, THEN conjunct1, rule_format, OF d0]
  have h: "DeviceId example_ext (Some 1) = Inr (BlockArgument 1 0) \<and>
           example_rt (BlockArgument 1 0) = Some (Tensor32 [] [1]) \<and>
           sint (1 :: 32 word) \<in> set (local_device_ids src_mesh)"
    using d1 by (simp add: example_rt_def src_mesh_def)
  from device_ordinal_is_position[OF ids len, of example_ext "Some 1"
      "InsertionPoint (Some 2) (Some 4)" True example_ir example_rt, THEN conjunct2, rule_format, OF h]
  obtain v s' t p where
    r: "GetDeviceOrdinal example_ext src_mesh (Some 1) (InsertionPoint (Some 2) (Some 4)) True example_ir =
          Inr (v, s')"
      "eval s' example_rt v = Some t" "scalar_value t = Some (int p)" "is_int64 t = True"
      "p < length (local_device_ids src_mesh)" "local_device_ids src_mesh ! p = sint (1 :: 32 word)"
    by blast
  from r(5,6) have "p = 1" by (cases p) (auto simp: src_mesh_def)
  with r t0 show ?thesis by auto
qed

subsection \<open>Decimal numerals and fresh names\<close>

lemma digit_inj: "a < 10 \<Longrightarrow> b < 10 \<Longrightarrow> digit a = digit b \<Longrightarrow> a = b"
proof -
  assume a: "a < 10" and b: "b < 10" and e: "digit a = digit b"
  from e have "of_char (digit a) = (of_char (digit b) :: nat)" by simp
  with a b show "a = b" by (simp add: digit_def)
qed

lemma dec_nonempty: "dec n \<noteq> []"
  by (subst dec.simps) simp

lemma dec_inj: "dec n = dec m \<Longrightarrow> n = m"
proof (induction n arbitrary: m rule: dec.induct)
  case (1 n)
  show ?case
  proof (cases "n < 10")
    case True
    then have n: "dec n = [digit n]" by (subst dec.simps) simp
    show ?thesis
    proof (cases "m < 10")
      case m: True
      then have "dec m = [digit m]" by (subst dec.simps) simp
      with n "1.prems" True m show ?thesis by (auto dest: digit_inj)
    next
      case False
      then have "dec m = dec (m div 10) @ [digit (m mod 10)]" by (subst dec.simps) simp
      with n "1.prems" dec_nonempty[of "m div 10"] show ?thesis by (cases "dec (m div 10)") auto
    qed
  next
    case False
    then have n: "dec n = dec (n div 10) @ [digit (n mod 10)]" by (subst dec.simps) simp
    show ?thesis
    proof (cases "m < 10")
      case True
      then have "dec m = [digit m]" by (subst dec.simps) simp
      with n "1.prems" dec_nonempty[of "n div 10"] show ?thesis by (cases "dec (n div 10)") auto
    next
      case m: False
      then have "dec m = dec (m div 10) @ [digit (m mod 10)]" by (subst dec.simps) simp
      with n "1.prems" have e: "dec (n div 10) = dec (m div 10)" "digit (n mod 10) = digit (m mod 10)"
        by auto
      from "1.IH"[OF False e(1)] have "n div 10 = m div 10" .
      moreover from e(2) have "n mod 10 = m mod 10" by (auto dest!: digit_inj[rotated 2])
      ultimately show ?thesis by (metis div_mult_mod_eq)
    qed
  qed
qed

lemma generateSymbolName_None:
  "generateSymbolName fuel nm names c = None \<Longrightarrow> \<forall>k<fuel. nm @ ''_'' @ dec (c + k) \<in> set names"
proof (induction fuel arbitrary: c)
  case 0
  then show ?case by simp
next
  case (Suc fuel)
  from Suc.prems have here: "nm @ ''_'' @ dec c \<in> set names"
    and r: "generateSymbolName fuel nm names (Suc c) = None"
    by (auto simp: Let_def split: if_splits)
  show ?case
  proof (intro allI impI)
    fix k assume k: "k < Suc fuel"
    show "nm @ ''_'' @ dec (c + k) \<in> set names"
    proof (cases k)
      case 0
      with here show ?thesis by simp
    next
      case (Suc k')
      with Suc.IH[OF r] k show ?thesis by simp
    qed
  qed
qed

lemma generateSymbolName_total:
  "\<exists>r. generateSymbolName (Suc (length names)) nm names c = Some r"
proof (rule ccontr)
  assume "\<not> (\<exists>r. generateSymbolName (Suc (length names)) nm names c = Some r)"
  then have "generateSymbolName (Suc (length names)) nm names c = None"
    by (cases "generateSymbolName (Suc (length names)) nm names c") (simp_all del: generateSymbolName.simps)
  from generateSymbolName_None[OF this]
  have sub: "(\<lambda>k. nm @ ''_'' @ dec (c + k)) ` {..<Suc (length names)} \<subseteq> set names" by auto
  have "inj_on (\<lambda>k. nm @ ''_'' @ dec (c + k)) {..<Suc (length names)}"
    by (rule inj_onI) (auto dest: dec_inj)
  then have "card ((\<lambda>k. nm @ ''_'' @ dec (c + k)) ` {..<Suc (length names)}) = Suc (length names)"
    by (simp add: card_image)
  with card_mono[OF _ sub] have "Suc (length names) \<le> card (set names)" by simp
  with card_length[of names] show False by simp
qed

lemma generateSymbolName_fresh:
  "generateSymbolName fuel nm names c = Some (nm', c') \<Longrightarrow>
     nm' \<notin> set names \<and> (\<exists>k. nm' = nm @ ''_'' @ dec k)"
  by (induction fuel arbitrary: c) (auto simp: Let_def split: if_splits)

subsection \<open>Operations that stay what and where they were\<close>

lemma same_node_refl [simp]: "same_node x x"
  by (simp add: same_node_def split: option.splits)

lemma same_node_trans: "same_node x y \<Longrightarrow> same_node y z \<Longrightarrow> same_node x z"
  by (auto simp: same_node_def split: option.splits)

lemma keeps_refl: "n \<le> length s \<Longrightarrow> keeps n s s"
  by (simp add: keeps_def)

lemma keeps_trans: "keeps n s t \<Longrightarrow> keeps n t u \<Longrightarrow> keeps n s u"
  by (auto simp: keeps_def intro: same_node_trans)

lemma keeps_weaken: "keeps n s t \<Longrightarrow> m \<le> n \<Longrightarrow> keeps m s t"
  by (auto simp: keeps_def)

lemma keeps_length: "keeps n s t \<Longrightarrow> n \<le> length s \<and> length s \<le> length t"
  by (simp add: keeps_def)

lemma keeps_step: "keeps n s t \<Longrightarrow> keeps (length t) t u \<Longrightarrow> keeps n s u"
  by (rule keeps_trans, assumption, rule keeps_weaken, assumption) (simp add: keeps_def)

lemma keeps_update_op:
  assumes "\<And>p. payload (f p) = payload p \<and> parent (f p) = parent p \<and> (body p \<noteq> [] \<longrightarrow> body (f p) \<noteq> [])"
    and "n \<le> length s"
  shows "keeps n s (update_op j f s)"
  using assms by (auto simp: keeps_def update_op_def nth_list_update same_node_def split: option.splits)

lemma keeps_update_op_above: "n \<le> j \<Longrightarrow> n \<le> length s \<Longrightarrow> keeps n s (update_op j f s)"
  by (auto simp: keeps_def update_op_def nth_list_update)

lemma keeps_append: "n \<le> length s \<Longrightarrow> keeps n s (s @ xs)"
  by (auto simp: keeps_def nth_append)

lemma insert_before_nonempty [simp]: "insert_before y i xs \<noteq> []"
  by (cases y) auto

lemma keeps_create:
  assumes "create s b opn = (i, s')" "n \<le> length s"
  shows "keeps n s s'"
proof (cases "ip_block b")
  case None
  with assms show ?thesis by (auto simp: create_def Let_def intro: keeps_append)
next
  case (Some blk)
  with assms have s': "s' = update_op blk (\<lambda>p. p\<lparr>body := insert_before (ip_before b) (length s) (body p)\<rparr>)
                          (s @ [Some (opn\<lparr>parent := ip_block b\<rparr>)])"
    by (auto simp: create_def Let_def)
  show ?thesis unfolding s'
    by (rule keeps_trans[OF keeps_append[OF assms(2)]], rule keeps_update_op)
       (use assms(2) in simp_all)
qed

lemma same_node_payload: "same_node x y \<Longrightarrow> map_option payload y = map_option payload x"
  by (auto simp: same_node_def split: option.splits)

lemma keeps_contents:
  assumes "keeps n s s'"
  shows "take n (contents s') = take n (contents s)"
proof (rule nth_equalityI)
  from assms show "length (take n (contents s')) = length (take n (contents s))"
    by (simp add: keeps_def)
next
  fix i assume "i < length (take n (contents s'))"
  with assms have i: "i < n" "i < length s" "i < length s'" by (simp_all add: keeps_def)
  with assms have "same_node (s ! i) (s' ! i)" by (simp add: keeps_def)
  from same_node_payload[OF this] i show "take n (contents s') ! i = take n (contents s) ! i"
    by (simp add: contents_def)
qed

lemma keeps_get_op: "keeps n s s' \<Longrightarrow> i < n \<Longrightarrow> same_node (get_op s i) (get_op s' i)"
  by (auto simp: keeps_def get_op_def)

lemma keeps_get_op_Some:
  "keeps n s s' \<Longrightarrow> i < n \<Longrightarrow> get_op s i = Some a \<Longrightarrow>
     \<exists>b. get_op s' i = Some b \<and> payload b = payload a \<and> parent b = parent a \<and> (body a \<noteq> [] \<longrightarrow> body b \<noteq> [])"
  by (drule (1) keeps_get_op) (auto simp: same_node_def split: option.splits)

lemma get_op_Some_length: "get_op s i = Some a \<Longrightarrow> i < length s"
  by (auto simp: get_op_def split: if_splits)



lemma keeps_atBlockFront:
  assumes "keeps (length s) s s'" "atBlockFront s c = Inr b"
  shows "\<exists>b'. atBlockFront s' c = Inr b'"
proof -
  from assms(2) obtain a where a: "get_op s c = Some a" "body a \<noteq> []"
    by (auto simp: atBlockFront_def split: option.splits list.splits)
  from keeps_get_op_Some[OF assms(1) get_op_Some_length[OF a(1)] a(1)] a(2)
  obtain a' where "get_op s' c = Some a'" "body a' \<noteq> []" by auto
  then show ?thesis by (auto simp: atBlockFront_def split: list.splits)
qed



lemma keeps_as_DTensorSend:
  assumes k: "keeps (length s) s s'" and d: "as_DTensorSend s i = Some d"
  shows "as_DTensorSend s' i = Some d"
proof -
  from d obtain a where a: "get_op s i = Some a" by (auto simp: as_DTensorSend_def split: option.splits)
  from keeps_get_op_Some[OF k get_op_Some_length[OF a] a]
  obtain b where b: "get_op s' i = Some b" "payload b = payload a" by auto
  from b(2) have "kind b = kind a" "operands b = operands a" "getAttr b = getAttr a"
    by (auto simp: payload_def getAttr_def)
  with a b(1) d show ?thesis
    by (simp add: as_DTensorSend_def cong: option.case_cong attr.case_cong if_cong)
qed

lemma keeps_as_DTensorRecv:
  assumes k: "keeps (length s) s s'" and d: "as_DTensorRecv s i = Some d"
  shows "as_DTensorRecv s' i = Some d"
proof -
  from d obtain a where a: "get_op s i = Some a" by (auto simp: as_DTensorRecv_def split: option.splits)
  from keeps_get_op_Some[OF k get_op_Some_length[OF a] a]
  obtain b where b: "get_op s' i = Some b" "payload b = payload a" by auto
  from b(2) have "kind b = kind a" "result_types b = result_types a" "getAttr b = getAttr a"
    by (auto simp: payload_def getAttr_def)
  with a b(1) d show ?thesis
    by (simp add: as_DTensorRecv_def cong: option.case_cong attr.case_cong if_cong)
qed

lemma IntConst_keeps: "IntConst s b vs = (v, s') \<Longrightarrow> n \<le> length s \<Longrightarrow> keeps n s s'"
  by (auto simp: IntConst_def Let_def split: prod.splits intro: keeps_create)

lemma GetDeviceOrdinal_keeps:
  assumes "GetDeviceOrdinal ext m fn b r64 s = Inr (v, s')"
  shows "keeps (length s) s s'"
proof -
  from assms obtain tbl dv where t: "device_id_to_ordinal m = Inr tbl" and dv: "DeviceId ext fn = Inr dv"
    by (auto simp: GetDeviceOrdinal_def split: sum.splits)
  obtain v0 s0 where a0: "IntConst s b tbl = (v0, s0)" by fastforce
  obtain v1 s1 where a1: "IntConst s0 b [1] = (v1, s1)" by fastforce
  obtain i2 s2 where a2: "create s1 b (mk_op ReshapeOp [dv, v1] [RankedTensorType [1] (IntegerType 32)] []) = (i2, s2)"
    by fastforce
  obtain v3 s3 where a3: "IntConst s2 b [1] = (v3, s3)" by fastforce
  obtain i4 s4 where a4: "create s3 b (mk_op SliceOp [v0, OpResult i2 0, v3] [EffectivelyScalarR1Type (IntegerType 32)] []) = (i4, s4)"
    by fastforce
  obtain v5 s5 where a5: "IntConst s4 b [] = (v5, s5)" by fastforce
  obtain i6 s6 where a6: "create s5 b (mk_op ReshapeOp [OpResult i4 0, v5] [RankedTensorType [] (IntegerType 32)] []) = (i6, s6)"
    by fastforce
  obtain i7 s7 where a7: "create s6 b (mk_op CastOp [OpResult i6 0] [RankedTensorType [] (IntegerType 64)] []) = (i7, s7)"
    by fastforce
  have k0: "keeps (length s) s s0" by (rule IntConst_keeps[OF a0 order_refl])
  have k1: "keeps (length s) s s1" by (rule keeps_step[OF k0 IntConst_keeps[OF a1 order_refl]])
  have k2: "keeps (length s) s s2" by (rule keeps_step[OF k1 keeps_create[OF a2 order_refl]])
  have k3: "keeps (length s) s s3" by (rule keeps_step[OF k2 IntConst_keeps[OF a3 order_refl]])
  have k4: "keeps (length s) s s4" by (rule keeps_step[OF k3 keeps_create[OF a4 order_refl]])
  have k5: "keeps (length s) s s5" by (rule keeps_step[OF k4 IntConst_keeps[OF a5 order_refl]])
  have k6: "keeps (length s) s s6" by (rule keeps_step[OF k5 keeps_create[OF a6 order_refl]])
  have k7: "keeps (length s) s s7"
    by (rule keeps_step[OF k6 keeps_create[OF a7 order_refl]])
  show ?thesis
  proof (cases r64)
    case True
    with assms t dv a0 a1 a2 a3 a4 a5 a6 a7 have "s' = s7"
      by (simp add: GetDeviceOrdinal_def ReshapeScalarToSizeType_def ReshapeSizeTypeToScalar_def Let_def)
    with k7 show ?thesis by simp
  next
    case False
    with assms t dv a0 a1 a2 a3 a4 a5 a6 have "s' = s6"
      by (simp add: GetDeviceOrdinal_def ReshapeScalarToSizeType_def ReshapeSizeTypeToScalar_def Let_def)
    with k6 show ?thesis by simp
  qed
qed

lemma GetOrCreateCompilationKey_keeps:
  assumes "GetOrCreateCompilationKey opr s = Inr (k, s')"
  shows "keeps (length s) s s'"
proof -
  from assms obtain cluster where c: "getParentOfType s ClusterOp opr = Some cluster"
    by (auto simp: GetOrCreateCompilationKey_def split: option.splits)
  show ?thesis
  proof (cases "filter (has_kind s PlaceholderProgramKeyOp) (walk s cluster)")
    case Nil
    with assms c obtain b i where "create s b PlaceholderProgramKey = (i, s')"
      by (auto simp: GetOrCreateCompilationKey_def Let_def split: sum.splits prod.splits)
    then show ?thesis by (rule keeps_create) simp
  next
    case (Cons x xs)
    with assms c have "s' = s" by (auto simp: GetOrCreateCompilationKey_def)
    then show ?thesis by (simp add: keeps_refl)
  qed
qed

subsection \<open>Nodes\<close>

lemma length_nodes [simp]: "length (nodes s) = length s"
  by (simp add: nodes_def)

lemma same_node_nodes: "same_node x y \<Longrightarrow> map_option node_of y = map_option node_of x"
  by (auto simp: same_node_def node_of_def split: option.splits)

lemma keeps_nodes:
  assumes "keeps n s s'"
  shows "take n (nodes s') = take n (nodes s)"
proof (rule nth_equalityI)
  from assms show "length (take n (nodes s')) = length (take n (nodes s))"
    by (simp add: keeps_def)
next
  fix i assume "i < length (take n (nodes s'))"
  with assms have i: "i < n" "i < length s" "i < length s'" by (simp_all add: keeps_def)
  with assms have "same_node (s ! i) (s' ! i)" by (simp add: keeps_def)
  from same_node_nodes[OF this] i show "take n (nodes s') ! i = take n (nodes s) ! i"
    by (simp add: nodes_def)
qed

lemma keeps_nodes_split:
  assumes "keeps (length t) t u" "n \<le> length t"
  shows "drop n (nodes u) = drop n (nodes t) @ drop (length t) (nodes u)"
proof -
  from keeps_nodes[OF assms(1)] have "take (length t) (nodes u) = nodes t" by simp
  then have "nodes u = nodes t @ drop (length t) (nodes u)"
    by (metis append_take_drop_id)
  then have "drop n (nodes u) = drop n (nodes t @ drop (length t) (nodes u))" by simp
  with assms(2) show ?thesis by simp
qed

lemma nodes_create:
  assumes "create s b opn = (i, s')"
  shows "nodes s' = nodes s @ [Some (payload opn, ip_block b)]"
proof -
  from keeps_nodes[OF keeps_create[OF assms order_refl]] have 1: "take (length s) (nodes s') = nodes s"
    by simp
  from length_create[OF assms] have 2: "length (nodes s') = Suc (length s)" by simp
  from assms have "\<exists>o'. s' ! length s = Some o' \<and> payload o' = payload opn \<and> parent o' = ip_block b"
    by (auto simp: create_def Let_def update_op_def nth_append nth_list_update payload_def
        split: option.splits)
  with 2 have 3: "nodes s' ! length s = Some (payload opn, ip_block b)"
    by (auto simp: nodes_def node_of_def)
  from 2 have "nodes s' = take (length s) (nodes s') @ [nodes s' ! length s]"
    by (metis lessI take_Suc_conv_app_nth take_all order_refl)
  with 1 3 show ?thesis by simp
qed

lemma contents_nodes: "contents s = map (map_option fst) (nodes s)"
  by (simp add: contents_def nodes_def node_of_def option.map_comp comp_def)

subsection \<open>Inserting a new subprogram into the symbol table\<close>

lemma nth_update_op:
  "i < length t \<Longrightarrow> update_op j g t ! i = (if i = j then map_option g (t ! i) else t ! i)"
  by (simp add: update_op_def nth_list_update)

lemma nodes_last:
  assumes "keeps (length s) s s2" "length s2 = Suc (length s)"
  shows "nodes s2 = nodes s @ [nodes s2 ! length s]"
proof -
  from keeps_nodes[OF assms(1)] have 1: "take (length s) (nodes s2) = nodes s" by simp
  from assms(2) have "nodes s2 = take (length s) (nodes s2) @ [nodes s2 ! length s]"
    by (metis length_nodes lessI take_Suc_conv_app_nth take_all order_refl)
  with 1 show ?thesis by simp
qed

lemma new_func_insert:
  assumes c: "create s (InsertionPoint None None) (setVisibilityPrivate (FuncOp_create nm0 ins outs)) = (f, s1)"
  shows "\<exists>nm st1 s2 x.
           SymbolTable_insert st f s1 = Inr (nm, st1, s2) \<and>
           nm \<notin> set (symbolNames st) \<and> symbolNames st1 = symbolNames st @ [nm] \<and>
           symbolTableOp st1 = symbolTableOp st \<and> (\<exists>sfx. nm = nm0 @ sfx) \<and>
           keeps (length s) s s2 \<and> f = length s \<and> length s2 = Suc (length s) \<and>
           nodes s2 = nodes s @ [x] \<and> node_kind x = Some FuncOp \<and>
           node_attr x ''sym_name'' = Some (StringAttr nm) \<and>
           node_attr x ''function_type'' = Some (FunctionType ins outs) \<and>
           is_private_in (symbolTableOp st) x"
proof -
  let ?F = "setVisibilityPrivate (FuncOp_create nm0 ins outs)"
  let ?m = "symbolTableOp st"
  from c have f: "f = length s" and s1: "s1 = s @ [Some (?F\<lparr>parent := None\<rparr>)]"
    by (auto simp: create_def Let_def)
  have g: "get_op s1 f = Some (?F\<lparr>parent := None\<rparr>)" by (simp add: get_op_def s1 f)
  have sn: "getSymbolName (?F\<lparr>parent := None\<rparr>) = Some nm0"
    by (simp add: getSymbolName_def getAttr_def setVisibilityPrivate_def setAttr_def FuncOp_create_def mk_op_def)
  let ?s1' = "update_op ?m (\<lambda>p. p\<lparr>body := body p @ [f]\<rparr>)
                 (update_op f (\<lambda>opn. opn\<lparr>parent := Some ?m\<rparr>) s1)"
  have k1: "keeps (length s) s ?s1'"
    apply (rule keeps_trans[of _ _ s1])
     apply (simp add: s1 keeps_append)
    apply (rule keeps_trans[of _ _ "update_op f (\<lambda>opn. opn\<lparr>parent := Some ?m\<rparr>) s1"])
     apply (rule keeps_update_op_above; simp add: f s1)
    apply (rule keeps_update_op; simp add: s1)
    done
  have n1: "\<exists>o1. ?s1' ! length s = Some o1 \<and> payload o1 = payload ?F \<and> parent o1 = Some ?m"
    by (auto simp: nth_update_op s1 f nth_append payload_def)
  show ?thesis
  proof (cases "nm0 \<in> set (symbolNames st)")
    case False
    with g sn have ins: "SymbolTable_insert st f s1 =
        Inr (nm0, st\<lparr>symbolNames := symbolNames st @ [nm0]\<rparr>, ?s1')"
      by (simp add: SymbolTable_insert_def Let_def)
    have len: "length ?s1' = Suc (length s)" by (simp add: s1)
    from n1 have x: "node_kind (nodes ?s1' ! length s) = Some FuncOp"
      "node_attr (nodes ?s1' ! length s) ''sym_name'' = Some (StringAttr nm0)"
      "node_attr (nodes ?s1' ! length s) ''function_type'' = Some (FunctionType ins outs)"
      "is_private_in ?m (nodes ?s1' ! length s)"
      using len
      by (auto simp: nodes_def node_of_def node_kind_def node_attr_def is_private_in_def node_parent_def
          payload_def setVisibilityPrivate_def setAttr_def FuncOp_create_def mk_op_def)
    from ins False k1 f len nodes_last[OF k1 len] x show ?thesis by auto
  next
    case True
    from generateSymbolName_total[of "symbolNames st" nm0 "uniquingCounter st"]
    obtain nm' c' where gen: "generateSymbolName (Suc (length (symbolNames st))) nm0 (symbolNames st)
                                (uniquingCounter st) = Some (nm', c')"
      by (cases, auto)
    let ?s2 = "update_op f (setAttr ''sym_name'' (StringAttr nm')) ?s1'"
    from True g sn gen have ins: "SymbolTable_insert st f s1 =
        Inr (nm', st\<lparr>symbolNames := symbolNames st @ [nm'], uniquingCounter := c'\<rparr>, ?s2)"
      by (simp add: SymbolTable_insert_def Let_def del: generateSymbolName.simps)
    from generateSymbolName_fresh[OF gen] have fresh: "nm' \<notin> set (symbolNames st)" "\<exists>sfx. nm' = nm0 @ sfx"
      by auto
    have len: "length ?s2 = Suc (length s)" by (simp add: s1)
    have k2: "keeps (length s) s ?s2"
      by (rule keeps_trans[OF k1], rule keeps_update_op_above) (simp_all add: f s1)
    from n1 have "\<exists>o2. ?s2 ! length s = Some o2 \<and> kind o2 = FuncOp \<and> parent o2 = Some ?m \<and>
        attrs o2 = (''sym_name'', StringAttr nm') # filter (\<lambda>kv. fst kv \<noteq> ''sym_name'') (attrs ?F)"
      by (auto simp: nth_update_op[of "length s"] s1 f payload_def setAttr_def
          setVisibilityPrivate_def FuncOp_create_def mk_op_def)
    then have x: "node_kind (nodes ?s2 ! length s) = Some FuncOp"
      "node_attr (nodes ?s2 ! length s) ''sym_name'' = Some (StringAttr nm')"
      "node_attr (nodes ?s2 ! length s) ''function_type'' = Some (FunctionType ins outs)"
      "is_private_in ?m (nodes ?s2 ! length s)"
      using len
      by (auto simp: nodes_def node_of_def node_kind_def node_attr_def is_private_in_def node_parent_def
          payload_def setVisibilityPrivate_def setAttr_def FuncOp_create_def mk_op_def)
    from ins fresh k2 f len nodes_last[OF k2 len] x show ?thesis by auto
  qed
qed

subsection \<open>The loop of GenerateBranches\<close>

lemma keeps_nodes_append:
  assumes "keeps (length t) t u"
  shows "nodes u = nodes t @ drop (length t) (nodes u)"
proof -
  from keeps_nodes[OF assms] have "take (length t) (nodes u) = nodes t" by simp
  then show ?thesis by (metis append_take_drop_id)
qed

lemma subprograms_none: "list_all (\<lambda>x. \<not> is_func_node x) xs \<Longrightarrow> subprograms xs = []"
  by (induction xs) (auto simp: subprograms_def)

lemma GenerateBranches_loop_names:
  assumes fn: "\<And>b a v t r t'. fn b a v t = Inr (r, t') \<Longrightarrow>
                 keeps (length t) t t' \<and> list_all Q (drop (length t) (nodes t'))"
    and Q: "\<And>x. Q x \<Longrightarrow> \<not> is_func_node x"
  shows "GenerateBranches_loop ext opr rtys tag fn idx vs st br s = Inr (br', st', s') \<Longrightarrow>
         \<exists>names.
           br' = br @ map SymbolRefAttr names \<and> length names = length vs \<and>
           symbolNames st' = symbolNames st @ names \<and> distinct names \<and>
           set names \<inter> set (symbolNames st) = {} \<and>
           (\<forall>k<length vs. \<exists>sfx. names ! k = formatv tag (OpName ext opr) (OpHash ext opr) (idx + k) @ sfx) \<and>
           keeps (length s) s s' \<and>
           subprogram_names (drop (length s) (nodes s')) = map (\<lambda>n. Some (StringAttr n)) names \<and>
           list_all (is_private_in (symbolTableOp st)) (subprograms (drop (length s) (nodes s'))) \<and>
           list_all (\<lambda>x. is_func_node x \<or> node_kind x = Some ReturnOp \<or> Q x) (drop (length s) (nodes s'))"
proof (induction vs arbitrary: idx st br s)
  case Nil
  then show ?case by (simp add: keeps_refl subprogram_names_def subprograms_def)
next
  case (Cons v vs)
  let ?nm0 = "formatv tag (OpName ext opr) (OpHash ext opr) idx"
  from Cons.prems obtain tys where tys: "getOperandTypes s opr = Some tys"
    by (auto split: option.splits)
  obtain f s1 where c: "create s (InsertionPoint None None)
                          (setVisibilityPrivate (FuncOp_create ?nm0 tys rtys)) = (f, s1)"
    by fastforce
  from new_func_insert[OF c, of st] obtain nm st1 s2 x where
    ins: "SymbolTable_insert st f s1 = Inr (nm, st1, s2)" and
    nm: "nm \<notin> set (symbolNames st)" "symbolNames st1 = symbolNames st @ [nm]"
        "symbolTableOp st1 = symbolTableOp st" "\<exists>sfx. nm = ?nm0 @ sfx" and
    k2: "keeps (length s) s s2" and f: "f = length s" and len2: "length s2 = Suc (length s)" and
    x: "nodes s2 = nodes s @ [x]" "node_kind x = Some FuncOp"
       "node_attr x ''sym_name'' = Some (StringAttr nm)" "is_private_in (symbolTableOp st) x"
    by blast
  let ?arg = "if length tys > 0 then BlockArgument f 0 else NullValue"
  from Cons.prems tys c ins obtain bo s3 where
    b: "fn (InsertionPoint (Some f) None) ?arg v s2 = Inr (bo, s3)"
    by (auto simp: Let_def split: sum.splits prod.splits)
  obtain ret s4 where r: "create s3 (InsertionPoint (Some f) None) (mk_op ReturnOp (getResults s3 bo) [] []) = (ret, s4)"
    by fastforce
  from Cons.prems tys c ins b r have rest:
    "GenerateBranches_loop ext opr rtys tag fn (Suc idx) vs st1 (br @ [SymbolRefAttr nm]) s4 = Inr (br', st', s')"
    by (simp add: Let_def)
  from fn[OF b] have k3: "keeps (length s2) s2 s3" and q3: "list_all Q (drop (length s2) (nodes s3))"
    by simp_all
  have k4: "keeps (length s3) s3 s4" by (rule keeps_create[OF r order_refl])
  from Cons.IH[OF rest] obtain names where
    n: "br' = (br @ [SymbolRefAttr nm]) @ map SymbolRefAttr names" "length names = length vs"
       "symbolNames st' = symbolNames st1 @ names" "distinct names"
       "set names \<inter> set (symbolNames st1) = {}"
       "\<forall>k<length vs. \<exists>sfx. names ! k = formatv tag (OpName ext opr) (OpHash ext opr) (Suc idx + k) @ sfx"
       "keeps (length s4) s4 s'"
       "subprogram_names (drop (length s4) (nodes s')) = map (\<lambda>n. Some (StringAttr n)) names"
       "list_all (is_private_in (symbolTableOp st1)) (subprograms (drop (length s4) (nodes s')))"
       "list_all (\<lambda>x. is_func_node x \<or> node_kind x = Some ReturnOp \<or> Q x) (drop (length s4) (nodes s'))"
    by blast
  have k: "keeps (length s) s s'"
    by (rule keeps_step[OF keeps_step[OF keeps_step[OF k2 k3] k4] n(7)])
  have n3: "nodes s3 = nodes s @ [x] @ drop (length s2) (nodes s3)"
    using keeps_nodes_append[OF k3] x(1) by simp
  have n4: "nodes s4 = nodes s @ [x] @ drop (length s2) (nodes s3) @
                [Some (payload (mk_op ReturnOp (getResults s3 bo) [] []), Some f)]"
    using nodes_create[OF r] n3 by simp
  have n': "drop (length s) (nodes s') =
              [x] @ drop (length s2) (nodes s3) @
              [Some (payload (mk_op ReturnOp (getResults s3 bo) [] []), Some f)] @
              drop (length s4) (nodes s')"
  proof -
    have "drop (length s) (nodes s') = drop (length s) (nodes s4 @ drop (length s4) (nodes s'))"
      by (rule arg_cong[OF keeps_nodes_append[OF n(7)]])
    then show ?thesis by (simp add: n4)
  qed
  have notf: "list_all (\<lambda>x. \<not> is_func_node x) (drop (length s2) (nodes s3))"
    using q3 Q by (auto simp: list_all_iff)
  have retk: "node_kind (Some (payload (mk_op ReturnOp (getResults s3 bo) [] []), Some f)) = Some ReturnOp"
    by (simp add: node_kind_def payload_def mk_op_def)
  have xf: "is_func_node x" using x(2) by (simp add: is_func_node_def)
  have sub: "subprograms (drop (length s) (nodes s')) = x # subprograms (drop (length s4) (nodes s'))"
    using xf retk subprograms_none[OF notf]
    by (simp add: n' subprograms_def is_func_node_def)
  have "\<forall>k<length (v # vs). \<exists>sfx. (nm # names) ! k = formatv tag (OpName ext opr) (OpHash ext opr) (idx + k) @ sfx"
  proof (intro allI impI)
    fix k assume k: "k < length (v # vs)"
    show "\<exists>sfx. (nm # names) ! k = formatv tag (OpName ext opr) (OpHash ext opr) (idx + k) @ sfx"
    proof (cases k)
      case 0
      with nm(4) show ?thesis by simp
    next
      case (Suc k')
      with n(6) k show ?thesis by simp
    qed
  qed
  moreover have "list_all (\<lambda>x. is_func_node x \<or> node_kind x = Some ReturnOp \<or> Q x) (drop (length s) (nodes s'))"
    using xf retk q3 n(10) by (auto simp: n' list_all_iff)
  moreover have "subprogram_names (drop (length s) (nodes s')) = map (\<lambda>n. Some (StringAttr n)) (nm # names)"
    using n(8) x(3) by (simp add: subprogram_names_def sub)
  moreover have "list_all (is_private_in (symbolTableOp st)) (subprograms (drop (length s) (nodes s')))"
    using n(9) x(4) nm(3) by (simp add: sub)
  moreover have "distinct (nm # names)" "set (nm # names) \<inter> set (symbolNames st) = {}"
    using n(4,5) nm(1,2) by auto
  moreover have "br' = br @ map SymbolRefAttr (nm # names)" "length (nm # names) = length (v # vs)"
    "symbolNames st' = symbolNames st @ (nm # names)"
    using n(1,2,3) nm(2) by simp_all
  ultimately show ?case using k by blast
qed

subsection \<open>The branches of the send and of the receive\<close>

lemma nodes_erase: "nodes (erase i s) = (nodes s)[i := None]"
proof (cases "get_op s i")
  case None
  then have "(nodes s)[i := None] = nodes s"
    by (auto simp: nodes_def get_op_def list_eq_iff_nth_eq nth_list_update split: if_splits)
  with None show ?thesis by (simp add: erase_def)
next
  case (Some opn)
  have u: "\<And>b t. nodes (update_op b (\<lambda>p. p\<lparr>body := removeAll i (body p)\<rparr>) t) = nodes t"
    by (rule nth_equalityI)
       (auto simp: nodes_def nth_update_op node_of_def[abs_def] payload_def option.map_comp comp_def)
  from Some show ?thesis
    by (auto simp: erase_def Let_def u split: option.splits) (simp_all add: nodes_def map_update)
qed

lemma nodes_replaceAllUsesWith:
  "nodes (replaceAllUsesWith old new s) =
     map (map_option (\<lambda>n. (map_operands (replace_val old new) (fst n), snd n))) (nodes s)"
  by (simp add: nodes_def replaceAllUsesWith_def option.map_comp comp_def node_of_def payload_def map_operands_def)

lemma send_branch_nodes:
  assumes "send_branch ext send_layout i32_copy tensor_name b a v t = Inr (r, t')"
  shows "keeps (length t) t t' \<and> list_all (send_branch_node tensor_name) (drop (length t) (nodes t'))"
proof -
  from assms obtain f n where a: "a = BlockArgument f n" and hk: "has_kind t FuncOp f"
    by (cases a) (auto simp: send_branch_def split: if_splits)
  let ?t1 = "update_op f (setArgAttr n (kCustomDeviceAttr ext) (StringAttr (ToString send_layout))) t"
  have k1: "keeps (length t) t ?t1"
    by (rule keeps_update_op) (simp_all add: setArgAttr_def)
  have n1: "nodes ?t1 = nodes t"
    using keeps_nodes[OF k1] by simp
  have l1: "length ?t1 = length t" by simp
  show ?thesis
  proof (cases i32_copy)
    case False
    with assms a hk have c: "create ?t1 b (HostSend a tensor_name (fst v) 0 (snd v) False) = (r, t')"
      by (simp add: send_branch_def Let_def)
    from keeps_create[OF c order_refl] k1 l1 have "keeps (length t) t t'"
      by (metis keeps_step)
    moreover from nodes_create[OF c] n1
    have "list_all (send_branch_node tensor_name) (drop (length t) (nodes t'))"
      by (simp add: send_branch_node_def node_kind_def node_attr_def payload_def HostSend_def mk_op_def)
    ultimately show ?thesis by simp
  next
    case True
    with assms a hk obtain vt c t2 where
      vt: "getType ?t1 a = Some vt" and
      c1: "create ?t1 b (mk_op CastOp [a] [RankedTensorType (getShape vt) (IntegerType 64)] []) = (c, t2)" and
      c2: "create t2 b (HostSend (OpResult c 0) tensor_name (fst v) 0 (snd v) False) = (r, t')"
      by (auto simp: send_branch_def Let_def split: option.splits prod.splits)
    have k2: "keeps (length t) t t2"
      using keeps_step[OF k1] keeps_create[OF c1 order_refl] l1 by simp
    have k3: "keeps (length t) t t'"
      by (rule keeps_step[OF k2 keeps_create[OF c2 order_refl]])
    from nodes_create[OF c1] nodes_create[OF c2] n1
    have "list_all (send_branch_node tensor_name) (drop (length t) (nodes t'))"
      by (simp add: send_branch_node_def node_kind_def node_attr_def payload_def HostSend_def mk_op_def)
    with k3 show ?thesis by simp
  qed
qed

lemma recv_branch_nodes:
  assumes "recv_branch recv_lyt ty tensor_name b a v t = Inr (r, t')"
  shows "keeps (length t) t t' \<and> list_all (recv_branch_node ty tensor_name) (drop (length t) (nodes t'))"
proof -
  obtain i t1 where c: "create t b (HostRecv ty tensor_name (fst v) 0 (snd v) False) = (i, t1)"
    by fastforce
  with assms have t': "t' = SetSingleLayoutOnOp i recv_lyt t1" by (auto simp: recv_branch_def)
  from contents_create[OF c] have i: "i = length t" by simp
  have k1: "keeps (length t) t t1" by (rule keeps_create[OF c order_refl])
  have k2: "keeps (length t) t t'"
    unfolding t' SetSingleLayoutOnOp_def
    by (rule keeps_trans[OF k1], rule keeps_update_op_above) (use i keeps_length[OF k1] in simp_all)
  have len: "length t' = Suc (length t)"
    using length_create[OF c] by (simp add: t' SetSingleLayoutOnOp_def)
  from nodes_create[OF c] have "nodes t1 ! length t = Some (payload (HostRecv ty tensor_name (fst v) 0 (snd v) False), ip_block b)"
    by (simp add: nth_append)
  then have "\<exists>o1. t1 ! length t = Some o1 \<and> payload o1 = payload (HostRecv ty tensor_name (fst v) 0 (snd v) False)"
    using length_create[OF c] by (auto simp: nodes_def node_of_def)
  then have x: "recv_branch_node ty tensor_name (nodes t' ! length t)"
    using length_create[OF c]
    by (auto simp: t' SetSingleLayoutOnOp_def nth_update_op i nodes_def node_of_def recv_branch_node_def
        node_kind_def node_result_types_def node_attr_def payload_def setAttr_def HostRecv_def mk_op_def)
  from nodes_last[OF k2 len] have "drop (length t) (nodes t') = [nodes t' ! length t]"
    by (metis append_eq_conv_conj length_nodes)
  with x k2 show ?thesis by simp
qed

lemma send_branch_node_not_func: "send_branch_node k x \<Longrightarrow> \<not> is_func_node x"
  by (auto simp: send_branch_node_def is_func_node_def)

lemma recv_branch_node_not_func: "recv_branch_node ty k x \<Longrightarrow> \<not> is_func_node x"
  by (auto simp: recv_branch_node_def is_func_node_def)

subsection \<open>Where created operations stand\<close>

lemma ip_block_OpBuilder [simp]: "ip_block (OpBuilder s i) = parent_of s i"
  and ip_before_OpBuilder [simp]: "ip_before (OpBuilder s i) = Some i"
  by (simp_all add: OpBuilder_def parent_of_def)

lemma ip_block_setInsertionPointAfter [simp]:
  "ip_block (setInsertionPointAfter s i) = parent_of s i"
  by (simp add: setInsertionPointAfter_def parent_of_def split: option.splits)

lemma ip_before_setInsertionPointAfter:
  "parent_of s i = Some b \<Longrightarrow> ip_before (setInsertionPointAfter s i) = next_in i (body_of s b)"
  by (auto simp: setInsertionPointAfter_def parent_of_def body_of_def split: option.splits)

lemma body_of_create:
  assumes c: "create s b opn = (i, s')" and blk: "ip_block b = Some blk" and p: "get_op s blk = Some p"
  shows "body_of s' j = (if j = blk then insert_before (ip_before b) (length s) (body p)
                         else if j = length s then body opn else body_of s j)"
proof -
  from p have lt: "blk < length s" by (rule get_op_Some_length)
  from c blk have s': "s' = update_op blk (\<lambda>q. q\<lparr>body := insert_before (ip_before b) (length s) (body q)\<rparr>)
                          (s @ [Some (opn\<lparr>parent := ip_block b\<rparr>)])"
    by (auto simp: create_def Let_def)
  from p lt have pb: "s ! blk = Some p" by (simp add: get_op_def)
  show ?thesis
    using lt pb
    by (auto simp: s' body_of_def get_op_def nth_update_op nth_append split: option.splits)
qed

lemma body_of_create_detached:
  assumes c: "create s b opn = (i, s')" and blk: "ip_block b = None"
  shows "body_of s' j = (if j = length s then body opn else body_of s j)"
  using assms by (auto simp: create_def Let_def body_of_def get_op_def nth_append split: option.splits)

lemma parent_of_keeps:
  "keeps (length s) s s' \<Longrightarrow> parent_of s i = Some b \<Longrightarrow> parent_of s' i = Some b"
proof -
  assume k: "keeps (length s) s s'" and b: "parent_of s i = Some b"
  from b obtain a where a: "get_op s i = Some a" "parent a = Some b"
    by (auto simp: parent_of_def split: option.splits)
  from keeps_get_op_Some[OF k get_op_Some_length[OF a(1)] a(1)] a(2)
  show ?thesis by (auto simp: parent_of_def)
qed

lemma body_of_erase:
  assumes "parent_of s d = Some blk"
  shows "body_of (erase d s) j = (if j = d then [] else if j = blk then removeAll d (body_of s j) else body_of s j)"
proof -
  from assms obtain od where od: "get_op s d = Some od" "parent od = Some blk"
    by (auto simp: parent_of_def split: option.splits)
  from od(1) have lt: "d < length s" by (rule get_op_Some_length)
  from od have e: "erase d s = update_op blk (\<lambda>p. p\<lparr>body := removeAll d (body p)\<rparr>) (s[d := None])"
    by (simp add: erase_def Let_def)
  show ?thesis
    using lt
    by (auto simp: e body_of_def get_op_def nth_update_op nth_list_update split: option.splits)
qed

lemma parent_of_erase: "j \<noteq> d \<Longrightarrow> parent_of (erase d s) j = parent_of s j"
proof (cases "get_op s d")
  case None
  then show ?thesis by (simp add: erase_def)
next
  case (Some od)
  assume "j \<noteq> d"
  then show ?thesis
    using Some
    by (cases "parent od")
       (auto simp: erase_def Let_def parent_of_def get_op_def nth_update_op nth_list_update
          split: option.splits if_splits)
qed

lemma body_of_replaceAllUsesWithOp [simp]: "body_of (replaceAllUsesWithOp old new s) j = body_of s j"
  and parent_of_replaceAllUsesWithOp [simp]: "parent_of (replaceAllUsesWithOp old new s) j = parent_of s j"
  by (auto simp: replaceAllUsesWithOp_def body_of_def parent_of_def get_op_def split: option.splits)

lemma body_of_replaceAllUsesWith [simp]: "body_of (replaceAllUsesWith old new s) j = body_of s j"
  and parent_of_replaceAllUsesWith [simp]: "parent_of (replaceAllUsesWith old new s) j = parent_of s j"
  by (auto simp: replaceAllUsesWith_def body_of_def parent_of_def get_op_def split: option.splits)

lemma nodes_replaceAllUsesWithOp:
  "nodes (replaceAllUsesWithOp old new s) =
     map (map_option (\<lambda>n. (map_operands (replace_op_val old new) (fst n), snd n))) (nodes s)"
  by (simp add: nodes_def replaceAllUsesWithOp_def option.map_comp comp_def node_of_def payload_def map_operands_def)

lemma get_op_nodes:
  "map_option node_of (get_op s i) = (if i < length s then nodes s ! i else None)"
  by (auto simp: nodes_def get_op_def)

lemma parent_of_keeps_eq:
  assumes "keeps (length s) s s'" "j < length s"
  shows "parent_of s' j = parent_of s j"
proof -
  from keeps_get_op[OF assms] show ?thesis
    by (auto simp: same_node_def parent_of_def split: option.splits)
qed

lemma body_of_erase_any:
  assumes "get_op s d = Some od"
  shows "body_of (erase d s) j =
           (if j = d then [] else if parent_of s d = Some j then removeAll d (body_of s j) else body_of s j)"
proof (cases "parent od")
  case None
  with assms have e: "erase d s = s[d := None]" "parent_of s d = None"
    by (simp_all add: erase_def Let_def parent_of_def)
  from get_op_Some_length[OF assms] show ?thesis
    by (auto simp: e body_of_def get_op_def nth_list_update)
next
  case (Some blk)
  with assms have "parent_of s d = Some blk" by (simp add: parent_of_def)
  from body_of_erase[OF this] this show ?thesis by auto
qed

subsection \<open>Host to host\<close>

lemma LowerDTensorSendToTFOp_placed:
  assumes run: "LowerDTensorSendToTFOp send_layout input dtensor_send s = Inr (send_op, s')"
  shows "\<exists>d df sd sds rd rds.
           as_DTensorSend s dtensor_send = Some d \<and> getDefiningOp input = Some df \<and>
           local_devices (layout_mesh send_layout) = sd # sds \<and>
           local_devices (layout_mesh (target_layout d)) = rd # rds \<and>
           send_op = length s \<and>
           nodes s' =
             (nodes s @ [Some (payload (HostSend input (send_key d) sd 0 rd False), parent_of s df)])
               [dtensor_send := None] \<and>
           (\<forall>blk p. parent_of s df = Some blk \<and> get_op s blk = Some p \<and> blk \<noteq> dtensor_send \<longrightarrow>
              body_of s' blk =
                (if parent_of s dtensor_send = Some blk then removeAll dtensor_send else (\<lambda>xs. xs))
                  (insert_before (next_in df (body p)) send_op (body p)))"
proof -
  from run obtain d df sd sds rd rds s1 where
    d: "as_DTensorSend s dtensor_send = Some d" and df: "getDefiningOp input = Some df" and
    sd: "local_devices (layout_mesh send_layout) = sd # sds" and
    rd: "local_devices (layout_mesh (target_layout d)) = rd # rds" and
    c: "create s (setInsertionPointAfter s df) (HostSend input (send_key d) sd 0 rd False) = (send_op, s1)" and
    s': "s' = erase dtensor_send s1"
    by (auto simp: LowerDTensorSendToTFOp_def Let_def split: option.splits list.splits prod.splits)
  from contents_create[OF c] have so: "send_op = length s" by simp
  have n: "nodes s' =
             (nodes s @ [Some (payload (HostSend input (send_key d) sd 0 rd False), parent_of s df)])
               [dtensor_send := None]"
    using nodes_create[OF c] by (simp add: s' nodes_erase)
  have k: "keeps (length s) s s1" by (rule keeps_create[OF c order_refl])
  have dl: "dtensor_send < length s" using d by (rule as_DTensorSend_contents)
  from d obtain od where od: "get_op s dtensor_send = Some od"
    by (auto simp: as_DTensorSend_def split: option.splits)
  from keeps_get_op_Some[OF k dl od] obtain od1 where od1: "get_op s1 dtensor_send = Some od1" by blast
  have pd: "parent_of s1 dtensor_send = parent_of s dtensor_send"
    by (rule parent_of_keeps_eq[OF k dl])
  have b: "\<forall>blk p. parent_of s df = Some blk \<and> get_op s blk = Some p \<and> blk \<noteq> dtensor_send \<longrightarrow>
              body_of s' blk =
                (if parent_of s dtensor_send = Some blk then removeAll dtensor_send else (\<lambda>xs. xs))
                  (insert_before (next_in df (body p)) send_op (body p))"
  proof (intro allI impI)
    fix blk p
    assume h: "parent_of s df = Some blk \<and> get_op s blk = Some p \<and> blk \<noteq> dtensor_send"
    then have bp: "body_of s blk = body p" by (simp add: body_of_def)
    from h have ib: "ip_block (setInsertionPointAfter s df) = Some blk" by simp
    from body_of_create[OF c ib, of p blk] h ip_before_setInsertionPointAfter[of s df blk] bp
    have b1: "body_of s1 blk = insert_before (next_in df (body p)) (length s) (body p)" by simp
    from body_of_erase_any[OF od1, of blk] h pd b1 so
    show "body_of s' blk =
                (if parent_of s dtensor_send = Some blk then removeAll dtensor_send else (\<lambda>xs. xs))
                  (insert_before (next_in df (body p)) send_op (body p))"
      by (simp add: s')
  qed
  from d df sd rd so n b show ?thesis by blast
qed

lemma LowerDTensorRecvToTFOp_placed:
  assumes run: "LowerDTensorRecvToTFOp send_mesh dtensor_recv output_type s = Inr (recv_op, s')"
  shows "\<exists>d sd sds rd rds.
           as_DTensorRecv s dtensor_recv = Some d \<and>
           local_devices send_mesh = sd # sds \<and>
           local_devices (layout_mesh (recv_layout d)) = rd # rds \<and>
           recv_op = length s \<and>
           nodes s' =
             nodes s @ [Some (payload (HostRecv output_type (recv_key d) sd 0 rd False),
                              parent_of s dtensor_recv)] \<and>
           (\<forall>blk p. parent_of s dtensor_recv = Some blk \<and> get_op s blk = Some p \<longrightarrow>
              body_of s' blk = insert_before (Some dtensor_recv) recv_op (body p))"
proof -
  from run obtain d sd sds rd rds where
    d: "as_DTensorRecv s dtensor_recv = Some d" and
    sd: "local_devices send_mesh = sd # sds" and
    rd: "local_devices (layout_mesh (recv_layout d)) = rd # rds" and
    c: "create s (OpBuilder s dtensor_recv) (HostRecv output_type (recv_key d) sd 0 rd False) = (recv_op, s')"
    by (auto simp: LowerDTensorRecvToTFOp_def Let_def split: option.splits list.splits prod.splits sum.splits)
  from contents_create[OF c] have ro: "recv_op = length s" by simp
  have b: "\<forall>blk p. parent_of s dtensor_recv = Some blk \<and> get_op s blk = Some p \<longrightarrow>
              body_of s' blk = insert_before (Some dtensor_recv) recv_op (body p)"
  proof (intro allI impI)
    fix blk p
    assume h: "parent_of s dtensor_recv = Some blk \<and> get_op s blk = Some p"
    then have ib: "ip_block (OpBuilder s dtensor_recv) = Some blk" by simp
    from body_of_create[OF c ib, of p blk] h ro
    show "body_of s' blk = insert_before (Some dtensor_recv) recv_op (body p)" by simp
  qed
  from nodes_create[OF c] d sd rd ro b show ?thesis by auto
qed

text \<open>
  C2. Host to host, one target. A successful LowerDTensorSendToTFOp adds exactly one
  operation, a host send of the given input, placed in the block of the input's defining
  operation right after it: its sending device is the first local device of the source
  mesh, its receiving device the first local device of the destination mesh (the mesh of
  the abstract Send's target layout), its key the key of the abstract Send, its
  incarnation 0. A successful LowerDTensorRecvToTFOp adds exactly one operation, a host
  receive placed right before the abstract Recv, with the key of the abstract Recv and
  the same two device names. For a matched pair the two keys are the same string.
\<close>

theorem host_to_host_devices_and_key:
  assumes "LowerDTensorSendToTFOp send_layout input dtensor_send s = Inr (send_op, s')"
    and "LowerDTensorRecvToTFOp (layout_mesh send_layout) dtensor_recv output_type t = Inr (recv_op, t')"
  shows "\<exists>snd_d rcv_d df.
           as_DTensorSend s dtensor_send = Some snd_d \<and> as_DTensorRecv t dtensor_recv = Some rcv_d \<and>
           getDefiningOp input = Some df \<and>
           local_devices (layout_mesh send_layout) \<noteq> [] \<and>
           local_devices (layout_mesh (target_layout snd_d)) \<noteq> [] \<and>
           local_devices (layout_mesh (recv_layout rcv_d)) \<noteq> [] \<and>
           send_op = length s \<and>
           nodes s' =
             (nodes s @
              [Some (payload (HostSend input (send_key snd_d)
                                (hd (local_devices (layout_mesh send_layout))) 0
                                (hd (local_devices (layout_mesh (target_layout snd_d)))) False),
                     parent_of s df)])
               [dtensor_send := None] \<and>
           node_attr (nodes s' ! send_op) ''send_device'' =
             Some (StringAttr (hd (local_devices (layout_mesh send_layout)))) \<and>
           node_attr (nodes s' ! send_op) ''recv_device'' =
             Some (StringAttr (hd (local_devices (layout_mesh (target_layout snd_d))))) \<and>
           node_attr (nodes s' ! send_op) ''tensor_name'' = Some (StringAttr (send_key snd_d)) \<and>
           (\<forall>blk p. parent_of s df = Some blk \<and> get_op s blk = Some p \<and> blk \<noteq> dtensor_send \<longrightarrow>
              body_of s' blk =
                (if parent_of s dtensor_send = Some blk then removeAll dtensor_send else (\<lambda>xs. xs))
                  (insert_before (next_in df (body p)) send_op (body p))) \<and>
           recv_op = length t \<and>
           nodes t' =
             nodes t @
             [Some (payload (HostRecv output_type (recv_key rcv_d)
                               (hd (local_devices (layout_mesh send_layout))) 0
                               (hd (local_devices (layout_mesh (recv_layout rcv_d)))) False),
                    parent_of t dtensor_recv)] \<and>
           node_attr (nodes t' ! recv_op) ''tensor_name'' = Some (StringAttr (recv_key rcv_d)) \<and>
           (send_key snd_d = recv_key rcv_d \<longrightarrow>
              node_attr (nodes t' ! recv_op) ''tensor_name'' = node_attr (nodes s' ! send_op) ''tensor_name'') \<and>
           (\<forall>blk p. parent_of t dtensor_recv = Some blk \<and> get_op t blk = Some p \<longrightarrow>
              body_of t' blk = insert_before (Some dtensor_recv) recv_op (body p))"
proof -
  from LowerDTensorSendToTFOp_placed[OF assms(1)] obtain d df sd sds rd rds where
    a: "as_DTensorSend s dtensor_send = Some d" "getDefiningOp input = Some df"
       "local_devices (layout_mesh send_layout) = sd # sds"
       "local_devices (layout_mesh (target_layout d)) = rd # rds" "send_op = length s"
       "nodes s' =
             (nodes s @ [Some (payload (HostSend input (send_key d) sd 0 rd False), parent_of s df)])
               [dtensor_send := None]"
       "\<forall>blk p. parent_of s df = Some blk \<and> get_op s blk = Some p \<and> blk \<noteq> dtensor_send \<longrightarrow>
              body_of s' blk =
                (if parent_of s dtensor_send = Some blk then removeAll dtensor_send else (\<lambda>xs. xs))
                  (insert_before (next_in df (body p)) send_op (body p))"
    by blast
  from LowerDTensorRecvToTFOp_placed[OF assms(2)] obtain e sd' sds' rd' rds' where
    b: "as_DTensorRecv t dtensor_recv = Some e"
       "local_devices (layout_mesh send_layout) = sd' # sds'"
       "local_devices (layout_mesh (recv_layout e)) = rd' # rds'" "recv_op = length t"
       "nodes t' = nodes t @ [Some (payload (HostRecv output_type (recv_key e) sd' 0 rd' False),
                              parent_of t dtensor_recv)]"
       "\<forall>blk p. parent_of t dtensor_recv = Some blk \<and> get_op t blk = Some p \<longrightarrow>
              body_of t' blk = insert_before (Some dtensor_recv) recv_op (body p)"
    by blast
  have dl: "dtensor_send < length s" using a(1) by (rule as_DTensorSend_contents)
  have ns: "nodes s' ! send_op = Some (payload (HostSend input (send_key d) sd 0 rd False), parent_of s df)"
    using dl by (simp add: a(5,6) nth_list_update nth_append)
  have nr: "nodes t' ! recv_op = Some (payload (HostRecv output_type (recv_key e) sd' 0 rd' False),
                              parent_of t dtensor_recv)"
    by (simp add: b(4,5) nth_append)
  have at: "node_attr (nodes s' ! send_op) ''send_device'' = Some (StringAttr sd)"
    "node_attr (nodes s' ! send_op) ''recv_device'' = Some (StringAttr rd)"
    "node_attr (nodes s' ! send_op) ''tensor_name'' = Some (StringAttr (send_key d))"
    "node_attr (nodes t' ! recv_op) ''tensor_name'' = Some (StringAttr (recv_key e))"
    by (simp_all add: ns nr node_attr_def payload_def HostSend_def HostRecv_def mk_op_def)
  have eq: "send_key d = recv_key e \<longrightarrow>
      node_attr (nodes t' ! recv_op) ''tensor_name'' = node_attr (nodes s' ! send_op) ''tensor_name''"
    by (simp only: at) simp
  have hs: "hd (local_devices (layout_mesh send_layout)) = sd"
    "hd (local_devices (layout_mesh (target_layout d))) = rd"
    "hd (local_devices (layout_mesh (recv_layout e))) = rd'" "sd' = sd"
    "local_devices (layout_mesh send_layout) \<noteq> []"
    "local_devices (layout_mesh (target_layout d)) \<noteq> []"
    "local_devices (layout_mesh (recv_layout e)) \<noteq> []"
    using a(3,4) b(2,3) by simp_all
  note f = hs(1-3)
  show ?thesis
    using a(1,2,5,7) b(1,4,6) hs(5-7) a(6)[folded f] b(5)[unfolded hs(4), folded f] at[folded f] eq
    by (intro exI[of _ d] exI[of _ e] exI[of _ df] conjI) assumption+
qed

theorem host_to_host_devices_and_key_witness:
  "\<exists>send_op s' recv_op t'.
     LowerDTensorSendToTFOp src_layout (OpResult 3 0) 4 example_ir = Inr (send_op, s') \<and>
     LowerDTensorRecvToTFOp (layout_mesh src_layout) 5 i32x4 example_ir = Inr (recv_op, t') \<and>
     send_op = 7 \<and> recv_op = 7 \<and>
     nodes s' ! 7 =
       Some (payload (HostSend (OpResult 3 0) ''t1'' ''/job:localhost/task:0/device:CPU:0'' 0
                        ''/job:localhost/task:1/device:CPU:0'' False), Some 2) \<and>
     nodes s' ! 4 = None \<and> body_of s' 2 = [3, 7, 5, 6] \<and>
     nodes t' ! 7 =
       Some (payload (HostRecv i32x4 ''t1'' ''/job:localhost/task:0/device:CPU:0'' 0
                        ''/job:localhost/task:1/device:CPU:0'' False), Some 2) \<and>
     body_of t' 2 = [3, 4, 7, 5, 6]"
proof -
  have "\<exists>r s'. LowerDTensorSendToTFOp src_layout (OpResult 3 0) 4 example_ir = Inr (r, s')"
    by (simp add: LowerDTensorSendToTFOp_def as_DTensorSend_def example_defs Let_def create_def
        split: prod.splits)
  then obtain send_op s' where 1: "LowerDTensorSendToTFOp src_layout (OpResult 3 0) 4 example_ir = Inr (send_op, s')"
    by blast
  have "\<exists>r s'. LowerDTensorRecvToTFOp (layout_mesh src_layout) 5 i32x4 example_ir = Inr (r, s')"
    by (simp add: LowerDTensorRecvToTFOp_def as_DTensorRecv_def example_defs Let_def create_def
        getParentOfType_def atBlockFront_def split: prod.splits)
  then obtain recv_op t' where 2: "LowerDTensorRecvToTFOp (layout_mesh src_layout) 5 i32x4 example_ir = Inr (recv_op, t')"
    by blast
  have 3: "as_DTensorSend example_ir 4 = Some \<lparr>send_input = OpResult 3 0, send_key = ''t1'', target_layout = dst_layout\<rparr>"
    "as_DTensorRecv example_ir 5 = Some \<lparr>recv_key = ''t1'', recv_layout = dst_layout, recv_type = i32x4\<rparr>"
    by (simp_all add: as_DTensorSend_def as_DTensorRecv_def example_ir_def get_op_def mk_op_def getAttr_def)
  have 4: "length example_ir = 7" "parent_of example_ir 3 = Some 2" "parent_of example_ir 4 = Some 2"
    "parent_of example_ir 5 = Some 2"
    "get_op example_ir 2 = Some ((mk_op ClusterOp [] [] [])\<lparr>parent := Some 1, body := [3, 4, 5, 6]\<rparr>)"
    by (simp_all add: example_ir_def parent_of_def get_op_def)
  from host_to_host_devices_and_key[OF 1 2] 3 obtain df where
    r: "getDefiningOp (OpResult 3 0) = Some df" "send_op = length example_ir"
       "nodes s' =
             (nodes example_ir @
              [Some (payload (HostSend (OpResult 3 0) ''t1''
                                (hd (local_devices (layout_mesh src_layout))) 0
                                (hd (local_devices (layout_mesh dst_layout))) False),
                     parent_of example_ir df)])
               [4 := None]"
       "\<forall>blk p. parent_of example_ir df = Some blk \<and> get_op example_ir blk = Some p \<and> blk \<noteq> 4 \<longrightarrow>
              body_of s' blk =
                (if parent_of example_ir 4 = Some blk then removeAll 4 else (\<lambda>xs. xs))
                  (insert_before (next_in df (body p)) send_op (body p))"
       "recv_op = length example_ir"
       "nodes t' =
             nodes example_ir @
             [Some (payload (HostRecv i32x4 ''t1''
                               (hd (local_devices (layout_mesh src_layout))) 0
                               (hd (local_devices (layout_mesh dst_layout))) False),
                    parent_of example_ir 5)]"
       "\<forall>blk p. parent_of example_ir 5 = Some blk \<and> get_op example_ir blk = Some p \<longrightarrow>
              body_of t' blk = insert_before (Some 5) recv_op (body p)"
    by auto
  from r(1) have df: "df = 3" by simp
  from r(4)[rule_format, of 2] 4 df r(2) have b1: "body_of s' 2 = [3, 7, 5, 6]" by simp
  from r(7)[rule_format, of 2] 4 r(5) have b2: "body_of t' 2 = [3, 4, 7, 5, 6]" by simp
  from r(3) 4 df have n1: "nodes s' ! 7 =
       Some (payload (HostSend (OpResult 3 0) ''t1'' ''/job:localhost/task:0/device:CPU:0'' 0
                        ''/job:localhost/task:1/device:CPU:0'' False), Some 2)"
    "nodes s' ! 4 = None"
    by (simp_all add: nth_append src_layout_def dst_layout_def src_mesh_def dst_mesh_def)
  from r(6) 4 have n2: "nodes t' ! 7 =
       Some (payload (HostRecv i32x4 ''t1'' ''/job:localhost/task:0/device:CPU:0'' 0
                        ''/job:localhost/task:1/device:CPU:0'' False), Some 2)"
    by (simp add: nth_append src_layout_def dst_layout_def src_mesh_def dst_mesh_def)
  from 1 2 r(2,5) 4(1) b1 b2 n1 n2 show ?thesis by auto
qed

subsection \<open>Fan-out: where the loops put their operations\<close>

lemma insert_all_before_Cons:
  "insert_all_before y (i # is) xs = insert_all_before y is (insert_before y i xs)"
  by (simp add: insert_all_before_def)

lemma insert_all_before_Nil [simp]: "insert_all_before y [] xs = xs"
  by (simp add: insert_all_before_def)

lemma get_op_create_block:
  assumes c: "create s b opn = (i, s1)" and blk: "ip_block b = Some blk" and p: "get_op s blk = Some p"
  shows "\<exists>p1. get_op s1 blk = Some p1 \<and> body p1 = insert_before (ip_before b) (length s) (body p)"
proof -
  from p have lt: "blk < length s" by (rule get_op_Some_length)
  from keeps_get_op_Some[OF keeps_create[OF c order_refl] lt p] obtain p1 where
    p1: "get_op s1 blk = Some p1" by blast
  from body_of_create[OF c blk p, of blk] p1 show ?thesis by (simp add: body_of_def)
qed

lemma send_loop_placed:
  "send_loop b x k sds rds l s = Inr (l', s') \<Longrightarrow>
     nodes s' = nodes s @ map (\<lambda>rd. Some (payload (HostSend x k (hd sds) 0 rd False), ip_block b)) rds \<and>
     keeps (length s) s s' \<and>
     l' = (if rds = [] then l else Some (length s + length rds - 1)) \<and>
     (\<forall>blk p. ip_block b = Some blk \<and> get_op s blk = Some p \<longrightarrow>
        body_of s' blk = insert_all_before (ip_before b) [length s ..< length s + length rds] (body p))"
proof (induction rds arbitrary: l s)
  case Nil
  then show ?case by (auto simp: keeps_refl body_of_def)
next
  case (Cons rd rds)
  from Cons.prems obtain sd sds' i s1 where sd: "sds = sd # sds'"
    and c: "create s b (HostSend x k sd 0 rd False) = (i, s1)"
    and r: "send_loop b x k sds rds (Some i) s1 = Inr (l', s')"
    by (auto split: list.splits prod.splits)
  note ih = Cons.IH[OF r]
  from length_create[OF c] have len: "length s1 = Suc (length s)" by simp
  have n: "nodes s' = nodes s @ map (\<lambda>rd. Some (payload (HostSend x k (hd sds) 0 rd False), ip_block b)) (rd # rds)"
    using ih nodes_create[OF c] sd by simp
  have k: "keeps (length s) s s'"
    using keeps_step[OF keeps_create[OF c order_refl]] ih by blast
  have i: "i = length s" using contents_create[OF c] by simp
  have l: "l' = Some (length s + length (rd # rds) - 1)"
    using ih len i by (cases rds) auto
  have b: "\<forall>blk p. ip_block b = Some blk \<and> get_op s blk = Some p \<longrightarrow>
        body_of s' blk = insert_all_before (ip_before b) [length s ..< length s + length (rd # rds)] (body p)"
  proof (intro allI impI)
    fix blk p assume h: "ip_block b = Some blk \<and> get_op s blk = Some p"
    from get_op_create_block[OF c] h obtain p1 where
      p1: "get_op s1 blk = Some p1" "body p1 = insert_before (ip_before b) (length s) (body p)" by blast
    from ih h p1 have "body_of s' blk =
        insert_all_before (ip_before b) [length s1 ..< length s1 + length rds] (body p1)" by blast
    moreover have "[length s ..< length s + length (rd # rds)] =
        length s # [length s1 ..< length s1 + length rds]"
      by (simp add: len upt_conv_Cons del: upt_Suc)
    ultimately show "body_of s' blk =
        insert_all_before (ip_before b) [length s ..< length s + length (rd # rds)] (body p)"
      by (simp only: insert_all_before_Cons p1)
  qed
  from n k l b show ?case by simp
qed

lemma recv_loop_placed:
  "recv_loop b ty k sds rds l s = Inr (l', s') \<Longrightarrow>
     nodes s' = nodes s @ map (\<lambda>rd. Some (payload (HostRecv ty k (hd sds) 0 rd False), ip_block b)) rds \<and>
     keeps (length s) s s' \<and>
     l' = (if rds = [] then l else Some (length s + length rds - 1)) \<and>
     (\<forall>blk p. ip_block b = Some blk \<and> get_op s blk = Some p \<longrightarrow>
        body_of s' blk = insert_all_before (ip_before b) [length s ..< length s + length rds] (body p))"
proof (induction rds arbitrary: l s)
  case Nil
  then show ?case by (auto simp: keeps_refl body_of_def)
next
  case (Cons rd rds)
  from Cons.prems obtain sd sds' i s1 where sd: "sds = sd # sds'"
    and c: "create s b (HostRecv ty k sd 0 rd False) = (i, s1)"
    and r: "recv_loop b ty k sds rds (Some i) s1 = Inr (l', s')"
    by (auto split: list.splits prod.splits)
  note ih = Cons.IH[OF r]
  from length_create[OF c] have len: "length s1 = Suc (length s)" by simp
  have n: "nodes s' = nodes s @ map (\<lambda>rd. Some (payload (HostRecv ty k (hd sds) 0 rd False), ip_block b)) (rd # rds)"
    using ih nodes_create[OF c] sd by simp
  have k: "keeps (length s) s s'"
    using keeps_step[OF keeps_create[OF c order_refl]] ih by blast
  have i: "i = length s" using contents_create[OF c] by simp
  have l: "l' = Some (length s + length (rd # rds) - 1)"
    using ih len i by (cases rds) auto
  have b: "\<forall>blk p. ip_block b = Some blk \<and> get_op s blk = Some p \<longrightarrow>
        body_of s' blk = insert_all_before (ip_before b) [length s ..< length s + length (rd # rds)] (body p)"
  proof (intro allI impI)
    fix blk p assume h: "ip_block b = Some blk \<and> get_op s blk = Some p"
    from get_op_create_block[OF c] h obtain p1 where
      p1: "get_op s1 blk = Some p1" "body p1 = insert_before (ip_before b) (length s) (body p)" by blast
    from ih h p1 have "body_of s' blk =
        insert_all_before (ip_before b) [length s1 ..< length s1 + length rds] (body p1)" by blast
    moreover have "[length s ..< length s + length (rd # rds)] =
        length s # [length s1 ..< length s1 + length rds]"
      by (simp add: len upt_conv_Cons del: upt_Suc)
    ultimately show "body_of s' blk =
        insert_all_before (ip_before b) [length s ..< length s + length (rd # rds)] (body p)"
      by (simp only: insert_all_before_Cons p1)
  qed
  from n k l b show ?case by simp
qed

lemma LowerDTensorSendFromCPUToTFOp_placed:
  assumes run: "LowerDTensorSendFromCPUToTFOp send_layout input dtensor_send s = Inr (send_op, s')"
  shows "\<exists>d df. as_DTensorSend s dtensor_send = Some d \<and> getDefiningOp input = Some df \<and>
           local_devices (layout_mesh (target_layout d)) \<noteq> [] \<and>
           nodes s' =
             (nodes s @
              map (\<lambda>rd. Some (payload (HostSend (send_input d) (send_key d)
                                          (hd (local_devices (layout_mesh send_layout))) 0 rd False),
                               parent_of s df))
                (local_devices (layout_mesh (target_layout d))))[dtensor_send := None] \<and>
           length s' = length s + length (local_devices (layout_mesh (target_layout d))) \<and>
           Suc send_op = length s' \<and>
           (\<forall>blk p. parent_of s df = Some blk \<and> get_op s blk = Some p \<and> blk \<noteq> dtensor_send \<longrightarrow>
              body_of s' blk =
                (if parent_of s dtensor_send = Some blk then removeAll dtensor_send else (\<lambda>xs. xs))
                  (insert_all_before (next_in df (body p)) [length s ..< length s'] (body p)))"
proof -
  from run obtain d df l s1 where
    d: "as_DTensorSend s dtensor_send = Some d" and df: "getDefiningOp input = Some df" and
    lp: "send_loop (setInsertionPointAfter s df) (send_input d) (send_key d)
           (local_devices (layout_mesh send_layout)) (local_devices (layout_mesh (target_layout d))) None s
         = Inr (Some send_op, s1)" and
    s': "s' = erase dtensor_send s1"
    by (auto simp: LowerDTensorSendFromCPUToTFOp_def Let_def split: option.splits sum.splits prod.splits)
  let ?rds = "local_devices (layout_mesh (target_layout d))"
  from send_loop_placed[OF lp] have
    n1: "nodes s1 = nodes s @ map (\<lambda>rd. Some (payload (HostSend (send_input d) (send_key d)
                                          (hd (local_devices (layout_mesh send_layout))) 0 rd False),
                               parent_of s df)) ?rds" and
    k: "keeps (length s) s s1" and
    l: "Some send_op = (if ?rds = [] then (None :: nat option) else Some (length s + length ?rds - 1))" and
    b1: "\<forall>blk p. parent_of s df = Some blk \<and> get_op s blk = Some p \<longrightarrow>
        body_of s1 blk = insert_all_before (ip_before (setInsertionPointAfter s df))
                           [length s ..< length s + length ?rds] (body p)"
    by simp_all
  from l have ne: "?rds \<noteq> []" and so: "send_op = length s + length ?rds - 1"
    by (auto split: if_splits)
  from arg_cong[OF n1, of length] have len1: "length s1 = length s + length ?rds" by simp
  have len: "length s' = length s + length ?rds" by (simp add: s' length_erase len1)
  from ne so len have last: "Suc send_op = length s'" by (cases ?rds) auto
  have n: "nodes s' =
             (nodes s @
              map (\<lambda>rd. Some (payload (HostSend (send_input d) (send_key d)
                                          (hd (local_devices (layout_mesh send_layout))) 0 rd False),
                               parent_of s df)) ?rds)[dtensor_send := None]"
    by (simp add: s' nodes_erase n1)
  have dl: "dtensor_send < length s" using d by (rule as_DTensorSend_contents)
  from d obtain od where od: "get_op s dtensor_send = Some od"
    by (auto simp: as_DTensorSend_def split: option.splits if_splits)
  from keeps_get_op_Some[OF k dl od] obtain od1 where od1: "get_op s1 dtensor_send = Some od1" by blast
  have pd: "parent_of s1 dtensor_send = parent_of s dtensor_send"
    by (rule parent_of_keeps_eq[OF k dl])
  have b: "\<forall>blk p. parent_of s df = Some blk \<and> get_op s blk = Some p \<and> blk \<noteq> dtensor_send \<longrightarrow>
              body_of s' blk =
                (if parent_of s dtensor_send = Some blk then removeAll dtensor_send else (\<lambda>xs. xs))
                  (insert_all_before (next_in df (body p)) [length s ..< length s'] (body p))"
  proof (intro allI impI)
    fix blk p
    assume h: "parent_of s df = Some blk \<and> get_op s blk = Some p \<and> blk \<noteq> dtensor_send"
    then have bp: "body_of s blk = body p" by (simp add: body_of_def)
    from b1 h ip_before_setInsertionPointAfter[of s df blk] bp
    have b2: "body_of s1 blk = insert_all_before (next_in df (body p)) [length s ..< length s'] (body p)"
      by (simp add: len)
    from body_of_erase_any[OF od1, of blk] h pd b2
    show "body_of s' blk =
                (if parent_of s dtensor_send = Some blk then removeAll dtensor_send else (\<lambda>xs. xs))
                  (insert_all_before (next_in df (body p)) [length s ..< length s'] (body p))"
      by (simp add: s')
  qed
  from d df ne n len last b show ?thesis by blast
qed

lemma LowerDTensorRecvFromCPUToTFOp_placed:
  assumes run: "LowerDTensorRecvFromCPUToTFOp send_mesh dtensor_recv t = Inr (recv_op, t')"
  shows "\<exists>d. as_DTensorRecv t dtensor_recv = Some d \<and>
           local_devices (layout_mesh (recv_layout d)) \<noteq> [] \<and>
           nodes t' =
             (map (map_option (\<lambda>n. (map_operands (replace_op_val dtensor_recv recv_op) (fst n), snd n)))
                (nodes t) @
              map (\<lambda>rd. Some (payload (HostRecv (recv_type d) (recv_key d)
                                          (hd (local_devices send_mesh)) 0 rd False),
                               parent_of t dtensor_recv))
                (local_devices (layout_mesh (recv_layout d))))[dtensor_recv := None] \<and>
           length t' = length t + length (local_devices (layout_mesh (recv_layout d))) \<and>
           Suc recv_op = length t' \<and>
           (\<forall>blk p. parent_of t dtensor_recv = Some blk \<and> get_op t blk = Some p \<and> blk \<noteq> dtensor_recv \<longrightarrow>
              body_of t' blk =
                removeAll dtensor_recv
                  (insert_all_before (Some dtensor_recv) [length t ..< length t'] (body p)))"
proof -
  from run obtain d s1 where
    d: "as_DTensorRecv t dtensor_recv = Some d" and
    lp: "recv_loop (OpBuilder t dtensor_recv) (recv_type d) (recv_key d)
           (local_devices send_mesh) (local_devices (layout_mesh (recv_layout d))) None t
         = Inr (Some recv_op, s1)" and
    t': "t' = erase dtensor_recv (replaceAllUsesWithOp dtensor_recv recv_op s1)"
    by (auto simp: LowerDTensorRecvFromCPUToTFOp_def Let_def split: option.splits sum.splits prod.splits)
  let ?rds = "local_devices (layout_mesh (recv_layout d))"
  from recv_loop_placed[OF lp] have
    n1: "nodes s1 = nodes t @ map (\<lambda>rd. Some (payload (HostRecv (recv_type d) (recv_key d)
                                          (hd (local_devices send_mesh)) 0 rd False),
                               parent_of t dtensor_recv)) ?rds" and
    k: "keeps (length t) t s1" and
    l: "Some recv_op = (if ?rds = [] then (None :: nat option) else Some (length t + length ?rds - 1))" and
    b1: "\<forall>blk p. parent_of t dtensor_recv = Some blk \<and> get_op t blk = Some p \<longrightarrow>
        body_of s1 blk = insert_all_before (Some dtensor_recv)
                           [length t ..< length t + length ?rds] (body p)"
    by simp_all
  from l have ne: "?rds \<noteq> []" and so: "recv_op = length t + length ?rds - 1"
    by (auto split: if_splits)
  from arg_cong[OF n1, of length] have len1: "length s1 = length t + length ?rds" by simp
  have len: "length t' = length t + length ?rds"
    by (simp add: t' length_erase len1 replaceAllUsesWithOp_def)
  from ne so len have last: "Suc recv_op = length t'" by (cases ?rds) auto
  have n: "nodes t' =
             (map (map_option (\<lambda>n. (map_operands (replace_op_val dtensor_recv recv_op) (fst n), snd n)))
                (nodes t) @
              map (\<lambda>rd. Some (payload (HostRecv (recv_type d) (recv_key d)
                                          (hd (local_devices send_mesh)) 0 rd False),
                               parent_of t dtensor_recv)) ?rds)[dtensor_recv := None]"
    by (simp add: t' nodes_erase nodes_replaceAllUsesWithOp n1 comp_def)
  have dl: "dtensor_recv < length t" using d by (rule as_DTensorRecv_length)
  from d obtain od where od: "get_op t dtensor_recv = Some od"
    by (auto simp: as_DTensorRecv_def split: option.splits if_splits)
  from keeps_get_op_Some[OF k dl od] obtain od1 where od1: "get_op s1 dtensor_recv = Some od1" by blast
  then obtain od2 where od2: "get_op (replaceAllUsesWithOp dtensor_recv recv_op s1) dtensor_recv = Some od2"
    by (auto simp: get_op_def replaceAllUsesWithOp_def split: if_splits)
  have pd: "parent_of s1 dtensor_recv = parent_of t dtensor_recv"
    by (rule parent_of_keeps_eq[OF k dl])
  have b: "\<forall>blk p. parent_of t dtensor_recv = Some blk \<and> get_op t blk = Some p \<and> blk \<noteq> dtensor_recv \<longrightarrow>
              body_of t' blk =
                removeAll dtensor_recv
                  (insert_all_before (Some dtensor_recv) [length t ..< length t'] (body p))"
  proof (intro allI impI)
    fix blk p
    assume h: "parent_of t dtensor_recv = Some blk \<and> get_op t blk = Some p \<and> blk \<noteq> dtensor_recv"
    from b1 h
    have b2: "body_of s1 blk = insert_all_before (Some dtensor_recv) [length t ..< length t'] (body p)"
      by (simp add: len)
    from body_of_erase_any[OF od2, of blk] h pd b2
    show "body_of t' blk =
                removeAll dtensor_recv
                  (insert_all_before (Some dtensor_recv) [length t ..< length t'] (body p))"
      by (simp add: t')
  qed
  from d ne n len last b show ?thesis by blast
qed

text \<open>
  C9. Fan-out from a host. The sending side adds, in this order and right after the
  operation defining the input (in its block), one host send per local device of the
  receiving mesh: each sends the input of the abstract Send under its key from the first
  local device of the sending mesh, the \<open>i\<close>-th to the \<open>i\<close>-th receiving device (so to
  different devices when the mesh lists each device once); the abstract Send is erased
  and nothing else changes. The receiving side adds, in this order and right before the
  abstract Recv (in its block), one host receive per local receiving device, all of the
  type of the abstract Recv; the last one created is returned, every use of the abstract
  Recv's result now reads the result of that last receive, and the abstract Recv is gone.
\<close>

theorem fan_out_one_primitive_per_receiving_device:
  assumes "LowerDTensorSendFromCPUToTFOp send_layout input dtensor_send s = Inr (send_op, s')"
    and "LowerDTensorRecvFromCPUToTFOp send_mesh dtensor_recv t = Inr (recv_op, t')"
  shows "\<exists>snd_d rcv_d df.
           as_DTensorSend s dtensor_send = Some snd_d \<and> as_DTensorRecv t dtensor_recv = Some rcv_d \<and>
           getDefiningOp input = Some df \<and>
           drop (length s) (nodes s') =
             map (\<lambda>rd. Some (payload (HostSend (send_input snd_d) (send_key snd_d)
                                        (hd (local_devices (layout_mesh send_layout))) 0 rd False),
                              parent_of s df))
               (local_devices (layout_mesh (target_layout snd_d))) \<and>
           take (length s) (nodes s') = (nodes s)[dtensor_send := None] \<and>
           Suc send_op = length s' \<and> length s < length s' \<and>
           (\<forall>blk p. parent_of s df = Some blk \<and> get_op s blk = Some p \<and> blk \<noteq> dtensor_send \<longrightarrow>
              body_of s' blk =
                (if parent_of s dtensor_send = Some blk then removeAll dtensor_send else (\<lambda>xs. xs))
                  (insert_all_before (next_in df (body p)) [length s ..< length s'] (body p))) \<and>
           drop (length t) (nodes t') =
             map (\<lambda>rd. Some (payload (HostRecv (recv_type rcv_d) (recv_key rcv_d)
                                        (hd (local_devices send_mesh)) 0 rd False),
                              parent_of t dtensor_recv))
               (local_devices (layout_mesh (recv_layout rcv_d))) \<and>
           take (length t) (nodes t') =
             (map (map_option (\<lambda>n. (map_operands (replace_op_val dtensor_recv recv_op) (fst n), snd n)))
                (nodes t))[dtensor_recv := None] \<and>
           Suc recv_op = length t' \<and> length t < length t' \<and>
           (\<forall>blk p. parent_of t dtensor_recv = Some blk \<and> get_op t blk = Some p \<and> blk \<noteq> dtensor_recv \<longrightarrow>
              body_of t' blk =
                removeAll dtensor_recv
                  (insert_all_before (Some dtensor_recv) [length t ..< length t'] (body p)))"
proof -
  from LowerDTensorSendFromCPUToTFOp_placed[OF assms(1)] obtain d df where
    d: "as_DTensorSend s dtensor_send = Some d" "getDefiningOp input = Some df"
      "local_devices (layout_mesh (target_layout d)) \<noteq> []"
      "nodes s' =
             (nodes s @
              map (\<lambda>rd. Some (payload (HostSend (send_input d) (send_key d)
                                          (hd (local_devices (layout_mesh send_layout))) 0 rd False),
                               parent_of s df))
                (local_devices (layout_mesh (target_layout d))))[dtensor_send := None]"
      "length s' = length s + length (local_devices (layout_mesh (target_layout d)))"
      "Suc send_op = length s'"
      "\<forall>blk p. parent_of s df = Some blk \<and> get_op s blk = Some p \<and> blk \<noteq> dtensor_send \<longrightarrow>
              body_of s' blk =
                (if parent_of s dtensor_send = Some blk then removeAll dtensor_send else (\<lambda>xs. xs))
                  (insert_all_before (next_in df (body p)) [length s ..< length s'] (body p))"
    by blast
  from LowerDTensorRecvFromCPUToTFOp_placed[OF assms(2)] obtain e where
    e: "as_DTensorRecv t dtensor_recv = Some e"
      "local_devices (layout_mesh (recv_layout e)) \<noteq> []"
      "nodes t' =
             (map (map_option (\<lambda>n. (map_operands (replace_op_val dtensor_recv recv_op) (fst n), snd n)))
                (nodes t) @
              map (\<lambda>rd. Some (payload (HostRecv (recv_type e) (recv_key e)
                                          (hd (local_devices send_mesh)) 0 rd False),
                               parent_of t dtensor_recv))
                (local_devices (layout_mesh (recv_layout e))))[dtensor_recv := None]"
      "length t' = length t + length (local_devices (layout_mesh (recv_layout e)))"
      "Suc recv_op = length t'"
      "\<forall>blk p. parent_of t dtensor_recv = Some blk \<and> get_op t blk = Some p \<and> blk \<noteq> dtensor_recv \<longrightarrow>
              body_of t' blk =
                removeAll dtensor_recv
                  (insert_all_before (Some dtensor_recv) [length t ..< length t'] (body p))"
    by blast
  have ds: "dtensor_send < length s" using d(1) by (rule as_DTensorSend_contents)
  have dr: "dtensor_recv < length t" using e(1) by (rule as_DTensorRecv_length)
  have 1: "drop (length s) (nodes s') =
             map (\<lambda>rd. Some (payload (HostSend (send_input d) (send_key d)
                                        (hd (local_devices (layout_mesh send_layout))) 0 rd False),
                              parent_of s df))
               (local_devices (layout_mesh (target_layout d)))"
    using ds by (simp add: d(4) drop_update_cancel)
  have 2: "take (length s) (nodes s') = (nodes s)[dtensor_send := None]"
    using ds by (simp add: d(4) take_update_swap)
  have 3: "length s < length s'" using d(3,5) by simp
  have 4: "drop (length t) (nodes t') =
             map (\<lambda>rd. Some (payload (HostRecv (recv_type e) (recv_key e)
                                        (hd (local_devices send_mesh)) 0 rd False),
                              parent_of t dtensor_recv))
               (local_devices (layout_mesh (recv_layout e)))"
    using dr by (simp add: e(3) drop_update_cancel)
  have 5: "take (length t) (nodes t') =
             (map (map_option (\<lambda>n. (map_operands (replace_op_val dtensor_recv recv_op) (fst n), snd n)))
                (nodes t))[dtensor_recv := None]"
    using dr by (simp add: e(3) take_update_swap)
  have 6: "length t < length t'" using e(2,4) by simp
  show ?thesis
    using d(1) e(1) d(2) 1 2 d(6) 3 d(7) 4 5 e(5) 6 e(6)
    by (intro exI[of _ d] exI[of _ e] exI[of _ df] conjI) assumption+
qed

theorem fan_out_one_primitive_per_receiving_device_witness:
  "\<exists>send_op s' recv_op t'.
     LowerDTensorSendFromCPUToTFOp src_layout (OpResult 3 0) 4 example_ir = Inr (send_op, s') \<and>
     LowerDTensorRecvFromCPUToTFOp src_mesh 5 example_ir = Inr (recv_op, t') \<and>
     drop 7 (nodes s') =
       [Some (payload (HostSend (OpResult 3 0) ''t1'' ''/job:localhost/task:0/device:CPU:0'' 0
                         ''/job:localhost/task:1/device:CPU:0'' False), Some 2),
        Some (payload (HostSend (OpResult 3 0) ''t1'' ''/job:localhost/task:0/device:CPU:0'' 0
                         ''/job:localhost/task:1/device:CPU:1'' False), Some 2)] \<and>
     send_op = 8 \<and> body_of s' 2 = [3, 7, 8, 5, 6] \<and>
     drop 7 (nodes t') =
       [Some (payload (HostRecv i32x4 ''t1'' ''/job:localhost/task:0/device:CPU:0'' 0
                         ''/job:localhost/task:1/device:CPU:0'' False), Some 2),
        Some (payload (HostRecv i32x4 ''t1'' ''/job:localhost/task:0/device:CPU:0'' 0
                         ''/job:localhost/task:1/device:CPU:1'' False), Some 2)] \<and>
     recv_op = 8 \<and> length t' = 9 \<and> body_of t' 2 = [3, 4, 7, 8, 6] \<and>
     nodes t' ! 5 = None \<and>
     nodes t' ! 6 = Some ((OtherOp ''tf.B'', [OpResult 8 0], [], []), Some 2)"
proof -
  have "\<exists>r s'. LowerDTensorSendFromCPUToTFOp src_layout (OpResult 3 0) 4 example_ir = Inr (r, s')"
    by (simp add: LowerDTensorSendFromCPUToTFOp_def as_DTensorSend_def example_defs Let_def create_def
        split: prod.splits)
  then obtain send_op s' where 1:
    "LowerDTensorSendFromCPUToTFOp src_layout (OpResult 3 0) 4 example_ir = Inr (send_op, s')"
    by blast
  have "\<exists>r s'. LowerDTensorRecvFromCPUToTFOp src_mesh 5 example_ir = Inr (r, s')"
    by (simp add: LowerDTensorRecvFromCPUToTFOp_def as_DTensorRecv_def example_defs Let_def create_def
        getParentOfType_def atBlockFront_def split: prod.splits)
  then obtain recv_op t' where 2:
    "LowerDTensorRecvFromCPUToTFOp src_mesh 5 example_ir = Inr (recv_op, t')"
    by blast
  have 3: "as_DTensorSend example_ir 4 = Some \<lparr>send_input = OpResult 3 0, send_key = ''t1'', target_layout = dst_layout\<rparr>"
    "as_DTensorRecv example_ir 5 = Some \<lparr>recv_key = ''t1'', recv_layout = dst_layout, recv_type = i32x4\<rparr>"
    by (simp_all add: as_DTensorSend_def as_DTensorRecv_def example_ir_def get_op_def mk_op_def getAttr_def)
  have 4: "length example_ir = 7" "parent_of example_ir 3 = Some 2" "parent_of example_ir 4 = Some 2"
    "parent_of example_ir 5 = Some 2"
    "get_op example_ir 2 = Some ((mk_op ClusterOp [] [] [])\<lparr>parent := Some 1, body := [3, 4, 5, 6]\<rparr>)"
    by (simp_all add: example_ir_def parent_of_def get_op_def)
  have 5: "nodes example_ir ! 6 = Some ((OtherOp ''tf.B'', [OpResult 5 0], [], []), Some 2)"
    by (simp add: example_ir_def nodes_def node_of_def payload_def mk_op_def)
  from fan_out_one_primitive_per_receiving_device[OF 1 2] 3 obtain df where
    r: "getDefiningOp (OpResult 3 0) = Some df"
       "drop (length example_ir) (nodes s') =
             map (\<lambda>rd. Some (payload (HostSend (OpResult 3 0) ''t1''
                                        (hd (local_devices (layout_mesh src_layout))) 0 rd False),
                              parent_of example_ir df))
               (local_devices (layout_mesh dst_layout))"
       "Suc send_op = length s'"
       "\<forall>blk p. parent_of example_ir df = Some blk \<and> get_op example_ir blk = Some p \<and> blk \<noteq> 4 \<longrightarrow>
              body_of s' blk =
                (if parent_of example_ir 4 = Some blk then removeAll 4 else (\<lambda>xs. xs))
                  (insert_all_before (next_in df (body p)) [length example_ir ..< length s'] (body p))"
       "drop (length example_ir) (nodes t') =
             map (\<lambda>rd. Some (payload (HostRecv i32x4 ''t1''
                                        (hd (local_devices src_mesh)) 0 rd False),
                              parent_of example_ir 5))
               (local_devices (layout_mesh dst_layout))"
       "take (length example_ir) (nodes t') =
             (map (map_option (\<lambda>n. (map_operands (replace_op_val 5 recv_op) (fst n), snd n)))
                (nodes example_ir))[5 := None]"
       "Suc recv_op = length t'"
       "\<forall>blk p. parent_of example_ir 5 = Some blk \<and> get_op example_ir blk = Some p \<and> blk \<noteq> 5 \<longrightarrow>
              body_of t' blk =
                removeAll 5
                  (insert_all_before (Some 5) [length example_ir ..< length t'] (body p))"
    by auto
  from r(1) have df: "df = 3" by simp
  from r(2) 4 df have a: "drop 7 (nodes s') =
       [Some (payload (HostSend (OpResult 3 0) ''t1'' ''/job:localhost/task:0/device:CPU:0'' 0
                         ''/job:localhost/task:1/device:CPU:0'' False), Some 2),
        Some (payload (HostSend (OpResult 3 0) ''t1'' ''/job:localhost/task:0/device:CPU:0'' 0
                         ''/job:localhost/task:1/device:CPU:1'' False), Some 2)]"
    by (simp add: dst_layout_def src_layout_def dst_mesh_def src_mesh_def)
  from r(5) 4 have b: "drop 7 (nodes t') =
       [Some (payload (HostRecv i32x4 ''t1'' ''/job:localhost/task:0/device:CPU:0'' 0
                         ''/job:localhost/task:1/device:CPU:0'' False), Some 2),
        Some (payload (HostRecv i32x4 ''t1'' ''/job:localhost/task:0/device:CPU:0'' 0
                         ''/job:localhost/task:1/device:CPU:1'' False), Some 2)]"
    by (simp add: dst_layout_def src_layout_def dst_mesh_def src_mesh_def)
  from arg_cong[OF a, of length] have ls: "length s' = 9" by simp
  from arg_cong[OF b, of length] have lt: "length t' = 9" by simp
  from ls lt r(3,7) have so: "send_op = 8" "recv_op = 8" by simp_all
  have u: "[7 ..< 9] = [7, 8 :: nat]" by (simp add: upt_rec)
  from r(4)[rule_format, of 2] 4 df ls have b1: "body_of s' 2 = [3, 7, 8, 5, 6]"
    by (simp add: insert_all_before_def u)
  from r(8)[rule_format, of 2] 4 lt have b2: "body_of t' 2 = [3, 4, 7, 8, 6]"
    by (simp add: insert_all_before_def u)
  from arg_cong[OF r(6), of "\<lambda>xs. xs ! 5"] 4 have e: "nodes t' ! 5 = None"
    by simp
  from arg_cong[OF r(6), of "\<lambda>xs. xs ! 6"] 4 5 so
  have f: "nodes t' ! 6 = Some ((OtherOp ''tf.B'', [OpResult 8 0], [], []), Some 2)"
    by (simp add: map_operands_def)
  from 1 2 a b so lt b1 b2 e f show ?thesis by blast
qed

subsection \<open>Across the boundary: what is added, and where\<close>

lemma set_insert_before [simp]: "set (insert_before y i xs) = insert i (set xs)"
proof (cases y)
  case None
  then show ?thesis by simp
next
  case (Some d)
  have 1: "set (takeWhile (\<lambda>x. x \<noteq> d) xs) \<union> set (dropWhile (\<lambda>x. x \<noteq> d) xs) = set xs"
    by (metis set_append takeWhile_dropWhile_id)
  have "set (insert_before (Some d) i xs) =
          insert i (set (takeWhile (\<lambda>x. x \<noteq> d) xs) \<union> set (dropWhile (\<lambda>x. x \<noteq> d) xs))"
    by (simp only: insert_before.simps set_append list.set Un_insert_right)
  with 1 show ?thesis unfolding Some by (simp only:)
qed

lemma insert_before_adjacent:
  assumes "d \<in> set xs"
  shows "\<exists>as bs. insert_before (Some d) i xs = as @ i # d # bs"
proof -
  from assms have ne: "dropWhile (\<lambda>x. x \<noteq> d) xs \<noteq> []" by (simp add: dropWhile_eq_Nil_conv)
  then obtain z zs where z: "dropWhile (\<lambda>x. x \<noteq> d) xs = z # zs" by (cases "dropWhile (\<lambda>x. x \<noteq> d) xs") auto
  from hd_dropWhile[OF ne] z have "z = d" by simp
  with z show ?thesis by auto
qed

lemma create_body_mem:
  assumes c: "create s b opn = (i, s')" and x: "x \<in> set (body_of s j)"
  shows "x \<in> set (body_of s' j)"
proof -
  from x obtain q where q: "get_op s j = Some q" by (cases "get_op s j") (auto simp: body_of_def)
  then have j: "j < length s" by (rule get_op_Some_length)
  show ?thesis
  proof (cases "ip_block b")
    case None
    from body_of_create_detached[OF c None, of j] j x show ?thesis by simp
  next
    case (Some blk)
    show ?thesis
    proof (cases "get_op s blk")
      case (Some p)
      from body_of_create[OF c \<open>ip_block b = Some blk\<close> Some, of j] j x Some show ?thesis
        by (auto simp: body_of_def)
    next
      case None
      with c \<open>ip_block b = Some blk\<close> j x show ?thesis
        by (auto simp: create_def Let_def body_of_def get_op_def update_op_def nth_append nth_list_update
            split: if_splits option.splits)
    qed
  qed
qed

lemma IntConst_body_mem:
  "IntConst s b vs = (v, s') \<Longrightarrow> x \<in> set (body_of s j) \<Longrightarrow> x \<in> set (body_of s' j)"
  by (auto simp: IntConst_def Let_def split: prod.splits dest: create_body_mem)

lemma GetDeviceOrdinal_body_mem:
  assumes "GetDeviceOrdinal ext m fn b r64 s = Inr (v, s')" and x: "x \<in> set (body_of s j)"
  shows "x \<in> set (body_of s' j)"
proof -
  from assms obtain tbl dv where t: "device_id_to_ordinal m = Inr tbl" and dv: "DeviceId ext fn = Inr dv"
    by (auto simp: GetDeviceOrdinal_def split: sum.splits)
  obtain v0 s0 where a0: "IntConst s b tbl = (v0, s0)" by fastforce
  obtain v1 s1 where a1: "IntConst s0 b [1] = (v1, s1)" by fastforce
  obtain i2 s2 where a2: "create s1 b (mk_op ReshapeOp [dv, v1] [RankedTensorType [1] (IntegerType 32)] []) = (i2, s2)"
    by fastforce
  obtain v3 s3 where a3: "IntConst s2 b [1] = (v3, s3)" by fastforce
  obtain i4 s4 where a4: "create s3 b (mk_op SliceOp [v0, OpResult i2 0, v3] [EffectivelyScalarR1Type (IntegerType 32)] []) = (i4, s4)"
    by fastforce
  obtain v5 s5 where a5: "IntConst s4 b [] = (v5, s5)" by fastforce
  obtain i6 s6 where a6: "create s5 b (mk_op ReshapeOp [OpResult i4 0, v5] [RankedTensorType [] (IntegerType 32)] []) = (i6, s6)"
    by fastforce
  obtain i7 s7 where a7: "create s6 b (mk_op CastOp [OpResult i6 0] [RankedTensorType [] (IntegerType 64)] []) = (i7, s7)"
    by fastforce
  have k0: "x \<in> set (body_of s0 j)" by (rule IntConst_body_mem[OF a0 x])
  have k1: "x \<in> set (body_of s1 j)" by (rule IntConst_body_mem[OF a1 k0])
  have k2: "x \<in> set (body_of s2 j)" by (rule create_body_mem[OF a2 k1])
  have k3: "x \<in> set (body_of s3 j)" by (rule IntConst_body_mem[OF a3 k2])
  have k4: "x \<in> set (body_of s4 j)" by (rule create_body_mem[OF a4 k3])
  have k5: "x \<in> set (body_of s5 j)" by (rule IntConst_body_mem[OF a5 k4])
  have k6: "x \<in> set (body_of s6 j)" by (rule create_body_mem[OF a6 k5])
  have k7: "x \<in> set (body_of s7 j)" by (rule create_body_mem[OF a7 k6])
  show ?thesis
  proof (cases r64)
    case True
    with assms t dv a0 a1 a2 a3 a4 a5 a6 a7 have "s' = s7"
      by (simp add: GetDeviceOrdinal_def ReshapeScalarToSizeType_def ReshapeSizeTypeToScalar_def Let_def)
    with k7 show ?thesis by simp
  next
    case False
    with assms t dv a0 a1 a2 a3 a4 a5 a6 have "s' = s6"
      by (simp add: GetDeviceOrdinal_def ReshapeScalarToSizeType_def ReshapeSizeTypeToScalar_def Let_def)
    with k6 show ?thesis by simp
  qed
qed

lemma GetOrCreateCompilationKey_body_mem:
  assumes "GetOrCreateCompilationKey opr s = Inr (k, s')" and x: "x \<in> set (body_of s j)"
  shows "x \<in> set (body_of s' j)"
proof -
  from assms obtain cluster where c: "getParentOfType s ClusterOp opr = Some cluster"
    by (auto simp: GetOrCreateCompilationKey_def split: option.splits)
  show ?thesis
  proof (cases "filter (has_kind s PlaceholderProgramKeyOp) (walk s cluster)")
    case Nil
    with assms c obtain b i where "create s b PlaceholderProgramKey = (i, s')"
      by (auto simp: GetOrCreateCompilationKey_def Let_def split: sum.splits prod.splits)
    then show ?thesis using x by (rule create_body_mem)
  next
    case (Cons y ys)
    with assms c have "s' = s" by (auto simp: GetOrCreateCompilationKey_def)
    with x show ?thesis by simp
  qed
qed

lemma ordinal_ops_not_key:
  "i < length (ordinal_ops n tbl dv r64) \<Longrightarrow>
     ordinal_ops n tbl dv r64 ! i \<noteq> None \<and>
     fst (the (ordinal_ops n tbl dv r64 ! i)) \<noteq> PlaceholderProgramKeyOp"
  by (cases r64) (auto simp: ordinal_ops_def nth_Cons' less_Suc_eq numeral_eq_Suc split: if_splits)

lemma has_kind_contents:
  "has_kind s k i = (i < length s \<and> (\<exists>p. contents s ! i = Some p \<and> fst p = k))"
  using get_op_contents[of s i]
  by (cases "get_op s i") (auto simp: has_kind_def payload_def split: if_splits dest: sym)

lemma node_parent_nodes: "i < length s \<Longrightarrow> node_parent (nodes s ! i) = parent_of s i"
  by (auto simp: node_parent_def nodes_def parent_of_def get_op_def node_of_def split: option.splits)

lemma node_kind_contents: "i < length s \<Longrightarrow> node_kind (nodes s ! i) = map_option fst (contents s ! i)"
  by (simp add: contents_nodes node_kind_def option.map_comp comp_def)

lemma LowerDTensorRecvToXlaOp_placed:
  assumes run: "LowerDTensorRecvToXlaOp ext d ty s = Inr (r, s')"
  shows "\<exists>rcv. as_DTensorRecv s d = Some rcv \<and> keeps (length s) s s' \<and>
           Suc r = length s' \<and> length s < length s' \<and>
           parent_of s' r = parent_of s d \<and>
           (\<forall>blk. parent_of s d = Some blk \<and> d \<in> set (body_of s blk) \<longrightarrow>
              (\<exists>xs ys. body_of s' blk = xs @ r # d # ys)) \<and>
           (if is_cpu_mesh (layout_mesh (recv_layout rcv))
            then \<exists>tbl dv.
                   (\<exists>p. has_kind s PlaceholderProgramKeyOp p \<and>
                      drop (length s) (contents s') =
                        ordinal_ops (length s) tbl dv True @
                        [Some (payload (XlaRecvAtHostV2 [ty] (OpResult p 0) (OpResult (length s + 7) 0)
                                          (recv_key rcv)))]) \<or>
                   drop (length s) (contents s') =
                     ordinal_ops (length s) tbl dv True @
                     [Some (payload PlaceholderProgramKey),
                      Some (payload (XlaRecvAtHostV2 [ty] (OpResult (length s + 8) 0)
                                        (OpResult (length s + 7) 0) (recv_key rcv)))]
            else drop (length s) (contents s') =
                   [Some (payload (XlaRecvFromHost ty (getShape (recv_type rcv)) (recv_key rcv)))])"
proof -
  from run obtain rv where rv: "as_DTensorRecv s d = Some rv"
    by (auto simp: LowerDTensorRecvToXlaOp_def split: option.splits)
  have dl: "d < length s" using rv by (rule as_DTensorRecv_length)
  have "\<exists>s2 op2. keeps (length s) s s2 \<and> create s2 (OpBuilder s2 d) op2 = (r, s') \<and>
          (\<forall>x j. x \<in> set (body_of s j) \<longrightarrow> x \<in> set (body_of s2 j)) \<and>
          (if is_cpu_mesh (layout_mesh (recv_layout rv))
            then \<exists>tbl dv.
                   (\<exists>p. has_kind s PlaceholderProgramKeyOp p \<and>
                      drop (length s) (contents s2 @ [Some (payload op2)]) =
                        ordinal_ops (length s) tbl dv True @
                        [Some (payload (XlaRecvAtHostV2 [ty] (OpResult p 0) (OpResult (length s + 7) 0)
                                          (recv_key rv)))]) \<or>
                   drop (length s) (contents s2 @ [Some (payload op2)]) =
                     ordinal_ops (length s) tbl dv True @
                     [Some (payload PlaceholderProgramKey),
                      Some (payload (XlaRecvAtHostV2 [ty] (OpResult (length s + 8) 0)
                                        (OpResult (length s + 7) 0) (recv_key rv)))]
            else drop (length s) (contents s2 @ [Some (payload op2)]) =
                   [Some (payload (XlaRecvFromHost ty (getShape (recv_type rv)) (recv_key rv)))])"
  proof (cases "is_cpu_mesh (layout_mesh (recv_layout rv))")
    case False
    with run rv have "create s (OpBuilder s d) (XlaRecvFromHost ty (getShape (recv_type rv)) (recv_key rv)) = (r, s')"
      by (simp add: LowerDTensorRecvToXlaOp_def Let_def)
    with False show ?thesis
      by (intro exI[of _ s] exI[of _ "XlaRecvFromHost ty (getShape (recv_type rv)) (recv_key rv)"])
         (simp add: keeps_refl)
  next
    case True
    with run rv obtain m c b2 dv s1 pk s2 where
      g: "GetDeviceOrdinal ext m (getParentOfType s FuncOp c) b2 True s = Inr (dv, s1)" and
      k: "GetOrCreateCompilationKey d s1 = Inr (pk, s2)" and
      c: "create s2 (OpBuilder s2 d) (XlaRecvAtHostV2 [ty] pk dv (recv_key rv)) = (r, s')"
      by (auto simp: LowerDTensorRecvToXlaOp_def Let_def split: option.splits sum.splits prod.splits)
    from GetDeviceOrdinal_contents[OF g] obtain tbl dvv where
      c1: "contents s1 = contents s @ ordinal_ops (length s) tbl dvv True"
      and dv: "dv = OpResult (length s + 7) 0" by auto
    from arg_cong[OF c1, of length] have l1: "length s1 = length s + 8" by simp
    have ks: "keeps (length s) s s2"
      by (rule keeps_step[OF GetDeviceOrdinal_keeps[OF g] GetOrCreateCompilationKey_keeps[OF k]])
    have mem: "\<forall>x j. x \<in> set (body_of s j) \<longrightarrow> x \<in> set (body_of s2 j)"
      using GetDeviceOrdinal_body_mem[OF g] GetOrCreateCompilationKey_body_mem[OF k] by blast
    from GetOrCreateCompilationKey_contents[OF k]
    consider (old) p where "s2 = s1" "pk = OpResult p 0" "has_kind s1 PlaceholderProgramKeyOp p"
      | (new) "contents s2 = contents s1 @ [Some (payload PlaceholderProgramKey)]" "pk = OpResult (length s1) 0"
      by blast
    then show ?thesis
    proof cases
      case old
      from old(3) obtain q where q: "p < length s1" "contents s1 ! p = Some q" "fst q = PlaceholderProgramKeyOp"
        by (auto simp: has_kind_contents)
      have "p < length s"
      proof (rule ccontr)
        assume "\<not> p < length s"
        with q(1) l1 have "p - length s < length (ordinal_ops (length s) tbl dvv True)" by simp
        from ordinal_ops_not_key[OF this] q(2,3) \<open>\<not> p < length s\<close> show False
          by (simp add: c1 nth_append)
      qed
      with q have "has_kind s PlaceholderProgramKeyOp p"
        by (auto simp: has_kind_contents c1 nth_append)
      with True old c1 dv ks c mem show ?thesis
        by (intro exI[of _ s2] exI[of _ "XlaRecvAtHostV2 [ty] pk dv (recv_key rv)"]) auto
    next
      case new
      with True c1 dv l1 ks c mem show ?thesis
        by (intro exI[of _ s2] exI[of _ "XlaRecvAtHostV2 [ty] pk dv (recv_key rv)"]) auto
    qed
  qed
  then obtain s2 op2 where ks: "keeps (length s) s s2" and c: "create s2 (OpBuilder s2 d) op2 = (r, s')"
    and mem: "\<forall>x j. x \<in> set (body_of s j) \<longrightarrow> x \<in> set (body_of s2 j)"
    and shape: "if is_cpu_mesh (layout_mesh (recv_layout rv))
            then \<exists>tbl dv.
                   (\<exists>p. has_kind s PlaceholderProgramKeyOp p \<and>
                      drop (length s) (contents s2 @ [Some (payload op2)]) =
                        ordinal_ops (length s) tbl dv True @
                        [Some (payload (XlaRecvAtHostV2 [ty] (OpResult p 0) (OpResult (length s + 7) 0)
                                          (recv_key rv)))]) \<or>
                   drop (length s) (contents s2 @ [Some (payload op2)]) =
                     ordinal_ops (length s) tbl dv True @
                     [Some (payload PlaceholderProgramKey),
                      Some (payload (XlaRecvAtHostV2 [ty] (OpResult (length s + 8) 0)
                                        (OpResult (length s + 7) 0) (recv_key rv)))]
            else drop (length s) (contents s2 @ [Some (payload op2)]) =
                   [Some (payload (XlaRecvFromHost ty (getShape (recv_type rv)) (recv_key rv)))]"
    by blast
  from contents_create[OF c] have r: "r = length s2" and cs: "contents s' = contents s2 @ [Some (payload op2)]"
    by simp_all
  from length_create[OF c] have ls: "length s' = Suc (length s2)" .
  from keeps_length[OF ks] have le: "length s \<le> length s2" by simp
  have k': "keeps (length s) s s'" by (rule keeps_step[OF ks keeps_create[OF c order_refl]])
  have pd: "parent_of s2 d = parent_of s d" by (rule parent_of_keeps_eq[OF ks dl])
  from nodes_create[OF c] have "nodes s' ! r = Some (payload op2, parent_of s d)"
    by (simp add: r nth_append pd)
  with node_parent_nodes[of r s'] ls r have pr: "parent_of s' r = parent_of s d"
    by (simp add: node_parent_def)
  have b: "\<forall>blk. parent_of s d = Some blk \<and> d \<in> set (body_of s blk) \<longrightarrow>
              (\<exists>xs ys. body_of s' blk = xs @ r # d # ys)"
  proof (intro allI impI)
    fix blk assume h: "parent_of s d = Some blk \<and> d \<in> set (body_of s blk)"
    with mem have m2: "d \<in> set (body_of s2 blk)" by blast
    then obtain p2 where p2: "get_op s2 blk = Some p2" by (cases "get_op s2 blk") (auto simp: body_of_def)
    from h pd have ib: "ip_block (OpBuilder s2 d) = Some blk" by simp
    from body_of_create[OF c ib p2, of blk] have "body_of s' blk = insert_before (Some d) r (body p2)"
      by (simp add: r)
    moreover from m2 p2 have "d \<in> set (body p2)" by (simp add: body_of_def)
    ultimately show "\<exists>xs ys. body_of s' blk = xs @ r # d # ys"
      using insert_before_adjacent by simp
  qed
  from r ls le have n: "Suc r = length s'" "length s < length s'" by simp_all
  from rv k' n pr b shape[folded cs] show ?thesis
    by (intro exI[of _ rv] conjI) assumption+
qed

lemma CreateIntScalarConst_keeps:
  "CreateIntScalarConst ext n s b = (v, s') \<Longrightarrow> keeps (length s) s s'"
  by (auto simp: CreateIntScalarConst_def Let_def split: prod.splits intro: keeps_create)

lemma LowerDTensorSendToXlaOp_placed:
  assumes run: "LowerDTensorSendToXlaOp ext l x d z s = Inr (r, s')"
  shows "\<exists>snd_d. as_DTensorSend s d = Some snd_d \<and> get_op s' d = None \<and>
           Suc r = length s' \<and> length s < length s' \<and>
           take (length s) (nodes s') = (nodes s)[d := None] \<and>
           (if is_tpu_mesh (layout_mesh l)
            then nodes s' ! r = Some (payload (XlaSendToHost x (send_key snd_d)), parent_of s d)
            else \<exists>pk ord. nodes s' ! r =
                   Some (payload (XlaSendFromHostV2 [x] pk ord (send_key snd_d)), parent_of s d))"
proof -
  from run obtain sn where sn: "as_DTensorSend s d = Some sn"
    by (auto simp: LowerDTensorSendToXlaOp_def split: option.splits)
  have dl: "d < length s" using sn by (rule as_DTensorSend_contents)
  have "\<exists>s2 op2 s3. keeps (length s) s s2 \<and> create s2 (OpBuilder s d) op2 = (r, s3) \<and> s' = erase d s3 \<and>
          (if is_tpu_mesh (layout_mesh l) then op2 = XlaSendToHost x (send_key sn)
           else \<exists>pk ord. op2 = XlaSendFromHostV2 [x] pk ord (send_key sn))"
  proof (cases "is_tpu_mesh (layout_mesh l)")
    case True
    with run sn obtain s3 where "create s (OpBuilder s d) (XlaSendToHost x (send_key sn)) = (r, s3)"
      "s' = erase d s3"
      by (auto simp: LowerDTensorSendToXlaOp_def Let_def split: prod.splits)
    with True show ?thesis
      by (intro exI[of _ s] exI[of _ "XlaSendToHost x (send_key sn)"] exI[of _ s3]) (simp add: keeps_refl)
  next
    case False
    with run sn obtain pk s1 ord s2 s3 where
      k: "GetOrCreateCompilationKey d s = Inr (pk, s1)" and
      o: "(if z then Inr (CreateIntScalarConst ext 0 s1 (OpBuilder s d))
           else (case getParentOfType s1 ClusterOp d of
                   None \<Rightarrow> Inl (InvalidArgument ''DTensorSend is not inside a ClusterOp'')
                 | Some send_cluster \<Rightarrow>
                     (case getParentOfType s1 FuncOp send_cluster of
                        None \<Rightarrow> Inl (InvalidArgument ''DTensorSend is not inside a FuncOp'')
                      | Some send_func \<Rightarrow>
                          GetDeviceOrdinal ext (layout_mesh l) (Some send_func) (OpBuilder s d) True s1)))
          = Inr (ord, s2)" and
      c: "create s2 (OpBuilder s d) (XlaSendFromHostV2 [x] pk ord (send_key sn)) = (r, s3)" and
      e: "s' = erase d s3"
      by (auto simp: LowerDTensorSendToXlaOp_def Let_def split: sum.splits prod.splits)
    have k1: "keeps (length s) s s1" by (rule GetOrCreateCompilationKey_keeps[OF k])
    have k2: "keeps (length s1) s1 s2"
    proof (cases z)
      case True
      with o show ?thesis by (auto intro: CreateIntScalarConst_keeps)
    next
      case False
      with o show ?thesis by (auto split: option.splits intro: GetDeviceOrdinal_keeps)
    qed
    from False c e keeps_step[OF k1 k2] show ?thesis
      by (intro exI[of _ s2] exI[of _ "XlaSendFromHostV2 [x] pk ord (send_key sn)"] exI[of _ s3]) auto
  qed
  then obtain s2 op2 s3 where ks: "keeps (length s) s s2" and c: "create s2 (OpBuilder s d) op2 = (r, s3)"
    and e: "s' = erase d s3"
    and shape: "if is_tpu_mesh (layout_mesh l) then op2 = XlaSendToHost x (send_key sn)
           else \<exists>pk ord. op2 = XlaSendFromHostV2 [x] pk ord (send_key sn)"
    by blast
  from contents_create[OF c] have r: "r = length s2" by simp
  from length_create[OF c] have ls: "length s' = Suc (length s2)" by (simp add: e)
  from keeps_length[OF ks] have le: "length s \<le> length s2" by simp
  from nodes_create[OF c] have n3: "nodes s' = (nodes s2 @ [Some (payload op2, parent_of s d)])[d := None]"
    by (simp add: e nodes_erase)
  from keeps_nodes[OF ks] have tk: "take (length s) (nodes s2) = nodes s" by simp
  have 1: "take (length s) (nodes s') = (nodes s)[d := None]"
    using dl le tk by (simp add: n3 take_update_swap)
  have 2: "nodes s' ! r = Some (payload op2, parent_of s d)"
    using dl le by (simp add: n3 r nth_list_update nth_append)
  have 3: "get_op s' d = None" by (simp add: e)
  from r ls le have n: "Suc r = length s'" "length s < length s'" by simp_all
  have 4: "if is_tpu_mesh (layout_mesh l)
            then nodes s' ! r = Some (payload (XlaSendToHost x (send_key sn)), parent_of s d)
            else \<exists>pk ord. nodes s' ! r =
                   Some (payload (XlaSendFromHostV2 [x] pk ord (send_key sn)), parent_of s d)"
    using shape 2 by (auto split: if_splits)
  from sn 3 n 1 4 show ?thesis by (intro exI[of _ sn] conjI) assumption+
qed

lemma LowerDTensorRecvToTFOp_keeps:
  assumes run: "LowerDTensorRecvToTFOp send_mesh dtensor_recv output_type s = Inr (recv_op, s')"
  shows "keeps (length s) s s'"
proof -
  from run obtain opn where "create s (OpBuilder s dtensor_recv) opn = (recv_op, s')"
    by (auto simp: LowerDTensorRecvToTFOp_def Let_def split: option.splits list.splits prod.splits sum.splits)
  then show ?thesis by (rule keeps_create) simp
qed

lemma node_kind_Some [simp]: "node_kind (Some (payload opn, p)) = Some (kind opn)"
  by (simp add: node_kind_def payload_def)

lemma node_parent_Some [simp]: "node_parent (Some (x, p)) = p"
  by (simp add: node_parent_def)

lemma kind_simps [simp]:
  "kind (HostSend x k sd n rd c) = HostSendOp"
  "kind (HostRecv ty k sd n rd c) = HostRecvOp"
  "kind (XlaSendToHost x k) = XlaSendToHostOp"
  "kind (XlaSendFromHostV2 xs pk ord k) = XlaSendFromHostV2Op"
  by (simp_all add: HostSend_def HostRecv_def XlaSendToHost_def XlaSendFromHostV2_def mk_op_def)

text \<open>
  C3, as the claim states it, fails: the host-to-host receive returns the new receive and
  leaves the abstract Recv in the graph, its consumer \<open>tf.B\<close> still reading its result.
\<close>

theorem single_target_erasure_counterexample:
  "\<not> isl (LowerDTensorRecvToTFOp src_mesh 5 i32x4 example_ir) \<and>
   fst (projr (LowerDTensorRecvToTFOp src_mesh 5 i32x4 example_ir)) = 7 \<and>
   as_DTensorRecv (snd (projr (LowerDTensorRecvToTFOp src_mesh 5 i32x4 example_ir))) 5 =
     Some \<lparr>recv_key = ''t1'', recv_layout = dst_layout, recv_type = i32x4\<rparr> \<and>
   operand_at (snd (projr (LowerDTensorRecvToTFOp src_mesh 5 i32x4 example_ir))) (6, 0) =
     Some (OpResult 5 0)"
  by (simp add: LowerDTensorRecvToTFOp_def as_DTensorRecv_def example_defs Let_def create_def
      getParentOfType_def atBlockFront_def operand_at_def OpBuilder_def update_op_def
      split: prod.splits)

text \<open>
  C3, amended. On success each of the three sending variants (host to host, across the
  accelerator boundary, fan-out) returns the last operation it created, a concrete send,
  and has erased the abstract Send, which has no result to redirect; every other
  operation that was there is unchanged. The fan-out receive returns the last operation
  it created, a host receive in the block of the abstract Recv; every operand that read
  a result of the abstract Recv reads the same result of that receive, and the abstract
  Recv is erased. The two other receiving variants erase nothing and redirect nothing:
  every operation that was there, the abstract Recv and its consumers included, is
  unchanged, and the new receive is returned for the caller to splice in. The
  host-to-host receive adds exactly one operation, the host receive, right before the
  abstract Recv. The receive across the accelerator boundary returns the last operation
  it created, placed right before the abstract Recv in its block: on an accelerator
  receiver it is the only operation added, a receive from the host; on a host-resident
  receiver it is a receive at the host, added after the eight operations that compute
  the 64-bit device ordinal and, when the cluster had no compilation-key placeholder,
  after the new placeholder.
\<close>

theorem single_target_erasure:
  "(LowerDTensorSendToTFOp l1 x1 d1 s1 = Inr (r1, s1') \<longrightarrow>
      get_op s1' d1 = None \<and> Suc r1 = length s1' \<and> length s1 < length s1' \<and>
      node_kind (nodes s1' ! r1) = Some HostSendOp \<and>
      take (length s1) (nodes s1') = (nodes s1)[d1 := None]) \<and>
   (LowerDTensorSendToXlaOp ext2 l2 x2 d2 z2 s2 = Inr (r2, s2') \<longrightarrow>
      get_op s2' d2 = None \<and> Suc r2 = length s2' \<and> length s2 < length s2' \<and>
      node_kind (nodes s2' ! r2) =
        Some (if is_tpu_mesh (layout_mesh l2) then XlaSendToHostOp else XlaSendFromHostV2Op) \<and>
      take (length s2) (nodes s2') = (nodes s2)[d2 := None]) \<and>
   (LowerDTensorSendFromCPUToTFOp l3 x3 d3 s3 = Inr (r3, s3') \<longrightarrow>
      get_op s3' d3 = None \<and> Suc r3 = length s3' \<and> length s3 < length s3' \<and>
      node_kind (nodes s3' ! r3) = Some HostSendOp \<and>
      take (length s3) (nodes s3') = (nodes s3)[d3 := None]) \<and>
   (LowerDTensorRecvFromCPUToTFOp m4 d4 s4 = Inr (r4, s4') \<longrightarrow>
      get_op s4' d4 = None \<and> Suc r4 = length s4' \<and> length s4 < length s4' \<and>
      node_kind (nodes s4' ! r4) = Some HostRecvOp \<and>
      node_parent (nodes s4' ! r4) = parent_of s4 d4 \<and>
      take (length s4) (nodes s4') =
        (map (map_option (\<lambda>n. (map_operands (replace_op_val d4 r4) (fst n), snd n))) (nodes s4))
          [d4 := None]) \<and>
   (LowerDTensorRecvToTFOp m5 d5 ty5 s5 = Inr (r5, s5') \<longrightarrow>
      (\<exists>rcv. as_DTensorRecv s5 d5 = Some rcv \<and> as_DTensorRecv s5' d5 = Some rcv \<and>
         r5 = length s5 \<and>
         nodes s5' =
           nodes s5 @
           [Some (payload (HostRecv ty5 (recv_key rcv) (hd (local_devices m5)) 0
                             (hd (local_devices (layout_mesh (recv_layout rcv)))) False),
                  parent_of s5 d5)] \<and>
         (\<forall>blk p. parent_of s5 d5 = Some blk \<and> get_op s5 blk = Some p \<longrightarrow>
            body_of s5' blk = insert_before (Some d5) r5 (body p)))) \<and>
   (LowerDTensorRecvToXlaOp ext6 d6 ty6 s6 = Inr (r6, s6') \<longrightarrow>
      (\<exists>rcv. as_DTensorRecv s6 d6 = Some rcv \<and> as_DTensorRecv s6' d6 = Some rcv \<and>
         take (length s6) (nodes s6') = nodes s6 \<and>
         Suc r6 = length s6' \<and> length s6 < length s6' \<and>
         parent_of s6' r6 = parent_of s6 d6 \<and>
         (\<forall>blk. parent_of s6 d6 = Some blk \<and> d6 \<in> set (body_of s6 blk) \<longrightarrow>
            (\<exists>xs ys. body_of s6' blk = xs @ r6 # d6 # ys)) \<and>
         (if is_cpu_mesh (layout_mesh (recv_layout rcv))
          then \<exists>tbl dv.
                 (\<exists>p. has_kind s6 PlaceholderProgramKeyOp p \<and>
                    drop (length s6) (contents s6') =
                      ordinal_ops (length s6) tbl dv True @
                      [Some (payload (XlaRecvAtHostV2 [ty6] (OpResult p 0) (OpResult (length s6 + 7) 0)
                                        (recv_key rcv)))]) \<or>
                 drop (length s6) (contents s6') =
                   ordinal_ops (length s6) tbl dv True @
                   [Some (payload PlaceholderProgramKey),
                    Some (payload (XlaRecvAtHostV2 [ty6] (OpResult (length s6 + 8) 0)
                                      (OpResult (length s6 + 7) 0) (recv_key rcv)))]
          else drop (length s6) (contents s6') =
                 [Some (payload (XlaRecvFromHost ty6 (getShape (recv_type rcv)) (recv_key rcv)))])))"
proof (intro conjI impI)
  assume a: "LowerDTensorSendToTFOp l1 x1 d1 s1 = Inr (r1, s1')"
  from LowerDTensorSendToTFOp_placed[OF a] obtain d df sd rd where
    d: "as_DTensorSend s1 d1 = Some d" and r: "r1 = length s1" and
    n: "nodes s1' =
          (nodes s1 @ [Some (payload (HostSend x1 (send_key d) sd 0 rd False), parent_of s1 df)])[d1 := None]"
    by blast
  have dl: "d1 < length s1" using d by (rule as_DTensorSend_contents)
  from arg_cong[OF n, of length] have len: "length s1' = Suc (length s1)" by simp
  from LowerDTensorSendToTFOp_emits[OF a] show "get_op s1' d1 = None" by blast
  from r len show "Suc r1 = length s1'" "length s1 < length s1'" by simp_all
  from dl show "node_kind (nodes s1' ! r1) = Some HostSendOp"
    by (simp add: n r nth_list_update nth_append)
  from dl show "take (length s1) (nodes s1') = (nodes s1)[d1 := None]"
    by (simp add: n take_update_swap)
next
  assume a: "LowerDTensorSendToXlaOp ext2 l2 x2 d2 z2 s2 = Inr (r2, s2')"
  from LowerDTensorSendToXlaOp_placed[OF a] obtain sn where
    p0: "as_DTensorSend s2 d2 = Some sn" and
    p: "get_op s2' d2 = None" "Suc r2 = length s2'" "length s2 < length s2'"
       "take (length s2) (nodes s2') = (nodes s2)[d2 := None]"
       "if is_tpu_mesh (layout_mesh l2)
            then nodes s2' ! r2 = Some (payload (XlaSendToHost x2 (send_key sn)), parent_of s2 d2)
            else \<exists>pk ord. nodes s2' ! r2 =
                   Some (payload (XlaSendFromHostV2 [x2] pk ord (send_key sn)), parent_of s2 d2)"
    by (elim exE conjE) (rule that, assumption+)
  show "get_op s2' d2 = None" by (rule p(1))
  show "Suc r2 = length s2'" by (rule p(2))
  show "length s2 < length s2'" by (rule p(3))
  show "take (length s2) (nodes s2') = (nodes s2)[d2 := None]" by (rule p(4))
  from p(5) show "node_kind (nodes s2' ! r2) =
        Some (if is_tpu_mesh (layout_mesh l2) then XlaSendToHostOp else XlaSendFromHostV2Op)"
    by (auto split: if_splits)
next
  assume a: "LowerDTensorSendFromCPUToTFOp l3 x3 d3 s3 = Inr (r3, s3')"
  from LowerDTensorSendFromCPUToTFOp_placed[OF a] obtain d df where
    d: "as_DTensorSend s3 d3 = Some d" and ne: "local_devices (layout_mesh (target_layout d)) \<noteq> []" and
    n: "nodes s3' =
             (nodes s3 @
              map (\<lambda>rd. Some (payload (HostSend (send_input d) (send_key d)
                                          (hd (local_devices (layout_mesh l3))) 0 rd False),
                               parent_of s3 df))
                (local_devices (layout_mesh (target_layout d))))[d3 := None]" and
    len: "length s3' = length s3 + length (local_devices (layout_mesh (target_layout d)))" and
    last: "Suc r3 = length s3'"
    by blast
  have dl: "d3 < length s3" using d by (rule as_DTensorSend_contents)
  from a show "get_op s3' d3 = None" by (rule LowerDTensorSendFromCPUToTFOp_erases)
  from last show "Suc r3 = length s3'" .
  from ne len show lt: "length s3 < length s3'" by simp
  from ne obtain k where k: "length (local_devices (layout_mesh (target_layout d))) = Suc k"
    by (cases "local_devices (layout_mesh (target_layout d))") auto
  from last len k have r: "r3 = length s3 + k" by simp
  have kk: "k < length (local_devices (layout_mesh (target_layout d)))" using k by simp
  have "nodes s3' ! r3 =
      Some (payload (HostSend (send_input d) (send_key d) (hd (local_devices (layout_mesh l3))) 0
                       (local_devices (layout_mesh (target_layout d)) ! k) False),
            parent_of s3 df)"
  proof -
    have ne3: "r3 \<noteq> d3" using dl r by simp
    have "nodes s3' ! r3 =
      (nodes s3 @
              map (\<lambda>rd. Some (payload (HostSend (send_input d) (send_key d)
                                          (hd (local_devices (layout_mesh l3))) 0 rd False),
                               parent_of s3 df))
                (local_devices (layout_mesh (target_layout d)))) ! r3"
      using ne3 by (subst n) (simp only: nth_list_update_neq[OF not_sym] nth_list_update_neq)
    also have "\<dots> = map (\<lambda>rd. Some (payload (HostSend (send_input d) (send_key d)
                                          (hd (local_devices (layout_mesh l3))) 0 rd False),
                               parent_of s3 df))
                (local_devices (layout_mesh (target_layout d))) ! k"
      by (simp add: nth_append r)
    finally show ?thesis using kk by simp
  qed
  then show "node_kind (nodes s3' ! r3) = Some HostSendOp" by simp
  from dl show "take (length s3) (nodes s3') = (nodes s3)[d3 := None]"
    by (simp add: n take_update_swap)
next
  assume a: "LowerDTensorRecvFromCPUToTFOp m4 d4 s4 = Inr (r4, s4')"
  from LowerDTensorRecvFromCPUToTFOp_placed[OF a] obtain d where
    d: "as_DTensorRecv s4 d4 = Some d" and ne: "local_devices (layout_mesh (recv_layout d)) \<noteq> []" and
    n: "nodes s4' =
             (map (map_option (\<lambda>n. (map_operands (replace_op_val d4 r4) (fst n), snd n)))
                (nodes s4) @
              map (\<lambda>rd. Some (payload (HostRecv (recv_type d) (recv_key d)
                                          (hd (local_devices m4)) 0 rd False),
                               parent_of s4 d4))
                (local_devices (layout_mesh (recv_layout d))))[d4 := None]" and
    len: "length s4' = length s4 + length (local_devices (layout_mesh (recv_layout d)))" and
    last: "Suc r4 = length s4'"
    by blast
  have dl: "d4 < length s4" using d by (rule as_DTensorRecv_length)
  from a show "get_op s4' d4 = None" by (rule LowerDTensorRecvFromCPUToTFOp_erases)
  from last show "Suc r4 = length s4'" .
  from ne len show lt: "length s4 < length s4'" by simp
  from ne obtain k where k: "length (local_devices (layout_mesh (recv_layout d))) = Suc k"
    by (cases "local_devices (layout_mesh (recv_layout d))") auto
  from last len k have r: "r4 = length s4 + k" by simp
  have kk: "k < length (local_devices (layout_mesh (recv_layout d)))" using k by simp
  have nr: "nodes s4' ! r4 =
      Some (payload (HostRecv (recv_type d) (recv_key d) (hd (local_devices m4)) 0
                       (local_devices (layout_mesh (recv_layout d)) ! k) False),
            parent_of s4 d4)"
  proof -
    have ne4: "r4 \<noteq> d4" using dl r by simp
    have "nodes s4' ! r4 =
      (map (map_option (\<lambda>n. (map_operands (replace_op_val d4 r4) (fst n), snd n))) (nodes s4) @
              map (\<lambda>rd. Some (payload (HostRecv (recv_type d) (recv_key d)
                                          (hd (local_devices m4)) 0 rd False),
                               parent_of s4 d4))
                (local_devices (layout_mesh (recv_layout d)))) ! r4"
      using ne4 by (subst n) (simp only: nth_list_update_neq[OF not_sym] nth_list_update_neq)
    also have "\<dots> = map (\<lambda>rd. Some (payload (HostRecv (recv_type d) (recv_key d)
                                          (hd (local_devices m4)) 0 rd False),
                               parent_of s4 d4))
                (local_devices (layout_mesh (recv_layout d))) ! k"
      by (simp add: nth_append r)
    finally show ?thesis using kk by simp
  qed
  show "node_kind (nodes s4' ! r4) = Some HostRecvOp" by (simp add: nr)
  show "node_parent (nodes s4' ! r4) = parent_of s4 d4" by (simp add: nr)
  from dl show "take (length s4) (nodes s4') =
        (map (map_option (\<lambda>n. (map_operands (replace_op_val d4 r4) (fst n), snd n))) (nodes s4))
          [d4 := None]"
    by (simp add: n take_update_swap)
next
  assume a: "LowerDTensorRecvToTFOp m5 d5 ty5 s5 = Inr (r5, s5')"
  from LowerDTensorRecvToTFOp_placed[OF a] obtain d sd sds rd rds where
    d: "as_DTensorRecv s5 d5 = Some d" and
    sd: "local_devices m5 = sd # sds" and
    rd: "local_devices (layout_mesh (recv_layout d)) = rd # rds" and
    r: "r5 = length s5" and
    n: "nodes s5' =
             nodes s5 @ [Some (payload (HostRecv ty5 (recv_key d) sd 0 rd False), parent_of s5 d5)]" and
    b: "\<forall>blk p. parent_of s5 d5 = Some blk \<and> get_op s5 blk = Some p \<longrightarrow>
              body_of s5' blk = insert_before (Some d5) r5 (body p)"
    by blast
  from keeps_as_DTensorRecv[OF LowerDTensorRecvToTFOp_keeps[OF a] d]
  have d': "as_DTensorRecv s5' d5 = Some d" .
  have n': "nodes s5' =
           nodes s5 @
           [Some (payload (HostRecv ty5 (recv_key d) (hd (local_devices m5)) 0
                             (hd (local_devices (layout_mesh (recv_layout d)))) False),
                  parent_of s5 d5)]"
    by (simp add: n sd rd)
  from d d' r n' b show "\<exists>rcv. as_DTensorRecv s5 d5 = Some rcv \<and> as_DTensorRecv s5' d5 = Some rcv \<and>
         r5 = length s5 \<and>
         nodes s5' =
           nodes s5 @
           [Some (payload (HostRecv ty5 (recv_key rcv) (hd (local_devices m5)) 0
                             (hd (local_devices (layout_mesh (recv_layout rcv)))) False),
                  parent_of s5 d5)] \<and>
         (\<forall>blk p. parent_of s5 d5 = Some blk \<and> get_op s5 blk = Some p \<longrightarrow>
            body_of s5' blk = insert_before (Some d5) r5 (body p))"
    by (intro exI[of _ d] conjI) assumption+
next
  assume a: "LowerDTensorRecvToXlaOp ext6 d6 ty6 s6 = Inr (r6, s6')"
  from LowerDTensorRecvToXlaOp_placed[OF a] obtain rv where
    p: "as_DTensorRecv s6 d6 = Some rv" "keeps (length s6) s6 s6'"
       "Suc r6 = length s6'" "length s6 < length s6'"
       "parent_of s6' r6 = parent_of s6 d6"
       "\<forall>blk. parent_of s6 d6 = Some blk \<and> d6 \<in> set (body_of s6 blk) \<longrightarrow>
              (\<exists>xs ys. body_of s6' blk = xs @ r6 # d6 # ys)"
       "if is_cpu_mesh (layout_mesh (recv_layout rv))
          then \<exists>tbl dv.
                 (\<exists>p. has_kind s6 PlaceholderProgramKeyOp p \<and>
                    drop (length s6) (contents s6') =
                      ordinal_ops (length s6) tbl dv True @
                      [Some (payload (XlaRecvAtHostV2 [ty6] (OpResult p 0) (OpResult (length s6 + 7) 0)
                                        (recv_key rv)))]) \<or>
                 drop (length s6) (contents s6') =
                   ordinal_ops (length s6) tbl dv True @
                   [Some (payload PlaceholderProgramKey),
                    Some (payload (XlaRecvAtHostV2 [ty6] (OpResult (length s6 + 8) 0)
                                      (OpResult (length s6 + 7) 0) (recv_key rv)))]
          else drop (length s6) (contents s6') =
                 [Some (payload (XlaRecvFromHost ty6 (getShape (recv_type rv)) (recv_key rv)))]"
    by (elim exE conjE) (rule that, assumption+)
  from keeps_as_DTensorRecv[OF p(2) p(1)] have d': "as_DTensorRecv s6' d6 = Some rv" .
  from keeps_nodes[OF p(2)] have tk: "take (length s6) (nodes s6') = nodes s6" by simp
  from p(1) d' tk p(3-7) show "\<exists>rcv. as_DTensorRecv s6 d6 = Some rcv \<and> as_DTensorRecv s6' d6 = Some rcv \<and>
         take (length s6) (nodes s6') = nodes s6 \<and>
         Suc r6 = length s6' \<and> length s6 < length s6' \<and>
         parent_of s6' r6 = parent_of s6 d6 \<and>
         (\<forall>blk. parent_of s6 d6 = Some blk \<and> d6 \<in> set (body_of s6 blk) \<longrightarrow>
            (\<exists>xs ys. body_of s6' blk = xs @ r6 # d6 # ys)) \<and>
         (if is_cpu_mesh (layout_mesh (recv_layout rcv))
          then \<exists>tbl dv.
                 (\<exists>p. has_kind s6 PlaceholderProgramKeyOp p \<and>
                    drop (length s6) (contents s6') =
                      ordinal_ops (length s6) tbl dv True @
                      [Some (payload (XlaRecvAtHostV2 [ty6] (OpResult p 0) (OpResult (length s6 + 7) 0)
                                        (recv_key rcv)))]) \<or>
                 drop (length s6) (contents s6') =
                   ordinal_ops (length s6) tbl dv True @
                   [Some (payload PlaceholderProgramKey),
                    Some (payload (XlaRecvAtHostV2 [ty6] (OpResult (length s6 + 8) 0)
                                      (OpResult (length s6 + 7) 0) (recv_key rcv)))]
          else drop (length s6) (contents s6') =
                 [Some (payload (XlaRecvFromHost ty6 (getShape (recv_type rcv)) (recv_key rcv)))])"
    by (intro exI[of _ rv] conjI) assumption+
qed

theorem single_target_erasure_witness:
  "\<exists>r1 s1 r2 s2 r3 s3 r4 s4 r5 s5 r6 s6.
     LowerDTensorSendToTFOp src_layout (OpResult 3 0) 4 example_ir = Inr (r1, s1) \<and>
     get_op s1 4 = None \<and> Suc r1 = length s1 \<and> node_kind (nodes s1 ! r1) = Some HostSendOp \<and>
     LowerDTensorSendToXlaOp example_ext tpu_layout (OpResult 3 0) 4 False example_ir = Inr (r2, s2) \<and>
     get_op s2 4 = None \<and> Suc r2 = length s2 \<and> node_kind (nodes s2 ! r2) = Some XlaSendToHostOp \<and>
     LowerDTensorSendFromCPUToTFOp src_layout (OpResult 3 0) 4 example_ir = Inr (r3, s3) \<and>
     get_op s3 4 = None \<and> Suc r3 = length s3 \<and> node_kind (nodes s3 ! r3) = Some HostSendOp \<and>
     LowerDTensorRecvFromCPUToTFOp src_mesh 5 example_ir = Inr (r4, s4) \<and>
     get_op s4 5 = None \<and> Suc r4 = length s4 \<and> node_kind (nodes s4 ! r4) = Some HostRecvOp \<and>
     node_parent (nodes s4 ! r4) = Some 2 \<and>
     take 7 (nodes s4) =
       (map (map_option (\<lambda>n. (map_operands (replace_op_val 5 r4) (fst n), snd n))) (nodes example_ir))
         [5 := None] \<and>
     LowerDTensorRecvToTFOp src_mesh 5 i32x4 example_ir = Inr (r5, s5) \<and>
     as_DTensorRecv s5 5 = Some \<lparr>recv_key = ''t1'', recv_layout = dst_layout, recv_type = i32x4\<rparr> \<and>
     r5 = 7 \<and>
     nodes s5 =
       nodes example_ir @
       [Some (payload (HostRecv i32x4 ''t1'' ''/job:localhost/task:0/device:CPU:0'' 0
                         ''/job:localhost/task:1/device:CPU:0'' False), Some 2)] \<and>
     body_of s5 2 = [3, 4, 7, 5, 6] \<and>
     LowerDTensorRecvToXlaOp example_ext 5 i32x4 example_tpu_ir = Inr (r6, s6) \<and>
     as_DTensorRecv s6 5 = Some \<lparr>recv_key = ''t1'', recv_layout = tpu_layout, recv_type = i32x4\<rparr> \<and>
     take 7 (nodes s6) = nodes example_tpu_ir \<and> Suc r6 = length s6 \<and>
     parent_of s6 r6 = Some 2 \<and>
     (\<exists>xs ys. body_of s6 2 = xs @ r6 # 5 # ys) \<and>
     drop 7 (contents s6) = [Some (payload (XlaRecvFromHost i32x4 [4] ''t1''))]"
proof -
  have "\<exists>r s'. LowerDTensorSendToTFOp src_layout (OpResult 3 0) 4 example_ir = Inr (r, s')"
    by (simp add: LowerDTensorSendToTFOp_def as_DTensorSend_def example_defs Let_def create_def
        split: prod.splits)
  then obtain r1 s1 where 1: "LowerDTensorSendToTFOp src_layout (OpResult 3 0) 4 example_ir = Inr (r1, s1)"
    by blast
  have "\<exists>r s'. LowerDTensorSendToXlaOp example_ext tpu_layout (OpResult 3 0) 4 False example_ir = Inr (r, s')"
    by (simp add: LowerDTensorSendToXlaOp_def as_DTensorSend_def example_defs Let_def create_def
        is_tpu_mesh_def tpu_layout_def tpu_mesh_def split: prod.splits)
  then obtain r2 s2 where 2:
    "LowerDTensorSendToXlaOp example_ext tpu_layout (OpResult 3 0) 4 False example_ir = Inr (r2, s2)"
    by blast
  have "\<exists>r s'. LowerDTensorSendFromCPUToTFOp src_layout (OpResult 3 0) 4 example_ir = Inr (r, s')"
    by (simp add: LowerDTensorSendFromCPUToTFOp_def as_DTensorSend_def example_defs Let_def create_def
        split: prod.splits)
  then obtain r3 s3 where 3:
    "LowerDTensorSendFromCPUToTFOp src_layout (OpResult 3 0) 4 example_ir = Inr (r3, s3)"
    by blast
  have "\<exists>r s'. LowerDTensorRecvFromCPUToTFOp src_mesh 5 example_ir = Inr (r, s')"
    by (simp add: LowerDTensorRecvFromCPUToTFOp_def as_DTensorRecv_def example_defs Let_def create_def
        getParentOfType_def atBlockFront_def split: prod.splits)
  then obtain r4 s4 where 4: "LowerDTensorRecvFromCPUToTFOp src_mesh 5 example_ir = Inr (r4, s4)"
    by blast
  have "\<exists>r s'. LowerDTensorRecvToTFOp src_mesh 5 i32x4 example_ir = Inr (r, s')"
    by (simp add: LowerDTensorRecvToTFOp_def as_DTensorRecv_def example_defs Let_def create_def
        getParentOfType_def atBlockFront_def split: prod.splits)
  then obtain r5 s5 where 5: "LowerDTensorRecvToTFOp src_mesh 5 i32x4 example_ir = Inr (r5, s5)"
    by blast
  have "\<exists>r s'. LowerDTensorRecvToXlaOp example_ext 5 i32x4 example_tpu_ir = Inr (r, s')"
    by (simp add: LowerDTensorRecvToXlaOp_def as_DTensorRecv_def example_tpu_ir_def example_defs Let_def
        is_cpu_mesh_def tpu_layout_def tpu_mesh_def split: prod.splits)
  then obtain r6 s6 where 6: "LowerDTensorRecvToXlaOp example_ext 5 i32x4 example_tpu_ir = Inr (r6, s6)"
    by blast
  have e: "length example_ir = 7" "length example_tpu_ir = 7"
    "parent_of example_ir 5 = Some 2" "parent_of example_tpu_ir 5 = Some 2"
    "get_op example_ir 2 = Some ((mk_op ClusterOp [] [] [])\<lparr>parent := Some 1, body := [3, 4, 5, 6]\<rparr>)"
    "body_of example_tpu_ir 2 = [3, 4, 5, 6]"
    "as_DTensorRecv example_ir 5 = Some \<lparr>recv_key = ''t1'', recv_layout = dst_layout, recv_type = i32x4\<rparr>"
    "as_DTensorRecv example_tpu_ir 5 = Some \<lparr>recv_key = ''t1'', recv_layout = tpu_layout, recv_type = i32x4\<rparr>"
    "\<not> is_cpu_mesh (layout_mesh tpu_layout)" "is_tpu_mesh (layout_mesh tpu_layout)"
    by (simp_all add: example_ir_def example_tpu_ir_def parent_of_def body_of_def get_op_def
        as_DTensorRecv_def mk_op_def getAttr_def is_cpu_mesh_def is_tpu_mesh_def tpu_layout_def tpu_mesh_def)
  note t = single_target_erasure[of src_layout "OpResult 3 0" 4 example_ir r1 s1
      example_ext tpu_layout "OpResult 3 0" 4 False example_ir r2 s2
      src_layout "OpResult 3 0" 4 example_ir r3 s3
      src_mesh 5 example_ir r4 s4
      src_mesh 5 i32x4 example_ir r5 s5
      example_ext 5 i32x4 example_tpu_ir r6 s6]
  from t 1 have c1: "get_op s1 4 = None \<and> Suc r1 = length s1 \<and> node_kind (nodes s1 ! r1) = Some HostSendOp"
    by simp
  from t 2 e(10) have c2: "get_op s2 4 = None \<and> Suc r2 = length s2 \<and> node_kind (nodes s2 ! r2) = Some XlaSendToHostOp"
    by simp
  from t 3 have c3: "get_op s3 4 = None \<and> Suc r3 = length s3 \<and> node_kind (nodes s3 ! r3) = Some HostSendOp"
    by simp
  from t 4 e(1,3) have c4: "get_op s4 5 = None \<and> Suc r4 = length s4 \<and> node_kind (nodes s4 ! r4) = Some HostRecvOp \<and>
     node_parent (nodes s4 ! r4) = Some 2 \<and>
     take 7 (nodes s4) =
       (map (map_option (\<lambda>n. (map_operands (replace_op_val 5 r4) (fst n), snd n))) (nodes example_ir))
         [5 := None]"
    by simp
  from t 5 e(1,3,5,7) have c5:
    "as_DTensorRecv s5 5 = Some \<lparr>recv_key = ''t1'', recv_layout = dst_layout, recv_type = i32x4\<rparr> \<and>
     r5 = 7 \<and>
     nodes s5 =
       nodes example_ir @
       [Some (payload (HostRecv i32x4 ''t1'' ''/job:localhost/task:0/device:CPU:0'' 0
                         ''/job:localhost/task:1/device:CPU:0'' False), Some 2)] \<and>
     body_of s5 2 = [3, 4, 7, 5, 6]"
    by (simp add: src_mesh_def dst_layout_def dst_mesh_def)
  from t 6 e(2,4,6,8,9) have c6:
    "as_DTensorRecv s6 5 = Some \<lparr>recv_key = ''t1'', recv_layout = tpu_layout, recv_type = i32x4\<rparr> \<and>
     take 7 (nodes s6) = nodes example_tpu_ir \<and> Suc r6 = length s6 \<and>
     parent_of s6 r6 = Some 2 \<and>
     (\<exists>xs ys. body_of s6 2 = xs @ r6 # 5 # ys) \<and>
     drop 7 (contents s6) = [Some (payload (XlaRecvFromHost i32x4 [4] ''t1''))]"
    by (simp add: i32x4_def)
  from 1 2 3 4 5 6 c1 c2 c3 c4 c5 c6 show ?thesis by blast
qed

subsection \<open>What the branching lowerings add\<close>

lemma GetDeviceOrdinal_nodes:
  assumes "GetDeviceOrdinal ext m fn b r64 s = Inr (v, s')"
  shows "\<exists>ords tbl dv.
           nodes s' = nodes s @ ords \<and>
           map (map_option fst) ords = ordinal_ops (length s) tbl dv r64 \<and>
           v = OpResult (length s + (if r64 then 7 else 6)) 0"
proof -
  from GetDeviceOrdinal_contents[OF assms] obtain tbl dv where
    c: "contents s' = contents s @ ordinal_ops (length s) tbl dv r64"
    and v: "v = OpResult (length s + (if r64 then 7 else 6)) 0"
    by blast
  from keeps_nodes_append[OF GetDeviceOrdinal_keeps[OF assms]]
  have n: "nodes s' = nodes s @ drop (length s) (nodes s')" .
  from arg_cong[OF n, of "map (map_option fst)"] c
  have "map (map_option fst) (drop (length s) (nodes s')) = ordinal_ops (length s) tbl dv r64"
    by (simp add: contents_nodes)
  with n v show ?thesis by blast
qed

lemma ordinal_ops_kinds:
  "map (map_option fst) ords = ordinal_ops n tbl dv False \<Longrightarrow>
     list_all (\<lambda>x. node_kind x = Some ConstOp \<or> node_kind x = Some ReshapeOp \<or> node_kind x = Some SliceOp) ords
     \<and> length ords = 7"
proof -
  assume a: "map (map_option fst) ords = ordinal_ops n tbl dv False"
  have "map node_kind ords = map (map_option fst) (map (map_option fst) ords)"
    by (simp add: node_kind_def[abs_def] option.map_comp comp_def)
  also have "\<dots> = [Some ConstOp, Some ConstOp, Some ReshapeOp, Some ConstOp, Some SliceOp, Some ConstOp, Some ReshapeOp]"
    by (simp add: a ordinal_ops_def)
  finally have k: "map node_kind ords =
     [Some ConstOp, Some ConstOp, Some ReshapeOp, Some ConstOp, Some SliceOp, Some ConstOp, Some ReshapeOp]" .
  from arg_cong[OF k, of length] have l: "length ords = 7" by simp
  have "\<forall>x\<in>set ords. node_kind x \<in> set (map node_kind ords)" by simp
  then have "\<forall>x\<in>set ords. node_kind x = Some ConstOp \<or> node_kind x = Some ReshapeOp \<or> node_kind x = Some SliceOp"
    unfolding k by auto
  with l show ?thesis by (simp add: list_all_iff)
qed

lemma GenerateBranches_loop_names_obj:
  assumes "\<forall>b a v t r t'. fn b a v t = Inr (r, t') \<longrightarrow>
                 keeps (length t) t t' \<and> list_all Q (drop (length t) (nodes t'))"
    and "\<forall>x. Q x \<longrightarrow> \<not> is_func_node x"
    and "GenerateBranches_loop ext opr rtys tag fn idx vs st br s = Inr (br', st', s')"
  shows "\<exists>names.
           br' = br @ map SymbolRefAttr names \<and> length names = length vs \<and>
           symbolNames st' = symbolNames st @ names \<and> distinct names \<and>
           set names \<inter> set (symbolNames st) = {} \<and>
           (\<forall>k<length vs. \<exists>sfx. names ! k = formatv tag (OpName ext opr) (OpHash ext opr) (idx + k) @ sfx) \<and>
           keeps (length s) s s' \<and>
           subprogram_names (drop (length s) (nodes s')) = map (\<lambda>n. Some (StringAttr n)) names \<and>
           list_all (is_private_in (symbolTableOp st)) (subprograms (drop (length s) (nodes s'))) \<and>
           list_all (\<lambda>x. is_func_node x \<or> node_kind x = Some ReturnOp \<or> Q x) (drop (length s) (nodes s'))"
proof (rule GenerateBranches_loop_names[where fn = fn and Q = Q])
  fix b a v t r t' assume "fn b a v t = Inr (r, t')"
  with assms(1) show "keeps (length t) t t' \<and> list_all Q (drop (length t) (nodes t'))" by blast
next
  fix x assume "Q x" with assms(2) show "\<not> is_func_node x" by blast
next
  show "GenerateBranches_loop ext opr rtys tag fn idx vs st br s = Inr (br', st', s')" by (rule assms(3))
qed

lemma as_DTensorSend_operands:
  assumes "as_DTensorSend s i = Some sd"
  shows "getOperands s i = [send_input sd]"
proof -
  from assms obtain opn where o: "get_op s i = Some opn" "length (operands opn) = 1"
    "send_input sd = hd (operands opn)"
    by (auto simp: as_DTensorSend_def split: option.splits if_splits attr.splits)
  from o(2) have "operands opn = [hd (operands opn)]" by (cases "operands opn") auto
  with o show ?thesis by (simp add: getOperands_def)
qed

lemma SymbolTable_simps [simp]:
  "symbolNames (SymbolTable s m) = module_symbols s m" "symbolTableOp (SymbolTable s m) = m"
  by (simp_all add: SymbolTable_def)

lemma LowerOneToOneDTensorSendToTFHostSend_nodes:
  assumes run: "LowerOneToOneDTensorSendToTFHostSend ext send_layout recv_mesh d s = Inr (r, s')"
  shows "\<exists>sd module names ords branch case_parent.
           as_DTensorSend s d = Some sd \<and> getParentOfType s ModuleOp d = Some module \<and>
           length names = length (zip (local_devices (layout_mesh send_layout)) (local_devices recv_mesh)) \<and>
           distinct names \<and> set names \<inter> set (module_symbols s module) = {} \<and>
           (\<forall>k<length names. \<exists>sfx. names ! k = formatv ''send'' (OpName ext d) (OpHash ext d) k @ sfx) \<and>
           nodes s' =
             (if device_type recv_mesh = ''GPU'' then (\<lambda>xs. xs[d := None]) else (\<lambda>xs. xs))
               (nodes s @ ords @ branch @
                [Some (payload (Case [] (OpResult (length s + 6) 0) [send_input sd]
                                  (map SymbolRefAttr names) False), case_parent)]) \<and>
           r = length s + 7 + length branch \<and>
           length ords = 7 \<and>
           list_all (\<lambda>x. node_kind x = Some ConstOp \<or> node_kind x = Some ReshapeOp \<or> node_kind x = Some SliceOp) ords \<and>
           subprogram_names branch = map (\<lambda>n. Some (StringAttr n)) names \<and>
           list_all (is_private_in module) (subprograms branch) \<and>
           list_all (\<lambda>x. is_func_node x \<or> node_kind x = Some ReturnOp \<or> send_branch_node (send_key sd) x) branch"
proof -
  let ?pairs = "zip (local_devices (layout_mesh send_layout)) (local_devices recv_mesh)"
  note D = LowerOneToOneDTensorSendToTFHostSend_def GenerateBranches_def
  obtain sd where sd: "as_DTensorSend s d = Some sd"
    using run by (cases "as_DTensorSend s d") (simp_all add: D)
  obtain ity where ity: "getType s (send_input sd) = Some ity"
    using run sd by (cases "getType s (send_input sd)") (simp_all add: D)
  obtain module where mo: "getParentOfType s ModuleOp d = Some module"
    using run sd ity by (cases "getParentOfType s ModuleOp d") (simp_all add: D Let_def)
  obtain c where c: "getParentOfType s ClusterOp d = Some c"
    using run sd ity mo by (cases "getParentOfType s ClusterOp d") (simp_all add: D Let_def)
  obtain mopt where mopt: "ExtractDeviceMeshFromOp ext (Some c) = Inr mopt"
    using run sd ity mo c by (cases "ExtractDeviceMeshFromOp ext (Some c)") (simp_all add: D Let_def)
  obtain m where m: "ExtractDeviceMeshFromOp ext (Some c) = Inr (Some m)"
    using run sd ity mo c mopt by (cases mopt) (simp_all add: D Let_def)
  obtain dev s1 where
    g: "GetDeviceOrdinal ext m (getParentOfType s FuncOp c) (OpBuilder s d) False s = Inr (dev, s1)"
    using run sd ity mo c m
    by (cases "GetDeviceOrdinal ext m (getParentOfType s FuncOp c) (OpBuilder s d) False s")
       (auto simp: D Let_def)
  let ?fn = "send_branch ext send_layout (isInteger (getElementType ity) 32) (send_key sd)"
  obtain branches st s2 where
    gb: "GenerateBranches_loop ext d [] ''send'' ?fn 0 ?pairs (SymbolTable s module) [] s1 = Inr (branches, st, s2)"
    using run sd ity mo c m g
    by (cases "GenerateBranches_loop ext d [] ''send'' ?fn 0 ?pairs (SymbolTable s module) [] s1")
       (auto simp: D Let_def)
  obtain case_op s3 where
    cs: "create s2 (OpBuilder s d) (Case [] dev (getOperands s2 d) branches False) = (case_op, s3)"
    by fastforce
  from run sd ity mo c m g gb cs have res: "r = case_op"
    "s' = (if device_type recv_mesh = ''GPU'' then erase d s3 else s3)"
    by (auto simp: D Let_def)
  from GetDeviceOrdinal_nodes[OF g] obtain ords tbl dv where
    o: "nodes s1 = nodes s @ ords" "map (map_option fst) ords = ordinal_ops (length s) tbl dv False"
       "dev = OpResult (length s + 6) 0"
    by auto
  note ok = ordinal_ops_kinds[OF o(2)]
  have fnk: "\<forall>b a v t r t'. ?fn b a v t = Inr (r, t') \<longrightarrow>
      keeps (length t) t t' \<and> list_all (send_branch_node (send_key sd)) (drop (length t) (nodes t'))"
    by (intro allI impI, rule send_branch_nodes)
  have fq: "\<forall>x. send_branch_node (send_key sd) x \<longrightarrow> \<not> is_func_node x"
    by (simp add: send_branch_node_not_func)
  from GenerateBranches_loop_names_obj[OF fnk fq gb]
  obtain names where
    n0: "branches = [] @ map SymbolRefAttr names" "length names = length ?pairs"
       "symbolNames st = symbolNames (SymbolTable s module) @ names" "distinct names"
       "set names \<inter> set (symbolNames (SymbolTable s module)) = {}"
       "\<forall>k<length ?pairs. \<exists>sfx. names ! k = formatv ''send'' (OpName ext d) (OpHash ext d) (0 + k) @ sfx"
       "keeps (length s1) s1 s2"
       "subprogram_names (drop (length s1) (nodes s2)) = map (\<lambda>n. Some (StringAttr n)) names"
       "list_all (is_private_in (symbolTableOp (SymbolTable s module))) (subprograms (drop (length s1) (nodes s2)))"
       "list_all (\<lambda>x. is_func_node x \<or> node_kind x = Some ReturnOp \<or> send_branch_node (send_key sd) x)
          (drop (length s1) (nodes s2))"
    by (elim exE conjE) (rule that, assumption+)
  have n: "branches = map SymbolRefAttr names" "length names = length ?pairs" "distinct names"
       "set names \<inter> set (module_symbols s module) = {}"
       "\<forall>k<length names. \<exists>sfx. names ! k = formatv ''send'' (OpName ext d) (OpHash ext d) k @ sfx"
       "keeps (length s1) s1 s2"
       "subprogram_names (drop (length s1) (nodes s2)) = map (\<lambda>n. Some (StringAttr n)) names"
       "list_all (is_private_in module) (subprograms (drop (length s1) (nodes s2)))"
       "list_all (\<lambda>x. is_func_node x \<or> node_kind x = Some ReturnOp \<or> send_branch_node (send_key sd) x)
          (drop (length s1) (nodes s2))"
    using n0 by simp_all
  define branch where "branch = drop (length s1) (nodes s2)"
  have k2: "keeps (length s) s s2"
    by (rule keeps_step[OF GetDeviceOrdinal_keeps[OF g] n(6)])
  from keeps_as_DTensorSend[OF k2 sd] have ops: "getOperands s2 d = [send_input sd]"
    by (rule as_DTensorSend_operands)
  have n2: "nodes s2 = nodes s @ ords @ branch"
    unfolding branch_def by (subst keeps_nodes_append[OF n(6)]) (simp add: o(1))
  have n3: "nodes s3 = nodes s @ ords @ branch @
      [Some (payload (Case [] (OpResult (length s + 6) 0) [send_input sd] (map SymbolRefAttr names) False),
             ip_block (OpBuilder s d))]"
    using nodes_create[OF cs] by (simp add: n2 ops o(3) n(1))
  from ok have ok1: "length ords = 7"
    and ok2: "list_all (\<lambda>x. node_kind x = Some ConstOp \<or> node_kind x = Some ReshapeOp \<or> node_kind x = Some SliceOp) ords"
    by simp_all
  have len2: "length s2 = length s + 7 + length branch"
    using arg_cong[OF n2, of length] ok1 by simp
  from contents_create[OF cs] res(1) len2 have r: "r = length s + 7 + length branch" by simp
  have "nodes s' = (if device_type recv_mesh = ''GPU'' then (\<lambda>xs. xs[d := None]) else (\<lambda>xs. xs)) (nodes s3)"
    by (simp add: res(2) nodes_erase)
  then have ns: "nodes s' =
             (if device_type recv_mesh = ''GPU'' then (\<lambda>xs. xs[d := None]) else (\<lambda>xs. xs))
               (nodes s @ ords @ branch @
                [Some (payload (Case [] (OpResult (length s + 6) 0) [send_input sd]
                                  (map SymbolRefAttr names) False), ip_block (OpBuilder s d))])"
    by (simp only: n3)
  note nb = n(7,8,9)[folded branch_def]
  show ?thesis
    using sd mo n(2,3,4,5) ns r ok1 ok2 nb
    by (intro exI[of _ sd] exI[of _ module] exI[of _ names] exI[of _ ords] exI[of _ branch]
          exI[of _ "ip_block (OpBuilder s d)"] conjI) assumption+
qed


subsection \<open>The branching lowerings return\<close>





lemma recv_branch_succeeds:
  "\<exists>r t'. recv_branch recv_lyt ty key b a v t = Inr (r, t')"
  by (simp add: recv_branch_def Let_def split: prod.splits)





subsection \<open>The branching send, step by step\<close>


subsection \<open>Blocks only grow while subprograms are generated\<close>

lemma update_op_body_mem:
  assumes "\<And>p. set (body p) \<subseteq> set (body (f p))" "x \<in> set (body_of s j)"
  shows "x \<in> set (body_of (update_op i f s) j)"
proof (cases "get_op s j")
  case None
  with assms(2) show ?thesis by (simp add: body_of_def)
next
  case (Some p)
  then have j: "j < length s" "s ! j = Some p" by (auto simp: get_op_def split: if_splits)
  show ?thesis
  proof (cases "i = j")
    case True
    with j have "get_op (update_op i f s) j = Some (f p)" by (simp add: get_op_def update_op_def)
    with assms Some show ?thesis by (auto simp: body_of_def)
  next
    case False
    with j have "get_op (update_op i f s) j = Some p" by (simp add: get_op_def update_op_def)
    with assms Some show ?thesis by (auto simp: body_of_def)
  qed
qed



lemma recv_branch_body_mem:
  assumes "recv_branch recv_lyt ty tensor_name b a v t = Inr (r, t')" "x \<in> set (body_of t j)"
  shows "x \<in> set (body_of t' j)"
proof -
  obtain i t1 where c: "create t b (HostRecv ty tensor_name (fst v) 0 (snd v) False) = (i, t1)"
    by fastforce
  with assms have t': "t' = SetSingleLayoutOnOp i recv_lyt t1" by (auto simp: recv_branch_def)
  show ?thesis unfolding t' SetSingleLayoutOnOp_def
    by (rule update_op_body_mem[OF _ create_body_mem[OF c assms(2)]]) (simp add: setAttr_def)
qed





subsection \<open>Which failures the lowerings return\<close>
















lemma is_abort_Abort: "e = Abort m \<Longrightarrow> is_abort e"
  by simp















end
